(* ===== verification/Prelude.thy ===== *)
theory Prelude
  imports Complex_Main "HOL-Library.Word" "HOL-Library.Multiset"
begin

text \<open>
  Shared vocabulary of the development: the types that stand for Go's basic types, the
  collections of rewrite rules the component theories fill, and generic lemmas on lists,
  maps and arithmetic that several components use.

  \<^item> A Go \<open>string\<close> is a HOL \<open>string\<close>: a list of bytes.
  \<^item> A \<open>float64\<close> is a rational. Comparisons of finite floats are exact in this reading;
    the rounding of float arithmetic is not modelled.
  \<^item> A \<open>time.Duration\<close> and an instant are integers, in the unit each component names.
  \<^item> A Go \<open>int\<close> is an \<open>int\<close>, and a machine word where the code depends on its width.
\<close>

type_synonym float64 = rat
type_synonym duration = int
type_synonym instant = int

section \<open>Collections of facts\<close>

named_theorems frame_simps "what an operation leaves unchanged"
named_theorems step_simps "the equations of the step functions of a component"
named_theorems string_simps "facts on the string functions of the Go library"

section \<open>Go's nanosecond units\<close>

definition Millisecond :: duration where "Millisecond = 1000000"
definition Second :: duration where "Second = 1000000000"
definition Minute :: duration where "Minute = 60000000000"
definition Hour :: duration where "Hour = 3600000000000"

lemmas duration_defs = Millisecond_def Second_def Minute_def Hour_def

section \<open>Lists\<close>

text \<open>Removing one position of a list, as \<open>append(xs[:i], xs[i+1:]...)\<close> does.\<close>

definition remove_at :: "nat \<Rightarrow> 'a list \<Rightarrow> 'a list" where
  "remove_at i xs = take i xs @ drop (Suc i) xs"

lemma length_remove_at [simp]: "i < length xs \<Longrightarrow> length (remove_at i xs) = length xs - 1"
  by (simp add: remove_at_def)

lemma mset_remove_at:
  assumes "i < length xs"
  shows "add_mset (xs ! i) (mset (remove_at i xs)) = mset xs"
proof -
  have "mset (take i xs @ xs ! i # drop (Suc i) xs) = mset xs"
    using assms by (simp add: id_take_nth_drop [symmetric])
  then show ?thesis by (simp add: remove_at_def)
qed

lemma set_remove_at_subset: "set (remove_at i xs) \<subseteq> set xs"
  unfolding remove_at_def using set_take_subset [of i xs] set_drop_subset [of "Suc i" xs] by auto

lemma sum_list_remove_at:
  fixes xs :: "int list"
  assumes "i < length xs"
  shows "sum_list (remove_at i xs) = sum_list xs - xs ! i"
proof -
  have "sum_list (take i xs @ xs ! i # drop (Suc i) xs) = sum_list xs"
    using assms by (simp add: id_take_nth_drop [symmetric])
  then show ?thesis by (simp add: remove_at_def)
qed

lemma filter_append_eq_Nil [simp]: "filter P (xs @ ys) = [] \<longleftrightarrow> filter P xs = [] \<and> filter P ys = []"
  by auto

lemma sum_list_pick:
  fixes c :: "'a::comm_monoid_add"
  assumes "distinct ts" "k \<in> set ts"
  shows "sum_list (map (\<lambda>t. (if k = t then c else 0) + g t) ts) = c + sum_list (map g ts)"
  using assms
proof (induction ts)
  case (Cons t ts)
  show ?case
  proof (cases "k = t")
    case True
    then have "sum_list (map (\<lambda>t. (if k = t then c else 0) + g t) ts) = sum_list (map g ts)"
      using Cons.prems by (intro arg_cong[where f = sum_list] map_cong) auto
    then show ?thesis using True by (simp add: add.assoc)
  next
    case False
    then show ?thesis using Cons by (simp add: add.left_commute)
  qed
qed simp

text \<open>Summing per group and then over the groups is summing over all.\<close>

lemma sum_list_groups:
  fixes f :: "'r \<Rightarrow> 'a::comm_monoid_add"
  assumes "distinct ts" "key ` set rows \<subseteq> set ts"
  shows "sum_list (map (\<lambda>t. sum_list (map f (filter (\<lambda>r. key r = t) rows))) ts) = sum_list (map f rows)"
  using assms(2)
proof (induction rows)
  case Nil
  then show ?case by simp
next
  case (Cons r rows)
  have s: "sum_list (map (\<lambda>t. sum_list (map f (filter (\<lambda>x. key x = t) (r # rows)))) ts)
      = sum_list (map (\<lambda>t. (if key r = t then f r else 0) + sum_list (map f (filter (\<lambda>x. key x = t) rows))) ts)"
    by (intro arg_cong[where f = sum_list] map_cong) auto
  show ?case
    unfolding s using sum_list_pick[OF assms(1), of "key r" "f r" "\<lambda>t. sum_list (map f (filter (\<lambda>x. key x = t) rows))"] Cons by simp
qed

lemma sum_list_sort_key:
  fixes f :: "'r \<Rightarrow> 'a::comm_monoid_add"
  shows "sum_list (map f (sort_key g xs)) = sum_list (map f xs)"
proof -
  have "mset (map f (sort_key g xs)) = mset (map f xs)" by simp
  then show ?thesis by (metis sum_mset_sum_list)
qed

section \<open>Rationals and rounding\<close>

text \<open>Go's conversion of a float to an integer type truncates towards zero.\<close>

definition trunc_rat :: "rat \<Rightarrow> int" where
  "trunc_rat x = (if 0 \<le> x then \<lfloor>x\<rfloor> else - \<lfloor>- x\<rfloor>)"

lemma trunc_rat_nonneg: "0 \<le> x \<Longrightarrow> 0 \<le> trunc_rat x"
  by (simp add: trunc_rat_def)

lemma trunc_rat_bounds:
  assumes "0 \<le> x"
  shows "of_int (trunc_rat x) \<le> x" and "x < of_int (trunc_rat x) + 1"
  using assms floor_correct [of x] by (simp_all add: trunc_rat_def)

text \<open>Go's integer division and remainder truncate towards zero.\<close>

definition go_div :: "int \<Rightarrow> int \<Rightarrow> int" where
  "go_div a b = sgn a * sgn b * (\<bar>a\<bar> div \<bar>b\<bar>)"

definition go_mod :: "int \<Rightarrow> int \<Rightarrow> int" where
  "go_mod a b = a - b * go_div a b"

lemma go_div_nonneg [simp]: "0 \<le> a \<Longrightarrow> 0 < b \<Longrightarrow> go_div a b = a div b"
  by (cases "a = 0") (auto simp: go_div_def sgn_if)

lemma go_mod_nonneg [simp]: "0 \<le> a \<Longrightarrow> 0 < b \<Longrightarrow> go_mod a b = a mod b"
  by (simp add: go_mod_def minus_mult_div_eq_mod)

section \<open>Rounding and wrap-around\<close>

text \<open>Rounding to the nearest integer, ties to even, and the value of an \<open>int64\<close>.\<close>

definition round_half_even :: "float64 \<Rightarrow> int" where
  "round_half_even x =
     (let n = \<lfloor>x\<rfloor>; r = x - of_int n in
      if r > 1 / 2 \<or> (r = 1 / 2 \<and> odd n) then n + 1 else n)"

lemma round_half_even_bounds:
  "of_int (round_half_even x) \<le> x + 1 / 2" "x - 1 / 2 \<le> of_int (round_half_even x)"
proof -
  have b: "of_int \<lfloor>x\<rfloor> \<le> x" "x < of_int \<lfloor>x\<rfloor> + 1" by linarith+
  have "round_half_even x = \<lfloor>x\<rfloor> + 1 \<and> of_int \<lfloor>x\<rfloor> + 1 / 2 \<le> x
      \<or> round_half_even x = \<lfloor>x\<rfloor> \<and> x \<le> of_int \<lfloor>x\<rfloor> + 1 / 2"
    by (auto simp: round_half_even_def Let_def)
  then have "of_int (round_half_even x) \<le> x + 1 / 2 \<and> x - 1 / 2 \<le> of_int (round_half_even x)"
  proof (elim disjE conjE)
    assume r: "round_half_even x = \<lfloor>x\<rfloor> + 1" "of_int \<lfloor>x\<rfloor> + 1 / 2 \<le> x"
    have "of_int (round_half_even x) = of_int \<lfloor>x\<rfloor> + (1 :: rat)" unfolding r(1) by simp
    then show ?thesis using b r(2) by linarith
  next
    assume r: "round_half_even x = \<lfloor>x\<rfloor>" "x \<le> of_int \<lfloor>x\<rfloor> + 1 / 2"
    have "of_int (round_half_even x) = (of_int \<lfloor>x\<rfloor> :: rat)" unfolding r(1) by simp
    then show ?thesis using b r(2) by linarith
  qed
  then show "of_int (round_half_even x) \<le> x + 1 / 2" "x - 1 / 2 \<le> of_int (round_half_even x)" by auto
qed

definition wrap64 :: "int \<Rightarrow> int" where
  "wrap64 n = signed_take_bit 63 n"

lemma wrap64_id [simp]: "- (2 ^ 63) \<le> n \<Longrightarrow> n < 2 ^ 63 \<Longrightarrow> wrap64 n = n"
  by (simp add: wrap64_def signed_take_bit_int_eq_self)

end
