(* ===== verification/Config.thy ===== *)
theory Config
  imports GoStrings
begin

text \<open>
  \<open>internal/config/config.go\<close>: the configuration document, the interpolation of environment
  variables into its text, the defaults, and the validation the rest of the process relies
  on. Durations are nanoseconds. A Go map is the list of its entries in the order in which
  \<open>range\<close> yields them. A validation message is a value of \<open>problem\<close>; its text is not modelled.
\<close>

section \<open>The document\<close>

record server_cfg =
  srv_Addr :: string
  srv_ReadTimeout :: duration
  srv_WriteTimeout :: duration
  srv_ShutdownTimeout :: duration
  srv_MaxBodyBytes :: int

record provider_cfg =
  pc_Name :: string
  pc_Kind :: string
  pc_BaseURL :: string
  pc_APIKey :: string
  pc_Timeout :: duration
  pc_Models :: "string list"
  pc_Enabled :: "bool option"

definition IsEnabled :: "provider_cfg \<Rightarrow> bool" where
  "IsEnabled p = (case pc_Enabled p of None \<Rightarrow> True | Some b \<Rightarrow> b)"

record target_cfg =
  tc_Provider :: string
  tc_Model :: string
  tc_Weight :: int

record alias_cfg =
  al_Strategy :: string
  al_Targets :: "target_cfg list"

record router_cfg =
  rc_Aliases :: "(string \<times> alias_cfg) list"
  rc_DefaultAlias :: string

record semantic_cfg =
  sem_Enabled :: bool
  sem_Collection :: string
  sem_Threshold :: float64
  sem_TTL :: duration
  sem_MaxTempDelta :: float64
  sem_VectorSize :: int

record cache_cfg =
  cc_Enabled :: bool
  cc_ExactTTL :: duration
  cc_Semantic :: semantic_cfg
  cc_MaxTemperature :: float64

record embed_cfg =
  em_Kind :: string
  em_BaseURL :: string
  em_Model :: string
  em_APIKey :: string
  em_Timeout :: duration

record breaker_cfg =
  br_Enabled :: bool
  br_FailureThreshold :: int
  br_OpenDuration :: duration
  br_HalfOpenProbes :: int

record resilience_cfg =
  re_MaxAttempts :: int
  re_BaseBackoff :: duration
  re_MaxBackoff :: duration
  re_Breaker :: breaker_cfg

record ratelimit_cfg =
  rl_Enabled :: bool
  rl_DefaultRPM :: int
  rl_Burst :: int

record stores_cfg =
  st_RedisURL :: string
  st_QdrantURL :: string
  st_QdrantAPIKey :: string
  st_PostgresURL :: string

record meter_cfg =
  mt_Enabled :: bool
  mt_BufferSize :: int
  mt_FlushInterval :: duration
  mt_BatchSize :: int

record obs_cfg =
  ob_ServiceName :: string
  ob_OTLPEndpoint :: string
  ob_SampleRatio :: float64
  ob_MetricsPath :: string
  ob_MetricsAddr :: string
  ob_LogLevel :: string

definition MetricsInline :: "obs_cfg \<Rightarrow> bool" where
  "MetricsInline o' \<longleftrightarrow> ob_MetricsAddr o' = ''inline''"

record price =
  pr_InputPerMillion :: float64
  pr_OutputPerMillion :: float64

record config =
  cf_Server :: server_cfg
  cf_Providers :: "provider_cfg list"
  cf_Router :: router_cfg
  cf_Cache :: cache_cfg
  cf_Embed :: embed_cfg
  cf_Resilience :: resilience_cfg
  cf_RateLimit :: ratelimit_cfg
  cf_Stores :: stores_cfg
  cf_Meter :: meter_cfg
  cf_Obs :: obs_cfg
  cf_Pricing :: "(string \<times> price) list"

section \<open>Environment interpolation\<close>

definition ident_start :: "char \<Rightarrow> bool" where
  "ident_start c \<longleftrightarrow>
     (let n = (of_char c :: nat) in
      65 \<le> n \<and> n \<le> 90 \<or> 97 \<le> n \<and> n \<le> 122 \<or> c = CHR ''_'')"

definition ident_char :: "char \<Rightarrow> bool" where
  "ident_char c \<longleftrightarrow> ident_start c \<or> is_digit c"

text \<open>
  One match of \<open>envPattern\<close> at the head of a text, after \<open>${\<close>: the variable, its default
  (\<open>None\<close> without one) and the text behind the closing brace.
\<close>

definition env_match :: "string \<Rightarrow> (string \<times> string option \<times> string) option" where
  "env_match s =
     (let var = takeWhile ident_char s; rest = dropWhile ident_char s in
      if var = [] \<or> \<not> ident_start (hd var) then None
      else case rest of
        [] \<Rightarrow> None
      | c # r \<Rightarrow>
          if c = CHR ''}'' then Some (var, None, r)
          else if HasPrefix rest '':-'' then
            (case dropWhile (\<lambda>x. x \<noteq> CHR ''}'') (drop 2 rest) of
               [] \<Rightarrow> None
             | _ # r' \<Rightarrow> Some (var, Some (takeWhile (\<lambda>x. x \<noteq> CHR ''}'') (drop 2 rest)), r'))
          else None)"

definition env_value :: "(string \<Rightarrow> string option) \<Rightarrow> string \<Rightarrow> string option \<Rightarrow> string" where
  "env_value lookup var dflt =
     (case lookup var of
        Some v \<Rightarrow> if v \<noteq> '''' then v else (case dflt of None \<Rightarrow> '''' | Some d \<Rightarrow> d)
      | None \<Rightarrow> (case dflt of None \<Rightarrow> '''' | Some d \<Rightarrow> d))"

lemma env_match_shorter: "env_match s = Some (v, d, r) \<Longrightarrow> length r < length s"
proof -
  assume m: "env_match s = Some (v, d, r)"
  let ?rest = "dropWhile ident_char s"
  have le: "length ?rest \<le> length s" by (rule length_dropWhile_le)
  have le2: "length (dropWhile (\<lambda>x. x \<noteq> CHR ''}'') (drop 2 ?rest)) \<le> length ?rest - 2"
    using length_dropWhile_le [of "\<lambda>x. x \<noteq> CHR ''}''" "drop 2 ?rest"] by simp
  show ?thesis
    using m le le2
    by (auto simp: env_match_def Let_def split: if_splits list.splits)
qed

function expandEnv :: "(string \<Rightarrow> string option) \<Rightarrow> string \<Rightarrow> string" where
  "expandEnv lookup [] = []"
| "expandEnv lookup (c # cs) =
     (if c = CHR ''$'' \<and> HasPrefix cs ''{'' then
        (case env_match (drop 1 cs) of
           Some (var, dflt, r) \<Rightarrow> env_value lookup var dflt @ expandEnv lookup r
         | None \<Rightarrow> c # expandEnv lookup cs)
      else c # expandEnv lookup cs)"
  by pat_completeness auto

lemma env_match_drop_shorter:
  "env_match (drop 1 cs) = Some (v, d, r) \<Longrightarrow> length r < Suc (length cs)"
  using env_match_shorter [of "drop 1 cs" v d r] by simp

termination expandEnv
  by (relation "measure (\<lambda>(l, s). length s)") (auto simp: env_match_drop_shorter)

declare expandEnv.simps(2) [simp del]

section \<open>Defaults\<close>

definition setIfZero :: "string \<Rightarrow> string \<Rightarrow> string" where
  "setIfZero s v = (if s = '''' then v else s)"

definition setIfZeroD :: "duration \<Rightarrow> duration \<Rightarrow> duration" where
  "setIfZeroD d v = (if d = 0 then v else d)"

definition orZero :: "'a::zero \<Rightarrow> 'a \<Rightarrow> 'a" where
  "orZero n v = (if n = 0 then v else n)"

definition default_server :: "server_cfg \<Rightarrow> server_cfg" where
  "default_server s =
     s\<lparr>srv_Addr := setIfZero (srv_Addr s) '':8080'',
       srv_ReadTimeout := setIfZeroD (srv_ReadTimeout s) (30 * Second),
       srv_WriteTimeout := setIfZeroD (srv_WriteTimeout s) (10 * Minute),
       srv_ShutdownTimeout := setIfZeroD (srv_ShutdownTimeout s) (20 * Second),
       srv_MaxBodyBytes := orZero (srv_MaxBodyBytes s) (push_bit 20 4)\<rparr>"

definition default_provider :: "provider_cfg \<Rightarrow> provider_cfg" where
  "default_provider p = p\<lparr>pc_Timeout := setIfZeroD (pc_Timeout p) (60 * Second)\<rparr>"

definition default_resilience :: "resilience_cfg \<Rightarrow> resilience_cfg" where
  "default_resilience r =
     r\<lparr>re_MaxAttempts := orZero (re_MaxAttempts r) 3,
       re_BaseBackoff := setIfZeroD (re_BaseBackoff r) (200 * Millisecond),
       re_MaxBackoff := setIfZeroD (re_MaxBackoff r) (5 * Second),
       re_Breaker := (re_Breaker r)
         \<lparr>br_FailureThreshold := orZero (br_FailureThreshold (re_Breaker r)) 5,
          br_OpenDuration := setIfZeroD (br_OpenDuration (re_Breaker r)) (30 * Second),
          br_HalfOpenProbes := orZero (br_HalfOpenProbes (re_Breaker r)) 2\<rparr>\<rparr>"

definition default_cache :: "cache_cfg \<Rightarrow> cache_cfg" where
  "default_cache c =
     c\<lparr>cc_ExactTTL := setIfZeroD (cc_ExactTTL c) Hour,
       cc_MaxTemperature := orZero (cc_MaxTemperature c) (3 / 10),
       cc_Semantic := (cc_Semantic c)
         \<lparr>sem_Collection := setIfZero (sem_Collection (cc_Semantic c)) ''gatewayllm_semantic'',
          sem_Threshold := orZero (sem_Threshold (cc_Semantic c)) (95 / 100),
          sem_TTL := setIfZeroD (sem_TTL (cc_Semantic c)) (24 * Hour),
          sem_MaxTempDelta := orZero (sem_MaxTempDelta (cc_Semantic c)) (5 / 100),
          sem_VectorSize := orZero (sem_VectorSize (cc_Semantic c)) 384\<rparr>\<rparr>"

definition default_embed :: "embed_cfg \<Rightarrow> embed_cfg" where
  "default_embed e =
     e\<lparr>em_Kind := setIfZero (em_Kind e) ''sidecar'',
       em_Timeout := setIfZeroD (em_Timeout e) (10 * Second)\<rparr>"

definition default_ratelimit :: "ratelimit_cfg \<Rightarrow> ratelimit_cfg" where
  "default_ratelimit r =
     (let rpm = orZero (rl_DefaultRPM r) 60 in
      r\<lparr>rl_DefaultRPM := rpm, rl_Burst := orZero (rl_Burst r) rpm\<rparr>)"

definition default_meter :: "meter_cfg \<Rightarrow> meter_cfg" where
  "default_meter m =
     m\<lparr>mt_BufferSize := orZero (mt_BufferSize m) 4096,
       mt_FlushInterval := setIfZeroD (mt_FlushInterval m) (2 * Second),
       mt_BatchSize := orZero (mt_BatchSize m) 128\<rparr>"

definition default_obs :: "obs_cfg \<Rightarrow> obs_cfg" where
  "default_obs o' =
     o'\<lparr>ob_ServiceName := setIfZero (ob_ServiceName o') ''gatewayllm'',
       ob_MetricsPath := setIfZero (ob_MetricsPath o') ''/metrics'',
       ob_MetricsAddr := setIfZero (ob_MetricsAddr o') '':9090'',
       ob_LogLevel := setIfZero (ob_LogLevel o') ''info'',
       ob_SampleRatio := orZero (ob_SampleRatio o') 1\<rparr>"

definition default_alias :: "string \<times> alias_cfg \<Rightarrow> string \<times> alias_cfg" where
  "default_alias na =
     (if al_Strategy (snd na) = '''' then (fst na, (snd na)\<lparr>al_Strategy := ''priority''\<rparr>) else na)"

definition applyDefaults :: "config \<Rightarrow> config" where
  "applyDefaults c =
     c\<lparr>cf_Server := default_server (cf_Server c),
       cf_Providers := map default_provider (cf_Providers c),
       cf_Resilience := default_resilience (cf_Resilience c),
       cf_Cache := default_cache (cf_Cache c),
       cf_Embed := default_embed (cf_Embed c),
       cf_RateLimit := default_ratelimit (cf_RateLimit c),
       cf_Meter := default_meter (cf_Meter c),
       cf_Obs := default_obs (cf_Obs c),
       cf_Router := (cf_Router c)\<lparr>rc_Aliases := map default_alias (rc_Aliases (cf_Router c))\<rparr>\<rparr>"

lemmas default_defs =
  default_server_def default_provider_def default_resilience_def default_cache_def
  default_embed_def default_ratelimit_def default_meter_def default_obs_def default_alias_def
  setIfZero_def setIfZeroD_def orZero_def

section \<open>Validation\<close>

datatype problem =
    ProviderNameRequired nat
  | ProviderKindRequired string
  | DuplicateProvider string
  | APIKeyRequired string
  | NoEnabledProvider
  | NoAlias
  | NoTarget string
  | BadStrategy string string
  | UnknownProvider string nat string
  | TargetModelRequired string nat
  | ModelNotListed string nat string string
  | WeightNotPositive string nat
  | DefaultAliasUndefined string
  | RedisURLForCache
  | RedisURLForRateLimit
  | PostgresURLForMeter
  | SemanticNeedsCache
  | QdrantURLRequired
  | EmbedURLRequired
  | BadEmbedKind string
  | EmbedAPIKeyRequired
  | ThresholdOutOfRange
  | ThresholdTooLow
  | VectorSizeNotPositive
  | MaxAttemptsTooSmall
  | DefaultRPMNotPositive

text \<open>
  The loop over the providers: the problems found, and the map \<open>enabled\<close>, its latest write
  in front.
\<close>

fun check_providers ::
  "nat \<Rightarrow> provider_cfg list \<Rightarrow> (string \<times> provider_cfg) list
    \<Rightarrow> problem list \<times> (string \<times> provider_cfg) list" where
  "check_providers i [] enabled = ([], enabled)"
| "check_providers i (p # ps) enabled =
     (if pc_Name p = '''' then
        (let (errs, en) = check_providers (Suc i) ps enabled in (ProviderNameRequired i # errs, en))
      else
        (let e1 = (if pc_Kind p = '''' then [ProviderKindRequired (pc_Name p)] else []);
             e2 = (if map_of enabled (pc_Name p) \<noteq> None then [DuplicateProvider (pc_Name p)] else []);
             e3 = (if IsEnabled p \<and> pc_Kind p \<noteq> ''mock'' \<and> pc_APIKey p = ''''
                   then [APIKeyRequired (pc_Name p)] else []);
             enabled' = (if IsEnabled p then (pc_Name p, p) # enabled else enabled);
             (errs, en) = check_providers (Suc i) ps enabled'
         in (e1 @ e2 @ e3 @ errs, en)))"

definition check_target ::
  "(string \<times> provider_cfg) list \<Rightarrow> string \<Rightarrow> string \<Rightarrow> nat \<Rightarrow> target_cfg \<Rightarrow> problem list" where
  "check_target enabled name strategy i t =
     (case map_of enabled (tc_Provider t) of
        None \<Rightarrow> [UnknownProvider name i (tc_Provider t)]
      | Some p \<Rightarrow>
          if tc_Model t = '''' then [TargetModelRequired name i]
          else
            (if pc_Models p \<noteq> [] \<and> tc_Model t \<notin> set (pc_Models p)
             then [ModelNotListed name i (tc_Provider t) (tc_Model t)] else []) @
            (if strategy = ''weighted'' \<and> tc_Weight t \<le> 0
             then [WeightNotPositive name i] else []))"

fun check_targets ::
  "(string \<times> provider_cfg) list \<Rightarrow> string \<Rightarrow> string \<Rightarrow> nat \<Rightarrow> target_cfg list \<Rightarrow> problem list" where
  "check_targets enabled name strategy i [] = []"
| "check_targets enabled name strategy i (t # ts) =
     check_target enabled name strategy i t @ check_targets enabled name strategy (Suc i) ts"

definition check_alias :: "(string \<times> provider_cfg) list \<Rightarrow> string \<times> alias_cfg \<Rightarrow> problem list" where
  "check_alias enabled na =
     (let name = fst na; a = snd na in
      (if al_Targets a = [] then [NoTarget name] else []) @
      (if al_Strategy a \<noteq> ''priority'' \<and> al_Strategy a \<noteq> ''weighted''
       then [BadStrategy name (al_Strategy a)] else []) @
      check_targets enabled name (al_Strategy a) 0 (al_Targets a))"

definition check_stores :: "config \<Rightarrow> problem list" where
  "check_stores c =
     (if cc_Enabled (cf_Cache c) \<and> st_RedisURL (cf_Stores c) = '''' then [RedisURLForCache] else []) @
     (if rl_Enabled (cf_RateLimit c) \<and> st_RedisURL (cf_Stores c) = ''''
      then [RedisURLForRateLimit] else []) @
     (if mt_Enabled (cf_Meter c) \<and> st_PostgresURL (cf_Stores c) = ''''
      then [PostgresURLForMeter] else [])"

definition check_semantic :: "config \<Rightarrow> problem list" where
  "check_semantic c =
     (let sem = cc_Semantic (cf_Cache c); em = cf_Embed c in
      if \<not> sem_Enabled sem then []
      else
        (if \<not> cc_Enabled (cf_Cache c) then [SemanticNeedsCache] else []) @
        (if st_QdrantURL (cf_Stores c) = '''' then [QdrantURLRequired] else []) @
        (if em_BaseURL em = '''' then [EmbedURLRequired] else []) @
        (if em_Kind em \<noteq> ''sidecar'' \<and> em_Kind em \<noteq> ''api'' then [BadEmbedKind (em_Kind em)] else []) @
        (if em_Kind em = ''api'' \<and> em_APIKey em = '''' then [EmbedAPIKeyRequired] else []) @
        (if sem_Threshold sem \<le> 0 \<or> sem_Threshold sem > 1 then [ThresholdOutOfRange] else []) @
        (if sem_Threshold sem < 80 / 100 then [ThresholdTooLow] else []) @
        (if sem_VectorSize sem \<le> 0 then [VectorSizeNotPositive] else []))"

definition config_Validate :: "config \<Rightarrow> problem list" where
  "config_Validate c =
     (let (e1, enabled) = check_providers 0 (cf_Providers c) [];
          aliases = rc_Aliases (cf_Router c);
          dflt = rc_DefaultAlias (cf_Router c) in
      e1 @
      (if enabled = [] then [NoEnabledProvider] else []) @
      (if aliases = [] then [NoAlias] else []) @
      concat (map (check_alias enabled) aliases) @
      (if dflt \<noteq> '''' \<and> map_of aliases dflt = None then [DefaultAliasUndefined dflt] else []) @
      check_stores c @
      check_semantic c @
      (if re_MaxAttempts (cf_Resilience c) < 1 then [MaxAttemptsTooSmall] else []) @
      (if rl_Enabled (cf_RateLimit c) \<and> rl_DefaultRPM (cf_RateLimit c) \<le> 0
       then [DefaultRPMNotPositive] else []))"

text \<open>
  \<open>Load\<close>: read, interpolate, parse, default, validate. The YAML parser is the function
  \<open>parse\<close>.
\<close>

datatype load_error = ReadFailed | ParseFailed | Invalid "problem list"

definition Load ::
  "(string \<Rightarrow> config option) \<Rightarrow> (string \<Rightarrow> string option) \<Rightarrow> string option \<Rightarrow> load_error + config" where
  "Load parse lookup raw =
     (case raw of
        None \<Rightarrow> Inl ReadFailed
      | Some b \<Rightarrow>
          (case parse (expandEnv lookup b) of
             None \<Rightarrow> Inl ParseFailed
           | Some c \<Rightarrow>
               (let c' = applyDefaults c; errs = config_Validate c' in
                if errs \<noteq> [] then Inl (Invalid errs) else Inr c')))"

section \<open>Facts\<close>

text \<open>Interpolation leaves a text without a dollar sign alone, and replaces a match once.\<close>

lemma expandEnv_no_dollar: "CHR ''$'' \<notin> set s \<Longrightarrow> expandEnv lookup s = s"
  by (induction s) (auto simp: expandEnv.simps(2))

lemma expandEnv_match:
  assumes "env_match s = Some (var, dflt, r)"
  shows "expandEnv lookup (''${'' @ s) = env_value lookup var dflt @ expandEnv lookup r"
  using assms by (simp add: expandEnv.simps(2) HasPrefix_def)

lemma applyDefaults_idem_lemma:
  "default_server (default_server s) = default_server s"
  "default_provider (default_provider p) = default_provider p"
  "default_resilience (default_resilience r) = default_resilience r"
  "default_cache (default_cache c) = default_cache c"
  "default_embed (default_embed e) = default_embed e"
  "default_ratelimit (default_ratelimit l) = default_ratelimit l"
  "default_meter (default_meter m) = default_meter m"
  "default_obs (default_obs o') = default_obs o'"
  "default_alias (default_alias a) = default_alias a"
  by (simp_all add: default_defs duration_defs Let_def)

text \<open>The map \<open>enabled\<close> holds, for each name, the last enabled entry of the list.\<close>

lemma check_providers_enabled:
  "snd (check_providers i ps en) =
     rev (map (\<lambda>p. (pc_Name p, p)) (filter (\<lambda>p. IsEnabled p \<and> pc_Name p \<noteq> '''') ps)) @ en"
  by (induction ps arbitrary: i en) (simp_all add: Let_def split_beta)

lemma check_targets_Nil:
  "check_targets en name strategy i ts = [] \<longleftrightarrow>
     (\<forall>t \<in> set ts. \<exists>p. map_of en (tc_Provider t) = Some p \<and> tc_Model t \<noteq> '''' \<and>
        (pc_Models p = [] \<or> tc_Model t \<in> set (pc_Models p)) \<and>
        (strategy = ''weighted'' \<longrightarrow> 0 < tc_Weight t))"
  by (induction en name strategy i ts rule: check_targets.induct)
    (auto simp: check_target_def split: option.splits if_splits)

definition enabled_providers :: "config \<Rightarrow> (string \<times> provider_cfg) list" where
  "enabled_providers c = snd (check_providers 0 (cf_Providers c) [])"

text \<open>What a configuration that passes validation guarantees about its aliases\<close>

lemma config_Validate_alias:
  assumes "config_Validate c = []" and "(name, a) \<in> set (rc_Aliases (cf_Router c))"
  shows "al_Targets a \<noteq> []" and "al_Strategy a = ''priority'' \<or> al_Strategy a = ''weighted''"
    and "\<And>t. t \<in> set (al_Targets a) \<Longrightarrow> map_of (enabled_providers c) (tc_Provider t) \<noteq> None"
    and "\<And>t. t \<in> set (al_Targets a) \<Longrightarrow> al_Strategy a = ''weighted'' \<Longrightarrow> 0 < tc_Weight t"
proof -
  have "check_alias (enabled_providers c) (name, a) = []"
    using assms by (auto simp: config_Validate_def enabled_providers_def Let_def split: prod.splits)
  then show "al_Targets a \<noteq> []" "al_Strategy a = ''priority'' \<or> al_Strategy a = ''weighted''"
    "\<And>t. t \<in> set (al_Targets a) \<Longrightarrow> map_of (enabled_providers c) (tc_Provider t) \<noteq> None"
    "\<And>t. t \<in> set (al_Targets a) \<Longrightarrow> al_Strategy a = ''weighted'' \<Longrightarrow> 0 < tc_Weight t"
    by (auto simp: check_alias_def Let_def check_targets_Nil split: if_splits)
qed

lemma config_Validate_default_alias:
  assumes "config_Validate c = []" and "rc_DefaultAlias (cf_Router c) \<noteq> ''''"
  shows "map_of (rc_Aliases (cf_Router c)) (rc_DefaultAlias (cf_Router c)) \<noteq> None"
  using assms by (auto simp: config_Validate_def Let_def split: prod.splits if_splits)

lemma config_Validate_semantic:
  assumes "config_Validate c = []" and "sem_Enabled (cc_Semantic (cf_Cache c))"
  shows "cc_Enabled (cf_Cache c)" and "80 / 100 \<le> sem_Threshold (cc_Semantic (cf_Cache c))"
    and "sem_Threshold (cc_Semantic (cf_Cache c)) \<le> 1"
    and "0 < sem_VectorSize (cc_Semantic (cf_Cache c))"
    and "st_RedisURL (cf_Stores c) \<noteq> ''''" and "st_QdrantURL (cf_Stores c) \<noteq> ''''"
  using assms
  by (auto simp: config_Validate_def check_semantic_def check_stores_def Let_def
      split: prod.splits if_splits)


text \<open>The zero value of the document, and a configuration with one mock provider behind two aliases.\<close>

definition zero_config :: config where
  "zero_config =
     \<lparr>cf_Server = \<lparr>srv_Addr = '''', srv_ReadTimeout = 0, srv_WriteTimeout = 0, srv_ShutdownTimeout = 0,
        srv_MaxBodyBytes = 0\<rparr>,
      cf_Providers = [], cf_Router = \<lparr>rc_Aliases = [], rc_DefaultAlias = ''''\<rparr>,
      cf_Cache = \<lparr>cc_Enabled = False, cc_ExactTTL = 0,
        cc_Semantic = \<lparr>sem_Enabled = False, sem_Collection = '''', sem_Threshold = 0, sem_TTL = 0,
          sem_MaxTempDelta = 0, sem_VectorSize = 0\<rparr>, cc_MaxTemperature = 0\<rparr>,
      cf_Embed = \<lparr>em_Kind = '''', em_BaseURL = '''', em_Model = '''', em_APIKey = '''', em_Timeout = 0\<rparr>,
      cf_Resilience = \<lparr>re_MaxAttempts = 0, re_BaseBackoff = 0, re_MaxBackoff = 0,
        re_Breaker = \<lparr>br_Enabled = False, br_FailureThreshold = 0, br_OpenDuration = 0,
          br_HalfOpenProbes = 0\<rparr>\<rparr>,
      cf_RateLimit = \<lparr>rl_Enabled = False, rl_DefaultRPM = 0, rl_Burst = 0\<rparr>,
      cf_Stores = \<lparr>st_RedisURL = '''', st_QdrantURL = '''', st_QdrantAPIKey = '''', st_PostgresURL = ''''\<rparr>,
      cf_Meter = \<lparr>mt_Enabled = False, mt_BufferSize = 0, mt_FlushInterval = 0, mt_BatchSize = 0\<rparr>,
      cf_Obs = \<lparr>ob_ServiceName = '''', ob_OTLPEndpoint = '''', ob_SampleRatio = 0, ob_MetricsPath = '''',
        ob_MetricsAddr = '''', ob_LogLevel = ''''\<rparr>,
      cf_Pricing = []\<rparr>"

definition mock_config :: config where
  "mock_config = applyDefaults (zero_config
     \<lparr>cf_Providers := [\<lparr>pc_Name = ''dev'', pc_Kind = ''mock'', pc_BaseURL = '''', pc_APIKey = '''',
        pc_Timeout = 0, pc_Models = [''m1'', ''m2''], pc_Enabled = None\<rparr>],
      cf_Router := \<lparr>rc_Aliases =
         [(''fast'', \<lparr>al_Strategy = '''', al_Targets = [\<lparr>tc_Provider = ''dev'', tc_Model = ''m1'', tc_Weight = 0\<rparr>,
              \<lparr>tc_Provider = ''dev'', tc_Model = ''m2'', tc_Weight = 0\<rparr>]\<rparr>),
          (''mixed'', \<lparr>al_Strategy = ''weighted'',
              al_Targets = [\<lparr>tc_Provider = ''dev'', tc_Model = ''m1'', tc_Weight = 3\<rparr>]\<rparr>)],
        rc_DefaultAlias = ''''\<rparr>\<rparr>)"

lemma mock_config_valid: "config_Validate mock_config = []"
  by (simp add: mock_config_def zero_config_def applyDefaults_def default_defs config_Validate_def
      IsEnabled_def check_alias_def check_target_def check_stores_def check_semantic_def Let_def
      duration_defs)

text \<open>
  C34. A loaded configuration is complete and sound: what \<open>Load\<close> returns is the parsed
  document after defaulting, defaulting it again changes nothing, it retries at least once, every alias has
  a known strategy and at least one target, every target names a configured, enabled provider
  and has a positive weight where weights count, the default alias exists, and a semantic cache has
  an exact cache to sit on, a threshold in \<open>[0.8, 1]\<close> and a positive vector size.
\<close>

theorem loaded_config_sound:
  assumes "Load parse lookup (Some raw) = Inr c"
  shows "(\<exists>c0. parse (expandEnv lookup raw) = Some c0 \<and> c = applyDefaults c0) \<and> applyDefaults c = c \<and>
    1 \<le> re_MaxAttempts (cf_Resilience c) \<and>
    (\<forall>(name, a) \<in> set (rc_Aliases (cf_Router c)).
       al_Targets a \<noteq> [] \<and> al_Strategy a \<in> {''priority'', ''weighted''} \<and>
       (\<forall>t \<in> set (al_Targets a).
          (\<exists>p \<in> set (cf_Providers c). pc_Name p = tc_Provider t \<and> IsEnabled p) \<and>
          (al_Strategy a = ''weighted'' \<longrightarrow> 0 < tc_Weight t))) \<and>
    (rc_DefaultAlias (cf_Router c) \<noteq> '''' \<longrightarrow>
       map_of (rc_Aliases (cf_Router c)) (rc_DefaultAlias (cf_Router c)) \<noteq> None) \<and>
    (sem_Enabled (cc_Semantic (cf_Cache c)) \<longrightarrow>
       cc_Enabled (cf_Cache c) \<and> 8 / 10 \<le> sem_Threshold (cc_Semantic (cf_Cache c)) \<and>
       sem_Threshold (cc_Semantic (cf_Cache c)) \<le> 1 \<and> 0 < sem_VectorSize (cc_Semantic (cf_Cache c)))"
proof -
  obtain c0 where c0: "parse (expandEnv lookup raw) = Some c0" "c = applyDefaults c0"
    and v: "config_Validate c = []"
    using assms by (auto simp: Load_def Let_def split: option.splits if_splits)
  have idem: "applyDefaults c = c"
    unfolding c0(2) by (simp add: applyDefaults_def applyDefaults_idem_lemma o_def)
  have ma: "1 \<le> re_MaxAttempts (cf_Resilience c)"
    using v by (auto simp: config_Validate_def Let_def split: prod.splits if_splits)
  have en: "map_of (enabled_providers c) n \<noteq> None \<Longrightarrow>
      \<exists>p \<in> set (cf_Providers c). pc_Name p = n \<and> IsEnabled p" for n
    by (auto simp: enabled_providers_def check_providers_enabled dest!: map_of_SomeD)
  have "al_Targets a \<noteq> [] \<and> al_Strategy a \<in> {''priority'', ''weighted''} \<and>
       (\<forall>t \<in> set (al_Targets a).
          (\<exists>p \<in> set (cf_Providers c). pc_Name p = tc_Provider t \<and> IsEnabled p) \<and>
          (al_Strategy a = ''weighted'' \<longrightarrow> 0 < tc_Weight t))"
    if m: "(name, a) \<in> set (rc_Aliases (cf_Router c))" for name a
    using config_Validate_alias [OF v m] en by blast
  then show ?thesis
    using c0 idem ma config_Validate_default_alias [OF v] config_Validate_semantic [OF v] by auto
qed

theorem loaded_config_sound_witness:
  "applyDefaults mock_config = mock_config \<and> 1 \<le> re_MaxAttempts (cf_Resilience mock_config)"
proof -
  have idem: "applyDefaults mock_config = mock_config"
    by (simp add: mock_config_def applyDefaults_def applyDefaults_idem_lemma o_def)
  have "Load (\<lambda>s. Some mock_config) (\<lambda>v. None) (Some ''doc'') = Inr mock_config"
    by (simp add: Load_def Let_def idem mock_config_valid)
  from loaded_config_sound [OF this] show ?thesis by simp
qed

text \<open>
  Interpolation is a single pass: text with no dollar sign is left alone; \<open>${VAR}\<close> and
  \<open>${VAR:-default}\<close> are replaced by the variable's value, or by the default (the empty text without
  one) when the variable is unset or empty; and what is substituted is not expanded again: the
  scan goes on behind the closing brace.
\<close>

theorem expandEnv_single_pass:
  assumes "CHR ''$'' \<notin> set pre" "var \<noteq> ''''" "list_all ident_char var" "ident_start (hd var)"
    and "CHR ''}'' \<notin> set d"
  shows "expandEnv lookup (pre @ ''${'' @ var @ ''}'' @ post)
       = pre @ (case lookup var of Some v \<Rightarrow> v | None \<Rightarrow> '''') @ expandEnv lookup post
    \<and> expandEnv lookup (pre @ ''${'' @ var @ '':-'' @ d @ ''}'' @ post)
       = pre @ (case lookup var of Some v \<Rightarrow> if v = '''' then d else v | None \<Rightarrow> d) @ expandEnv lookup post"
proof -
  have skip: "expandEnv lookup (pre @ s) = pre @ expandEnv lookup s" for s
    using assms(1) by (induction pre) (auto simp: expandEnv.simps(2))
  have tw: "takeWhile ident_char (var @ c # s) = var" "dropWhile ident_char (var @ c # s) = c # s"
    if "\<not> ident_char c" for c s
    using assms(3) that by (auto simp: list_all_iff takeWhile_append dropWhile_append)
  have stop: "\<not> ident_char CHR ''}''" "\<not> ident_char CHR '':''"
    by (simp_all add: ident_char_def ident_start_def is_digit_def Let_def)
  have dw: "takeWhile (\<lambda>x. x \<noteq> CHR ''}'') (d @ CHR ''}'' # post) = d"
    "dropWhile (\<lambda>x. x \<noteq> CHR ''}'') (d @ CHR ''}'' # post) = CHR ''}'' # post"
    using assms(5) by (auto simp: takeWhile_append dropWhile_append)
  have "env_match (var @ CHR ''}'' # post) = Some (var, None, post)"
    using assms(2,4) by (simp add: env_match_def tw stop Let_def)
  from expandEnv_match [OF this] have one: "expandEnv lookup (''${'' @ var @ CHR ''}'' # post)
      = env_value lookup var None @ expandEnv lookup post" .
  have "env_match (var @ CHR '':'' # CHR ''-'' # d @ CHR ''}'' # post) = Some (var, Some d, post)"
    using assms(2,4) by (simp add: env_match_def tw stop Let_def dw HasPrefix_def)
  from expandEnv_match [OF this] have two: "expandEnv lookup (''${'' @ var @ CHR '':'' # CHR ''-'' # d @ CHR ''}'' # post)
      = env_value lookup var (Some d) @ expandEnv lookup post" .
  show ?thesis
    using one two by (auto simp: skip env_value_def split: option.splits)
qed

theorem expandEnv_single_pass_witness:
  "expandEnv (\<lambda>v. if v = ''HOME'' then Some ''${X}'' else None) (''a='' @ ''${'' @ ''HOME'' @ '':-'' @ ''z'' @ ''}'' @ '';'')
   = ''a=${X};''"
proof -
  have "list_all ident_char ''HOME''" "ident_start (hd ''HOME'')"
    by (simp_all add: ident_char_def ident_start_def Let_def)
  from expandEnv_single_pass [OF _ _ this, of "''a=''" "''z''"
      "\<lambda>v. if v = ''HOME'' then Some ''${X}'' else None" "'';''"]
  show ?thesis by (simp add: expandEnv_no_dollar)
qed

end
