(* ===== verification/ProviderErrors.thy ===== *)
theory ProviderErrors
  imports GoStrings
begin

text \<open>
  The error half of \<open>internal/provider/provider.go\<close>: failure kinds, the classified provider
  error, and what the rest of the gateway asks of one (retry, fail over, HTTP status). Go's
  \<open>error\<close> values are the datatype \<open>go_error\<close>: a classified provider error, one of the
  program's sentinels, or a \<open>fmt.Errorf\<close> value with or without a wrapped cause; \<open>errors.As\<close>
  and \<open>errors.Is\<close> walk the chain of causes.
\<close>

section \<open>Kinds and error values\<close>

datatype kind =
    KindInvalidRequest
  | KindAuth
  | KindRateLimit
  | KindTimeout
  | KindUnavailable
  | KindContentFilter
  | KindContextLength
  | KindInternal

fun kind_string :: "kind \<Rightarrow> string" where
  "kind_string KindInvalidRequest = ''invalid_request''"
| "kind_string KindAuth = ''auth''"
| "kind_string KindRateLimit = ''rate_limit''"
| "kind_string KindTimeout = ''timeout''"
| "kind_string KindUnavailable = ''unavailable''"
| "kind_string KindContentFilter = ''content_filter''"
| "kind_string KindContextLength = ''context_length''"
| "kind_string KindInternal = ''internal''"

datatype sentinel =
    ErrUnsupported
  | ErrNoTargets
  | ErrUnauthorized
  | ErrEmbedderUnavailable
  | ContextCanceled
  | ContextDeadlineExceeded
  | RedisNil
  | PgxErrNoRows

fun sentinel_text :: "sentinel \<Rightarrow> string" where
  "sentinel_text ErrUnsupported = ''provider: capability not supported''"
| "sentinel_text ErrNoTargets = ''resilience: no targets to try''"
| "sentinel_text ErrUnauthorized = ''unauthorized''"
| "sentinel_text ErrEmbedderUnavailable = ''embed: embedder unavailable''"
| "sentinel_text ContextCanceled = ''context canceled''"
| "sentinel_text ContextDeadlineExceeded = ''context deadline exceeded''"
| "sentinel_text RedisNil = ''redis: nil''"
| "sentinel_text PgxErrNoRows = ''no rows in result set''"

datatype go_error =
    ProviderError prov_error
  | Sentinel sentinel
  | ErrorText string "go_error option"
and prov_error =
    PError (pe_Kind: kind) (pe_Provider: string) (pe_Status: int) (pe_Message: string)
      (pe_RetryAfter: duration) (pe_Err: "go_error option")

text \<open>\<open>(*Error).Error\<close> and the text of the other error values\<close>

definition prov_error_text :: "prov_error \<Rightarrow> string" where
  "prov_error_text e =
     (if pe_Provider e = '''' then kind_string (pe_Kind e) @ '': '' @ pe_Message e
      else pe_Provider e @ '': '' @ kind_string (pe_Kind e) @ '': '' @ pe_Message e)"

fun error_text :: "go_error \<Rightarrow> string" where
  "error_text (ProviderError e) = prov_error_text e"
| "error_text (Sentinel s) = sentinel_text s"
| "error_text (ErrorText m _) = m"

text \<open>\<open>AsError\<close>: the first \<open>*Error\<close> of the chain, and \<open>errors.Is\<close> on a sentinel\<close>

fun AsError :: "go_error \<Rightarrow> prov_error option" where
  "AsError (ProviderError e) = Some e"
| "AsError (Sentinel _) = None"
| "AsError (ErrorText _ None) = None"
| "AsError (ErrorText _ (Some e)) = AsError e"

fun errors_Is :: "go_error \<Rightarrow> sentinel \<Rightarrow> bool" where
  "errors_Is (ProviderError (PError k p s m r None)) t = False"
| "errors_Is (ProviderError (PError k p s m r (Some e))) t = errors_Is e t"
| "errors_Is (Sentinel s) t = (s = t)"
| "errors_Is (ErrorText _ None) t = False"
| "errors_Is (ErrorText _ (Some e)) t = errors_Is e t"

definition Errorf :: "kind \<Rightarrow> string \<Rightarrow> string \<Rightarrow> prov_error" where
  "Errorf k prov msg = PError k prov 0 msg 0 None"

definition Wrap :: "kind \<Rightarrow> string \<Rightarrow> go_error \<Rightarrow> string \<Rightarrow> prov_error" where
  "Wrap k prov err msg = PError k prov 0 msg 0 (Some err)"

section \<open>What a kind decides\<close>

fun retryable_kind :: "kind \<Rightarrow> bool" where
  "retryable_kind KindRateLimit = True"
| "retryable_kind KindTimeout = True"
| "retryable_kind KindUnavailable = True"
| "retryable_kind _ = False"

definition Retryable :: "prov_error \<Rightarrow> bool" where
  "Retryable e = retryable_kind (pe_Kind e)"

fun failoverable_kind :: "kind \<Rightarrow> bool" where
  "failoverable_kind KindInvalidRequest = False"
| "failoverable_kind KindContentFilter = False"
| "failoverable_kind _ = True"

definition Failoverable :: "prov_error \<Rightarrow> bool" where
  "Failoverable e = failoverable_kind (pe_Kind e)"

fun kind_http_status :: "kind \<Rightarrow> int" where
  "kind_http_status KindInvalidRequest = 400"
| "kind_http_status KindContextLength = 400"
| "kind_http_status KindContentFilter = 400"
| "kind_http_status KindAuth = 502"
| "kind_http_status KindRateLimit = 429"
| "kind_http_status KindTimeout = 504"
| "kind_http_status KindUnavailable = 502"
| "kind_http_status KindInternal = 500"

definition HTTPStatus :: "prov_error \<Rightarrow> int" where
  "HTTPStatus e = kind_http_status (pe_Kind e)"

definition ClassifyStatus :: "int \<Rightarrow> kind" where
  "ClassifyStatus status =
     (if status = 401 \<or> status = 403 then KindAuth
      else if status = 408 \<or> status = 504 then KindTimeout
      else if status = 429 then KindRateLimit
      else if status \<ge> 500 then KindUnavailable
      else if status \<ge> 400 then KindInvalidRequest
      else KindInternal)"

text \<open>
  \<open>ParseRetryAfter\<close>, on the value of the header (empty when absent). \<open>time.ParseDuration\<close> and
  \<open>http.ParseTime\<close> are the functions \<open>parse_duration\<close> and \<open>parse_time\<close>; \<open>now\<close> is what
  \<open>time.Until\<close> subtracts.
\<close>

definition ParseRetryAfter ::
  "(string \<Rightarrow> duration option) \<Rightarrow> (string \<Rightarrow> instant option) \<Rightarrow> instant \<Rightarrow> string \<Rightarrow> duration" where
  "ParseRetryAfter parse_duration parse_time now v =
     (if v = '''' then 0
      else case parse_duration (v @ ''s'') of
        Some secs \<Rightarrow>
          if secs > 0 then secs
          else (case parse_time v of
                  Some t \<Rightarrow> if t - now > 0 then t - now else 0
                | None \<Rightarrow> 0)
      | None \<Rightarrow>
          (case parse_time v of
             Some t \<Rightarrow> if t - now > 0 then t - now else 0
           | None \<Rightarrow> 0))"

section \<open>Facts\<close>

lemma retryable_imp_failoverable: "Retryable e \<Longrightarrow> Failoverable e"
  by (cases "pe_Kind e") (auto simp: Retryable_def Failoverable_def)

lemma HTTPStatus_is_error: "400 \<le> HTTPStatus e \<and> HTTPStatus e < 600"
  by (cases "pe_Kind e") (auto simp: HTTPStatus_def)

lemma ParseRetryAfter_nonneg: "0 \<le> ParseRetryAfter pd pt now v"
  by (auto simp: ParseRetryAfter_def split: option.splits)

lemma pe_Errorf [simp]:
  "pe_Kind (Errorf k p m) = k" "pe_Provider (Errorf k p m) = p" "pe_Message (Errorf k p m) = m"
  "pe_RetryAfter (Errorf k p m) = 0" "pe_Status (Errorf k p m) = 0" "pe_Err (Errorf k p m) = None"
  by (simp_all add: Errorf_def)

lemma pe_Wrap [simp]:
  "pe_Kind (Wrap k p e m) = k" "pe_Provider (Wrap k p e m) = p" "pe_Message (Wrap k p e m) = m"
  "pe_RetryAfter (Wrap k p e m) = 0" "pe_Status (Wrap k p e m) = 0" "pe_Err (Wrap k p e m) = Some e"
  by (simp_all add: Wrap_def)

text \<open>An upstream 4xx never becomes a kind the executor retries, 408 and 429 excepted.\<close>

lemma ClassifyStatus_client_error:
  "400 \<le> st \<Longrightarrow> st < 500 \<Longrightarrow> st \<noteq> 408 \<Longrightarrow> st \<noteq> 429 \<Longrightarrow> \<not> retryable_kind (ClassifyStatus st)"
  by (auto simp: ClassifyStatus_def)

lemma ClassifyStatus_server_error: "500 \<le> st \<Longrightarrow> retryable_kind (ClassifyStatus st)"
  by (auto simp: ClassifyStatus_def)

end
