(* ===== verification/ProviderTypes.thy ===== *)
theory ProviderTypes
  imports ProviderErrors
begin

text \<open>
  \<open>internal/provider/types.go\<close>: the OpenAI-shaped messages, requests, responses and stream
  chunks the gateway passes around, with their accessors and the request validation. A JSON
  value is the datatype \<open>json\<close>; numbers are the float64 that \<open>encoding/json\<close> produces.
\<close>

datatype json =
    JNull
  | JBool bool
  | JNum float64
  | JString string
  | JArray "json list"
  | JObject "(string \<times> json) list"

section \<open>Requests and responses\<close>

record message =
  msg_Role :: string
  msg_Content :: string
  msg_Name :: string

record chat_request =
  cr_Model :: string
  cr_Messages :: "message list"
  cr_Temperature :: "float64 option"
  cr_TopP :: "float64 option"
  cr_MaxTokens :: "int option"
  cr_Stream :: bool
  cr_Stop :: "string list"
  cr_User :: string
  cr_N :: "int option"
  cr_ResolvedModel :: string

definition Temp :: "chat_request \<Rightarrow> float64" where
  "Temp r = (case cr_Temperature r of None \<Rightarrow> 1 | Some t \<Rightarrow> t)"

definition MaxTok :: "chat_request \<Rightarrow> int" where
  "MaxTok r = (case cr_MaxTokens r of None \<Rightarrow> 0 | Some n \<Rightarrow> n)"

text \<open>The role check of \<open>Validate\<close>: the index of the first message without a role.\<close>

fun first_without_role :: "nat \<Rightarrow> message list \<Rightarrow> nat option" where
  "first_without_role i [] = None"
| "first_without_role i (m # ms) =
     (if msg_Role m = '''' then Some i else first_without_role (Suc i) ms)"

definition Validate :: "chat_request \<Rightarrow> string option" where
  "Validate r =
     (if cr_Model r = '''' then Some ''model is required''
      else if cr_Messages r = [] then Some ''messages must contain at least one message''
      else case first_without_role 0 (cr_Messages r) of
        Some i \<Rightarrow> Some (''messages['' @ Itoa (int i) @ ''].role is required'')
      | None \<Rightarrow>
          if (case cr_Temperature r of Some t \<Rightarrow> t < 0 \<or> t > 2 | None \<Rightarrow> False)
          then Some ''temperature must be between 0 and 2''
          else if (case cr_MaxTokens r of Some n \<Rightarrow> n < 1 | None \<Rightarrow> False)
          then Some ''max_tokens must be positive''
          else if (case cr_N r of Some n \<Rightarrow> n \<noteq> 1 | None \<Rightarrow> False)
          then Some ''n must be 1: the gateway does not support multiple choices''
          else None)"

record usage =
  us_PromptTokens :: int
  us_CompletionTokens :: int
  us_TotalTokens :: int

definition zero_usage :: usage where
  "zero_usage = \<lparr>us_PromptTokens = 0, us_CompletionTokens = 0, us_TotalTokens = 0\<rparr>"

record choice =
  ch_Index :: int
  ch_Message :: message
  ch_FinishReason :: string

record chat_response =
  resp_ID :: string
  resp_Object :: string
  resp_Created :: instant
  resp_Model :: string
  resp_Choices :: "choice list"
  resp_Usage :: usage

definition Text :: "chat_response \<Rightarrow> string" where
  "Text r = (case resp_Choices r of [] \<Rightarrow> '''' | c # _ \<Rightarrow> msg_Content (ch_Message c))"

section \<open>Stream chunks\<close>

record stream_delta =
  sd_Role :: string
  sd_Content :: string

record stream_choice =
  sc_Index :: int
  sc_Delta :: stream_delta
  sc_FinishReason :: "string option"

record chat_chunk =
  ck_ID :: string
  ck_Object :: string
  ck_Created :: instant
  ck_Model :: string
  ck_Choices :: "stream_choice list"
  ck_Usage :: "usage option"

section \<open>Embeddings\<close>

record embedding_request =
  er_Model :: string
  er_Input :: "string list"
  er_User :: string
  er_Dims :: "int option"

record embedding_data =
  ed_Object :: string
  ed_Index :: int
  ed_Embedding :: "float64 list"

record embedding_response =
  ers_Object :: string
  ers_Data :: "embedding_data list"
  ers_Model :: string
  ers_Usage :: usage

text \<open>
  \<open>json.Unmarshal\<close> into a \<open>string\<close>: a JSON string, or null, which leaves the zero value.
  Into a \<open>[]string\<close>: an array of such values, or null.
\<close>

fun unmarshal_string :: "json \<Rightarrow> string option" where
  "unmarshal_string (JString s) = Some s"
| "unmarshal_string JNull = Some ''''"
| "unmarshal_string _ = None"

fun unmarshal_strings :: "json \<Rightarrow> string list option" where
  "unmarshal_strings (JArray xs) = those (map unmarshal_string xs)"
| "unmarshal_strings JNull = Some []"
| "unmarshal_strings _ = None"

text \<open>\<open>(*Input).UnmarshalJSON\<close> and \<open>(Input).MarshalJSON\<close>\<close>

definition input_UnmarshalJSON :: "json \<Rightarrow> string + string list" where
  "input_UnmarshalJSON b =
     (case unmarshal_string b of
        Some one \<Rightarrow> Inr [one]
      | None \<Rightarrow>
          (case unmarshal_strings b of
             Some many \<Rightarrow> Inr many
           | None \<Rightarrow> Inl ''input must be a string or an array of strings''))"

definition input_MarshalJSON :: "string list \<Rightarrow> json" where
  "input_MarshalJSON xs =
     (case xs of [x] \<Rightarrow> JString x | _ \<Rightarrow> JArray (map JString xs))"

section \<open>Facts\<close>

lemma those_map_JString [simp]: "those (map (unmarshal_string \<circ> JString) xs) = Some xs"
  by (induction xs) auto

lemma first_without_role_None:
  "first_without_role i ms = None \<longleftrightarrow> (\<forall>m \<in> set ms. msg_Role m \<noteq> '''')"
  by (induction i ms rule: first_without_role.induct) auto

lemma Validate_Temp:
  assumes "Validate r = None"
  shows "0 \<le> Temp r" and "Temp r \<le> 2"
  using assms by (auto simp: Validate_def Temp_def split: if_splits option.splits)

lemma Validate_MaxTok: "Validate r = None \<Longrightarrow> 0 \<le> MaxTok r"
  by (auto simp: Validate_def MaxTok_def split: if_splits option.splits)

text \<open>Exactly what an accepted request satisfies\<close>

lemma Validate_None_iff:
  "Validate r = None \<longleftrightarrow>
     cr_Model r \<noteq> '''' \<and> cr_Messages r \<noteq> [] \<and> (\<forall>m \<in> set (cr_Messages r). msg_Role m \<noteq> '''') \<and>
     (\<forall>t. cr_Temperature r = Some t \<longrightarrow> 0 \<le> t \<and> t \<le> 2) \<and>
     (\<forall>n. cr_MaxTokens r = Some n \<longrightarrow> 1 \<le> n) \<and>
     (\<forall>n. cr_N r = Some n \<longrightarrow> n = 1)"
  unfolding Validate_def first_without_role_None [of 0, symmetric]
  by (cases "first_without_role 0 (cr_Messages r)"; cases "cr_Temperature r";
      cases "cr_MaxTokens r"; cases "cr_N r") (auto simp: not_less)

end
