(* ===== verification/Registry.thy ===== *)
theory Registry
  imports Config ProviderTypes "HOL-Library.AList"
begin

text \<open>
  The adapters' constructors (\<open>openai.go\<close>, \<open>groq.go\<close>, \<open>gemini.go\<close>, \<open>mock.go\<close>) and
  \<open>internal/provider/registry.go\<close>: the live providers built from the configuration, by name.
  The HTTP client of an adapter has no state the gateway reads and is left out.
\<close>

section \<open>Adapters\<close>

record options =
  op_Name :: string
  op_BaseURL :: string
  op_APIKey :: string
  op_Models :: "string list"
  op_Timeout :: duration

record adapter =
  ad_name :: string
  ad_baseURL :: string
  ad_apiKey :: string
  ad_models :: "string list"
  ad_timeout :: duration

record mock =
  mk_ProviderName :: string
  mk_Reply :: string
  mk_Latency :: duration
  mk_FailWith :: "go_error option"
  mk_FailFirst :: int
  mk_AvailableModels :: "string list"
  mk_VectorSize :: int
  mk_calls :: int

datatype provider =
    OpenAI adapter
  | Groq adapter
  | Gemini adapter
  | Mock mock

definition orDefault :: "string \<Rightarrow> string \<Rightarrow> string" where
  "orDefault v d = (if v = '''' then d else v)"

definition new_adapter :: "string \<Rightarrow> string \<Rightarrow> options \<Rightarrow> adapter" where
  "new_adapter default_name default_url o' =
     \<lparr>ad_name = orDefault (op_Name o') default_name,
      ad_baseURL = TrimRight (if op_BaseURL o' = '''' then default_url else op_BaseURL o') (CHR ''/''),
      ad_apiKey = op_APIKey o',
      ad_models = op_Models o',
      ad_timeout = op_Timeout o'\<rparr>"

definition NewOpenAI :: "options \<Rightarrow> provider" where
  "NewOpenAI o' = OpenAI (new_adapter ''openai'' ''https://api.openai.com/v1'' o')"

definition NewGroq :: "options \<Rightarrow> provider" where
  "NewGroq o' = Groq (new_adapter ''groq'' ''https://api.groq.com/openai/v1'' o')"

definition NewGemini :: "options \<Rightarrow> provider" where
  "NewGemini o' = Gemini (new_adapter ''gemini'' ''https://generativelanguage.googleapis.com/v1beta'' o')"

definition mock_of :: "string \<Rightarrow> string list \<Rightarrow> int \<Rightarrow> mock" where
  "mock_of name models vsize =
     \<lparr>mk_ProviderName = name, mk_Reply = '''', mk_Latency = 0, mk_FailWith = None,
      mk_FailFirst = 0, mk_AvailableModels = models, mk_VectorSize = vsize, mk_calls = 0\<rparr>"

text \<open>\<open>Name()\<close> and \<open>Models()\<close>\<close>

fun provider_Name :: "provider \<Rightarrow> string" where
  "provider_Name (OpenAI a) = ad_name a"
| "provider_Name (Groq a) = ad_name a"
| "provider_Name (Gemini a) = ad_name a"
| "provider_Name (Mock m) = (if mk_ProviderName m = '''' then ''mock'' else mk_ProviderName m)"

fun provider_Models :: "provider \<Rightarrow> string list" where
  "provider_Models (OpenAI a) = ad_models a"
| "provider_Models (Groq a) = ad_models a"
| "provider_Models (Gemini a) = ad_models a"
| "provider_Models (Mock m) = mk_AvailableModels m"

section \<open>The registry\<close>

type_synonym registry = "(string \<times> provider) list"

definition new_provider :: "provider_cfg \<Rightarrow> string + provider" where
  "new_provider c =
     (let opts = \<lparr>op_Name = pc_Name c, op_BaseURL = pc_BaseURL c, op_APIKey = pc_APIKey c,
                  op_Models = pc_Models c, op_Timeout = pc_Timeout c\<rparr> in
      if pc_Kind c = ''openai'' then Inr (NewOpenAI opts)
      else if pc_Kind c = ''groq'' then Inr (NewGroq opts)
      else if pc_Kind c = ''gemini'' then Inr (NewGemini opts)
      else if pc_Kind c = ''mock'' then Inr (Mock (mock_of (pc_Name c) (pc_Models c) 384))
      else Inl (''provider '' @ pc_Name c @ '': unknown kind '' @ pc_Kind c))"

fun Build_loop :: "registry \<Rightarrow> provider_cfg list \<Rightarrow> string + registry" where
  "Build_loop r [] = Inr r"
| "Build_loop r (c # cs) =
     (if \<not> IsEnabled c then Build_loop r cs
      else case new_provider c of
        Inl e \<Rightarrow> Inl e
      | Inr p \<Rightarrow> Build_loop (AList.update (pc_Name c) p r) cs)"

definition Build :: "provider_cfg list \<Rightarrow> string + registry" where
  "Build cfgs = Build_loop [] cfgs"

definition registry_Get :: "registry \<Rightarrow> string \<Rightarrow> provider option" where
  "registry_Get r name = map_of r name"

definition registry_Names :: "registry \<Rightarrow> string list" where
  "registry_Names r = map fst r"

definition registry_Len :: "registry \<Rightarrow> nat" where
  "registry_Len r = length r"

definition NewRegistry :: "provider list \<Rightarrow> registry" where
  "NewRegistry ps = foldl (\<lambda>r p. AList.update (provider_Name p) p r) [] ps"

section \<open>Facts\<close>

lemma new_provider_name:
  "new_provider c = Inr p \<Longrightarrow> pc_Name c \<noteq> '''' \<Longrightarrow> provider_Name p = pc_Name c"
  by (auto simp: new_provider_def NewOpenAI_def NewGroq_def NewGemini_def new_adapter_def
      orDefault_def mock_of_def Let_def split: if_splits)

lemma Build_loop_dom:
  "Build_loop r cs = Inr r' \<Longrightarrow>
     map_of r' n \<noteq> None \<longleftrightarrow> map_of r n \<noteq> None \<or> (\<exists>c \<in> set cs. IsEnabled c \<and> pc_Name c = n)"
  by (induction r cs rule: Build_loop.induct)
    (auto simp: AList.update_conv' split: if_splits sum.splits)

lemma Build_Get_iff:
  "Build cs = Inr r \<Longrightarrow>
     registry_Get r n \<noteq> None \<longleftrightarrow> (\<exists>c \<in> set cs. IsEnabled c \<and> pc_Name c = n)"
  using Build_loop_dom [of "[]" cs r n] by (simp add: Build_def registry_Get_def)

lemma Build_loop_names:
  "Build_loop r cs = Inr r' \<Longrightarrow>
     \<forall>n p. map_of r n = Some p \<longrightarrow> n \<noteq> '''' \<longrightarrow> provider_Name p = n \<Longrightarrow>
     map_of r' n = Some p \<Longrightarrow> n \<noteq> '''' \<Longrightarrow> provider_Name p = n"
proof (induction r cs arbitrary: n p rule: Build_loop.induct)
  case (1 r)
  then show ?case by simp
next
  case (2 r c cs)
  show ?case
  proof (cases "IsEnabled c")
    case False
    with 2 show ?thesis by simp
  next
    case True
    then obtain q where q: "new_provider c = Inr q"
      using "2.prems"(1) by (cases "new_provider c") auto
    have "\<forall>n p. map_of (AList.update (pc_Name c) q r) n = Some p \<longrightarrow> n \<noteq> '''' \<longrightarrow> provider_Name p = n"
      using "2.prems"(2) new_provider_name [OF q] by (auto simp: AList.update_conv')
    with 2 q True show ?thesis by simp
  qed
qed

text \<open>A registered provider answers to the name it is registered under.\<close>

lemma Build_Get_name:
  "Build cs = Inr r \<Longrightarrow> registry_Get r n = Some p \<Longrightarrow> n \<noteq> '''' \<Longrightarrow> provider_Name p = n"
  unfolding Build_def registry_Get_def by (rule Build_loop_names) auto

lemma Build_loop_distinct:
  "Build_loop r cs = Inr r' \<Longrightarrow> distinct (map fst r) \<Longrightarrow> distinct (map fst r')"
  by (induction r cs rule: Build_loop.induct)
    (auto simp: AList.distinct_update split: if_splits sum.splits)

end
