(* ===== verification/Router.thy ===== *)
theory Router
  imports Registry "HOL-Library.List_Lexorder" "HOL-Library.Char_ord"
begin

text \<open>
  \<open>internal/router/router.go\<close>: a model alias becomes an ordered list of targets, the order
  in which the executor tries them. The random source of the weighted strategy is the
  function \<open>intn\<close> on a generator state; \<open>rand.Intn n\<close> yields a value in \<open>[0, n)\<close>.
\<close>

section \<open>State\<close>

record target =
  tg_Provider :: provider
  tg_Model :: string
  tg_Alias :: string

record resolved_alias =
  ra_name :: string
  ra_strategy :: string
  ra_targets :: "target list"
  ra_weights :: "int list"
  ra_totalWeight :: int

record router =
  ro_aliases :: "(string \<times> resolved_alias) list"
  ro_defaultAlias :: string

section \<open>Construction\<close>

text \<open>The loop over an alias's targets: the targets and the sum of their weights\<close>

fun resolve_targets ::
  "registry \<Rightarrow> string \<Rightarrow> target_cfg list \<Rightarrow> string + (target list \<times> int)" where
  "resolve_targets reg name [] = Inr ([], 0)"
| "resolve_targets reg name (t # ts) =
     (case registry_Get reg (tc_Provider t) of
        None \<Rightarrow>
          Inl (''router: alias '' @ name @ '' references unregistered provider '' @ tc_Provider t)
      | Some p \<Rightarrow>
          (case resolve_targets reg name ts of
             Inl e \<Rightarrow> Inl e
           | Inr (tgs, tot) \<Rightarrow>
               Inr (\<lparr>tg_Provider = p, tg_Model = tc_Model t, tg_Alias = name\<rparr> # tgs,
                    tc_Weight t + tot)))"

definition resolve_alias :: "registry \<Rightarrow> string \<Rightarrow> alias_cfg \<Rightarrow> string + resolved_alias" where
  "resolve_alias reg name a =
     (case resolve_targets reg name (al_Targets a) of
        Inl e \<Rightarrow> Inl e
      | Inr (tgs, tot) \<Rightarrow>
          Inr \<lparr>ra_name = name, ra_strategy = al_Strategy a, ra_targets = tgs,
               ra_weights = (if al_Strategy a = ''weighted'' then map tc_Weight (al_Targets a) else []),
               ra_totalWeight = tot\<rparr>)"

fun resolve_aliases ::
  "registry \<Rightarrow> (string \<times> alias_cfg) list \<Rightarrow> string + (string \<times> resolved_alias) list" where
  "resolve_aliases reg [] = Inr []"
| "resolve_aliases reg ((name, a) # as) =
     (case resolve_alias reg name a of
        Inl e \<Rightarrow> Inl e
      | Inr ra \<Rightarrow>
          (case resolve_aliases reg as of
             Inl e \<Rightarrow> Inl e
           | Inr ras \<Rightarrow> Inr ((name, ra) # ras)))"

definition router_New :: "router_cfg \<Rightarrow> registry \<Rightarrow> string + router" where
  "router_New cfg reg =
     (case resolve_aliases reg (rc_Aliases cfg) of
        Inl e \<Rightarrow> Inl e
      | Inr as \<Rightarrow> Inr \<lparr>ro_aliases = as, ro_defaultAlias = rc_DefaultAlias cfg\<rparr>)"

section \<open>Weighted selection\<close>

text \<open>
  The inner loop of \<open>weightedOrder\<close>: the first index whose weight exceeds what is left of
  \<open>pick\<close>; 0 when the loop ends without a \<open>break\<close>.
\<close>

fun pick_index_from :: "nat \<Rightarrow> int \<Rightarrow> int list \<Rightarrow> nat" where
  "pick_index_from i pick [] = 0"
| "pick_index_from i pick (w # ws) =
     (if pick < w then i else pick_index_from (Suc i) (pick - w) ws)"

definition pick_index :: "int \<Rightarrow> int list \<Rightarrow> nat" where
  "pick_index pick ws = pick_index_from 0 pick ws"

text \<open>
  The outer loop; \<open>None\<close> is the panic of an index out of range, which an alias that
  \<open>router_New\<close> built never meets.
\<close>

function weighted_loop ::
  "(int \<Rightarrow> 'g \<Rightarrow> int \<times> 'g) \<Rightarrow> 'g \<Rightarrow> target list \<Rightarrow> int list \<Rightarrow> int \<Rightarrow> target list
    \<Rightarrow> (target list \<times> 'g) option" where
  "weighted_loop intn g remaining weights tot out =
     (if remaining = [] then Some (out, g)
      else if tot \<le> 0 then Some (out @ remaining, g)
      else
        (let (pick, g') = intn tot g; idx = pick_index pick weights in
         if idx < length remaining \<and> idx < length weights
         then weighted_loop intn g' (remove_at idx remaining) (remove_at idx weights)
                (tot - weights ! idx) (out @ [remaining ! idx])
         else None))"
  by pat_completeness auto

termination weighted_loop
  by (relation "measure (\<lambda>(intn, g, remaining, ws, tot, out). length remaining)") auto

declare weighted_loop.simps [simp del]

definition weightedOrder ::
  "(int \<Rightarrow> 'g \<Rightarrow> int \<times> 'g) \<Rightarrow> resolved_alias \<Rightarrow> 'g \<Rightarrow> (target list \<times> 'g) option" where
  "weightedOrder intn a g =
     weighted_loop intn g (ra_targets a) (ra_weights a) (ra_totalWeight a) []"

section \<open>Routing\<close>

datatype route_error =
    NotConfigured string
  | DefaultNotConfigured string
  | AliasWithoutTargets string
  | RoutePanic

definition ordered_targets ::
  "(int \<Rightarrow> 'g \<Rightarrow> int \<times> 'g) \<Rightarrow> resolved_alias \<Rightarrow> 'g \<Rightarrow> (route_error + target list) \<times> 'g" where
  "ordered_targets intn a g =
     (if ra_targets a = [] then (Inl (AliasWithoutTargets (ra_name a)), g)
      else if ra_strategy a = ''weighted'' then
        (case weightedOrder intn a g of
           None \<Rightarrow> (Inl RoutePanic, g)
         | Some (ts, g') \<Rightarrow> (Inr ts, g'))
      else (Inr (ra_targets a), g))"

definition Route ::
  "(int \<Rightarrow> 'g \<Rightarrow> int \<times> 'g) \<Rightarrow> router \<Rightarrow> string \<Rightarrow> 'g \<Rightarrow> (route_error + target list) \<times> 'g" where
  "Route intn r model g =
     (case map_of (ro_aliases r) model of
        Some a \<Rightarrow> ordered_targets intn a g
      | None \<Rightarrow>
          if ro_defaultAlias r = '''' then (Inl (NotConfigured model), g)
          else
            (case map_of (ro_aliases r) (ro_defaultAlias r) of
               None \<Rightarrow> (Inl (DefaultNotConfigured (ro_defaultAlias r)), g)
             | Some a \<Rightarrow> ordered_targets intn a g))"

definition Aliases :: "router \<Rightarrow> string list" where
  "Aliases r = sort (map fst (ro_aliases r))"

definition Has :: "router \<Rightarrow> string \<Rightarrow> bool" where
  "Has r model \<longleftrightarrow> map_of (ro_aliases r) model \<noteq> None"

section \<open>Facts: construction\<close>

lemma resolve_targets_spec:
  "resolve_targets reg name ts = Inr (tgs, tot) \<Longrightarrow>
     tot = sum_list (map tc_Weight ts) \<and> map tg_Model tgs = map tc_Model ts \<and>
     map (Some \<circ> tg_Provider) tgs = map (registry_Get reg \<circ> tc_Provider) ts \<and>
     (\<forall>tg \<in> set tgs. tg_Alias tg = name)"
  by (induction reg name ts arbitrary: tgs tot rule: resolve_targets.induct)
    (auto split: option.splits sum.splits)

lemma resolve_targets_length:
  "resolve_targets reg name ts = Inr (tgs, tot) \<Longrightarrow> length tgs = length ts"
  by (drule resolve_targets_spec) (metis length_map)

lemma resolve_targets_total:
  "(\<And>t. t \<in> set ts \<Longrightarrow> registry_Get reg (tc_Provider t) \<noteq> None) \<Longrightarrow>
     \<exists>r. resolve_targets reg name ts = Inr r"
proof (induction reg name ts rule: resolve_targets.induct)
  case (1 reg name)
  show ?case by simp
next
  case (2 reg name t ts)
  then obtain p where p: "registry_Get reg (tc_Provider t) = Some p" by fastforce
  moreover obtain tgs tot where "resolve_targets reg name ts = Inr (tgs, tot)"
    using 2 p by fastforce
  ultimately show ?case by simp
qed

text \<open>What \<open>router_New\<close> establishes for an alias whose configuration passed validation\<close>

definition alias_wf :: "string \<Rightarrow> resolved_alias \<Rightarrow> bool" where
  "alias_wf name a \<longleftrightarrow>
     ra_name a = name \<and> ra_targets a \<noteq> [] \<and> (\<forall>t \<in> set (ra_targets a). tg_Alias t = name) \<and>
     (ra_strategy a = ''weighted'' \<longrightarrow>
        length (ra_weights a) = length (ra_targets a) \<and>
        ra_totalWeight a = sum_list (ra_weights a) \<and> (\<forall>w \<in> set (ra_weights a). 0 < w))"

definition router_wf :: "router \<Rightarrow> bool" where
  "router_wf r \<longleftrightarrow>
     (\<forall>name a. map_of (ro_aliases r) name = Some a \<longrightarrow> alias_wf name a) \<and>
     (ro_defaultAlias r \<noteq> '''' \<longrightarrow> map_of (ro_aliases r) (ro_defaultAlias r) \<noteq> None)"

lemma resolve_alias_wf:
  assumes "resolve_alias reg name a = Inr ra" and "al_Targets a \<noteq> []"
    and "\<And>t. t \<in> set (al_Targets a) \<Longrightarrow> al_Strategy a = ''weighted'' \<Longrightarrow> 0 < tc_Weight t"
  shows "alias_wf name ra"
proof -
  obtain tgs tot where r: "resolve_targets reg name (al_Targets a) = Inr (tgs, tot)"
    using assms(1) by (auto simp: resolve_alias_def split: sum.splits)
  have "length tgs = length (al_Targets a)" using r by (rule resolve_targets_length)
  then show ?thesis
    using assms r resolve_targets_spec [OF r] by (auto simp: resolve_alias_def alias_wf_def)
qed

lemma resolve_aliases_wf:
  assumes "\<And>name a. (name, a) \<in> set as \<Longrightarrow> al_Targets a \<noteq> []"
    and "\<And>name a t. (name, a) \<in> set as \<Longrightarrow> t \<in> set (al_Targets a) \<Longrightarrow>
           registry_Get reg (tc_Provider t) \<noteq> None"
    and "\<And>name a t. (name, a) \<in> set as \<Longrightarrow> t \<in> set (al_Targets a) \<Longrightarrow>
           al_Strategy a = ''weighted'' \<Longrightarrow> 0 < tc_Weight t"
  shows "\<exists>ras. resolve_aliases reg as = Inr ras \<and> map fst ras = map fst as \<and>
           (\<forall>(name, ra) \<in> set ras. alias_wf name ra)"
  using assms
proof (induction as)
  case Nil
  show ?case by simp
next
  case (Cons na as)
  obtain name a where na: "na = (name, a)" by force
  obtain rt where "resolve_targets reg name (al_Targets a) = Inr rt"
    using resolve_targets_total [of "al_Targets a" reg name] Cons.prems(2) [of name a] na by auto
  then obtain ra where ra: "resolve_alias reg name a = Inr ra"
    by (cases rt) (auto simp: resolve_alias_def)
  have "alias_wf name ra"
    using ra by (rule resolve_alias_wf) (use Cons.prems(1,3) [of name a] na in auto)
  moreover have "\<exists>ras. resolve_aliases reg as = Inr ras \<and> map fst ras = map fst as \<and>
      (\<forall>(name, ra) \<in> set ras. alias_wf name ra)"
    by (rule Cons.IH) (meson Cons.prems list.set_intros(2))+
  ultimately show ?case using ra na by auto
qed

lemma registry_has_enabled:
  assumes "Build (cf_Providers c) = Inr reg" and "map_of (enabled_providers c) n \<noteq> None"
  shows "registry_Get reg n \<noteq> None"
proof -
  have "n \<in> fst ` set (enabled_providers c)"
    using assms(2) by (auto simp: map_of_eq_None_iff)
  then have "\<exists>p \<in> set (cf_Providers c). IsEnabled p \<and> pc_Name p = n"
    by (auto simp: enabled_providers_def check_providers_enabled)
  then show ?thesis using Build_Get_iff [OF assms(1)] by blast
qed

lemma router_New_wf:
  assumes "config_Validate c = []" and "Build (cf_Providers c) = Inr reg"
  shows "\<exists>r. router_New (cf_Router c) reg = Inr r \<and> router_wf r \<and>
           map fst (ro_aliases r) = map fst (rc_Aliases (cf_Router c)) \<and>
           ro_defaultAlias r = rc_DefaultAlias (cf_Router c)"
proof -
  note val = config_Validate_alias [OF assms(1)]
  obtain ras where r: "resolve_aliases reg (rc_Aliases (cf_Router c)) = Inr ras"
    and names: "map fst ras = map fst (rc_Aliases (cf_Router c))"
    and wf: "\<forall>(name, ra) \<in> set ras. alias_wf name ra"
    using resolve_aliases_wf [of "rc_Aliases (cf_Router c)" reg] val registry_has_enabled [OF assms(2)]
    by blast
  have dflt: "map_of ras (rc_DefaultAlias (cf_Router c)) \<noteq> None"
    if "rc_DefaultAlias (cf_Router c) \<noteq> ''''"
    using config_Validate_default_alias [OF assms(1) that] names
    by (metis map_of_eq_None_iff list.set_map)
  show ?thesis
    using r names wf dflt by (auto simp: router_New_def router_wf_def dest!: map_of_SomeD)
qed

section \<open>Facts: weighted selection\<close>

lemma pick_index_from_iff:
  assumes "\<forall>w \<in> set ws. 0 \<le> w" and "j < length ws"
    and "sum_list (take j ws) \<le> pick" and "pick < sum_list (take (Suc j) ws)"
  shows "pick_index_from i pick ws = i + j"
  using assms
proof (induction i pick ws arbitrary: j rule: pick_index_from.induct)
  case (1 i pick)
  then show ?case by simp
next
  case (2 i pick w ws)
  show ?case
  proof (cases j)
    case 0
    with 2 show ?thesis by simp
  next
    case (Suc k)
    have "0 \<le> sum_list (take k ws)"
      using "2.prems"(1) by (intro sum_list_nonneg) (auto dest: in_set_takeD)
    then have "\<not> pick < w" using "2.prems"(3) Suc by simp
    then show ?thesis using 2 Suc by simp
  qed
qed

lemma pick_index_from_lt: "ws \<noteq> [] \<Longrightarrow> pick_index_from i pick ws < i + length ws"
proof (induction i pick ws rule: pick_index_from.induct)
  case (1 i pick)
  then show ?case by simp
next
  case (2 i pick w ws)
  then show ?case by (cases "ws = []") auto
qed

lemma pick_index_lt: "ws \<noteq> [] \<Longrightarrow> pick_index pick ws < length ws"
  using pick_index_from_lt [of ws 0 pick] by (simp add: pick_index_def)

lemma pick_exists:
  fixes ws :: "int list"
  assumes "0 \<le> pick" and "pick < sum_list ws"
  shows "\<exists>j < length ws. sum_list (take j ws) \<le> pick \<and> pick < sum_list (take (Suc j) ws)"
  using assms
proof (induction ws arbitrary: pick)
  case Nil
  then show ?case by simp
next
  case (Cons w ws)
  show ?case
  proof (cases "pick < w")
    case True
    then show ?thesis using Cons.prems by (intro exI [of _ 0]) simp
  next
    case False
    then obtain j where "j < length ws" "sum_list (take j ws) \<le> pick - w"
      "pick - w < sum_list (take (Suc j) ws)"
      using Cons.IH [of "pick - w"] Cons.prems by auto
    then show ?thesis by (intro exI [of _ "Suc j"]) auto
  qed
qed

lemma pick_index_interval:
  fixes ws :: "int list"
  assumes nonneg: "\<forall>w \<in> set ws. 0 \<le> w" and j: "j < length ws"
  shows "{pick. 0 \<le> pick \<and> pick < sum_list ws \<and> pick_index pick ws = j} =
           {sum_list (take j ws) ..< sum_list (take j ws) + ws ! j}"
proof -
  have step: "sum_list (take (Suc j) ws) = sum_list (take j ws) + ws ! j"
    using j by (simp add: take_Suc_conv_app_nth)
  have lo: "0 \<le> sum_list (take j ws)"
    using nonneg by (intro sum_list_nonneg) (auto dest: in_set_takeD)
  have "sum_list ws = sum_list (take (Suc j) ws) + sum_list (drop (Suc j) ws)"
    by (metis append_take_drop_id sum_list_append)
  moreover have "0 \<le> sum_list (drop (Suc j) ws)"
    using nonneg by (intro sum_list_nonneg) (auto dest: in_set_dropD)
  ultimately have hi: "sum_list (take (Suc j) ws) \<le> sum_list ws" by simp
  show ?thesis
  proof (intro set_eqI iffI)
    fix pick
    assume "pick \<in> {pick. 0 \<le> pick \<and> pick < sum_list ws \<and> pick_index pick ws = j}"
    then have p: "0 \<le> pick" "pick < sum_list ws" "pick_index pick ws = j" by auto
    obtain k where k: "k < length ws" "sum_list (take k ws) \<le> pick" "pick < sum_list (take (Suc k) ws)"
      using pick_exists [OF p(1,2)] by blast
    then have "pick_index pick ws = k"
      using pick_index_from_iff [OF nonneg, of k pick 0] by (simp add: pick_index_def)
    with p(3) k step show "pick \<in> {sum_list (take j ws) ..< sum_list (take j ws) + ws ! j}"
      by simp
  next
    fix pick
    assume "pick \<in> {sum_list (take j ws) ..< sum_list (take j ws) + ws ! j}"
    then show "pick \<in> {pick. 0 \<le> pick \<and> pick < sum_list ws \<and> pick_index pick ws = j}"
      using pick_index_from_iff [OF nonneg j, of pick 0] step lo hi by (simp add: pick_index_def)
  qed
qed

text \<open>Whatever the random source yields, the weighted order is a permutation of the targets.\<close>

lemma weighted_loop_mset:
  "length remaining = length weights \<Longrightarrow>
     \<exists>ts g'. weighted_loop intn g remaining weights tot out = Some (ts, g') \<and>
             mset ts = mset out + mset remaining"
proof (induction intn g remaining weights tot out rule: weighted_loop.induct)
  case (1 intn g remaining weights tot out)
  show ?case
  proof (cases "remaining = [] \<or> tot \<le> 0")
    case True
    then show ?thesis by (subst weighted_loop.simps) auto
  next
    case False
    obtain pick g' where pg: "intn tot g = (pick, g')" by force
    define idx where "idx = pick_index pick weights"
    have idx: "idx < length remaining" "idx < length weights"
      using False "1.prems" pick_index_lt [of weights pick] by (cases weights; simp add: idx_def)+
    have "\<exists>ts g''. weighted_loop intn g' (remove_at idx remaining) (remove_at idx weights)
        (tot - weights ! idx) (out @ [remaining ! idx]) = Some (ts, g'') \<and>
        mset ts = mset (out @ [remaining ! idx]) + mset (remove_at idx remaining)"
      using "1.IH" [OF _ _ pg [symmetric] refl idx_def] False idx "1.prems" by auto
    then show ?thesis
      using False pg idx mset_remove_at [OF idx(1)]
      by (subst weighted_loop.simps) (auto simp: Let_def idx_def [symmetric])
  qed
qed

lemma weighted_loop_out:
  "weighted_loop intn g remaining weights tot out = Some (ts, g') \<Longrightarrow> \<exists>us. ts = out @ us"
proof (induction intn g remaining weights tot out rule: weighted_loop.induct)
  case (1 intn g remaining weights tot out)
  obtain pick g1 where pg: "intn tot g = (pick, g1)" by force
  show ?case
    using "1.prems" "1.IH" [OF _ _ pg [symmetric] refl refl] pg
    by (subst (asm) weighted_loop.simps) (fastforce simp: Let_def split: if_splits)
qed

lemma ordered_targets_mset:
  assumes "alias_wf name a"
  shows "\<exists>ts g'. ordered_targets intn a g = (Inr ts, g') \<and> mset ts = mset (ra_targets a)"
proof (cases "ra_strategy a = ''weighted''")
  case True
  then have "length (ra_targets a) = length (ra_weights a)"
    using assms by (simp add: alias_wf_def)
  then obtain ts g' where "weightedOrder intn a g = Some (ts, g')" "mset ts = mset (ra_targets a)"
    unfolding weightedOrder_def
    using weighted_loop_mset [of "ra_targets a" "ra_weights a" intn g "ra_totalWeight a" "[]"] by auto
  then show ?thesis using True assms by (auto simp: ordered_targets_def alias_wf_def)
next
  case False
  then show ?thesis using assms by (auto simp: ordered_targets_def alias_wf_def)
qed

lemma map_of_resolved: "router_wf r \<Longrightarrow> map_of (ro_aliases r) m = Some a \<Longrightarrow> alias_wf m a"
  by (simp add: router_wf_def)


lemma weightedOrder_hd:
  assumes "alias_wf name a" and "ra_strategy a = ''weighted''"
    and "weightedOrder intn a g = Some (ts, g')"
  shows "hd ts = ra_targets a ! pick_index (fst (intn (ra_totalWeight a) g)) (ra_weights a)"
proof -
  have wf: "ra_targets a \<noteq> []" "length (ra_weights a) = length (ra_targets a)"
    "ra_totalWeight a = sum_list (ra_weights a)" "\<forall>w \<in> set (ra_weights a). 0 < w"
    using assms(1,2) by (auto simp: alias_wf_def)
  then have ne: "ra_weights a \<noteq> []" by auto
  then obtain w ws where w: "ra_weights a = w # ws" by (cases "ra_weights a") auto
  have "0 \<le> sum_list ws" using wf(4) w by (intro sum_list_nonneg) (auto intro: less_imp_le)
  then have pos: "\<not> ra_totalWeight a \<le> 0" using wf(3,4) w by simp
  obtain pick g1 where pg: "intn (ra_totalWeight a) g = (pick, g1)" by force
  have idx: "pick_index pick (ra_weights a) < length (ra_targets a)"
    using pick_index_lt [OF ne, of pick] wf(2) by simp
  have "weighted_loop intn g1 (remove_at (pick_index pick (ra_weights a)) (ra_targets a))
      (remove_at (pick_index pick (ra_weights a)) (ra_weights a))
      (ra_totalWeight a - ra_weights a ! pick_index pick (ra_weights a))
      ([] @ [ra_targets a ! pick_index pick (ra_weights a)]) = Some (ts, g')"
    using assms(3) pos pg idx wf(1,2)
    by (subst (asm) weightedOrder_def, subst (asm) weighted_loop.simps) (simp add: Let_def)
  then obtain us where "ts = ([] @ [ra_targets a ! pick_index pick (ra_weights a)]) @ us"
    by (blast dest: weighted_loop_out)
  then show ?thesis using pg by simp
qed

section \<open>Properties\<close>

text \<open>
  C32. Weighted routing is proportional: of the values the random source can draw for the
  first pick of a weighted alias, exactly as many make a target the primary as that target's
  configured weight.
\<close>

theorem weighted_share:
  assumes "alias_wf name a" and "ra_strategy a = ''weighted''"
    and "distinct (ra_targets a)" and "j < length (ra_targets a)"
  shows "card {p. 0 \<le> p \<and> p < ra_totalWeight a \<and>
           (\<exists>ts g'. weightedOrder (\<lambda>n g. (p, g)) a () = Some (ts, g') \<and> hd ts = ra_targets a ! j)}
         = nat (ra_weights a ! j)"
proof -
  have wf: "ra_targets a \<noteq> []" "length (ra_targets a) = length (ra_weights a)"
    "ra_totalWeight a = sum_list (ra_weights a)" "\<forall>w \<in> set (ra_weights a). 0 \<le> w"
    using assms(1,2) by (auto simp: alias_wf_def intro: less_imp_le)
  then have ne: "ra_weights a \<noteq> []" by auto
  have eq: "(\<exists>ts g'. weightedOrder (\<lambda>n g. (p, g)) a () = Some (ts, g') \<and> hd ts = ra_targets a ! j)
      \<longleftrightarrow> pick_index p (ra_weights a) = j" for p
  proof -
    obtain ts g' where ts: "weightedOrder (\<lambda>n g. (p, g)) a () = Some (ts, g')"
      unfolding weightedOrder_def
      using weighted_loop_mset [OF wf(2), of "\<lambda>n g. (p, g)" "()" "ra_totalWeight a" "[]"] by auto
    have "hd ts = ra_targets a ! pick_index p (ra_weights a)"
      using weightedOrder_hd [OF assms(1,2) ts] by simp
    then show ?thesis
      using ts nth_eq_iff_index_eq [OF assms(3)] assms(4) pick_index_lt [OF ne, of p] wf(2) by auto
  qed
  have "card {p. 0 \<le> p \<and> p < sum_list (ra_weights a) \<and> pick_index p (ra_weights a) = j}
      = nat (ra_weights a ! j)"
    using pick_index_interval [OF wf(4), of j] assms(4) wf(2) by simp
  then show ?thesis by (simp only: eq wf(3))
qed

definition example_mock :: "string \<Rightarrow> provider" where
  "example_mock n = Mock (mock_of n [] 384)"

definition example_alias :: resolved_alias where
  "example_alias =
     \<lparr>ra_name = ''balanced'', ra_strategy = ''weighted'',
      ra_targets = [\<lparr>tg_Provider = example_mock ''groq'', tg_Model = ''llama'', tg_Alias = ''balanced''\<rparr>,
                    \<lparr>tg_Provider = example_mock ''openai'', tg_Model = ''mini'', tg_Alias = ''balanced''\<rparr>],
      ra_weights = [80, 20], ra_totalWeight = 100\<rparr>"

theorem weighted_share_witness:
  "card {p. 0 \<le> p \<and> p < ra_totalWeight example_alias \<and>
           (\<exists>ts g'. weightedOrder (\<lambda>n g. (p, g)) example_alias () = Some (ts, g') \<and>
              hd ts = ra_targets example_alias ! 1)} = 20"
proof -
  have "alias_wf ''balanced'' example_alias" "ra_strategy example_alias = ''weighted''"
    "distinct (ra_targets example_alias)" "1 < length (ra_targets example_alias)"
    by (simp_all add: alias_wf_def example_alias_def)
  from weighted_share [OF this] show ?thesis by (simp add: example_alias_def)
qed

text \<open>
  Weighted routing still fails over: whatever the random source yields, the weighted
  order of a well-formed alias never panics and lists every one of its targets exactly once.
\<close>

theorem weighted_order_permutes:
  assumes "alias_wf name a" and "ra_strategy a = ''weighted''"
  shows "\<exists>ts g'. weightedOrder intn a g = Some (ts, g') \<and> mset ts = mset (ra_targets a)"
proof -
  have "length (ra_targets a) = length (ra_weights a)"
    using assms by (simp add: alias_wf_def)
  then show ?thesis
    using weighted_loop_mset [of "ra_targets a" "ra_weights a" intn g "ra_totalWeight a" "[]"]
    by (auto simp: weightedOrder_def)
qed

theorem weighted_order_permutes_witness:
  "\<exists>ts g'. weightedOrder (\<lambda>n g. (g, n)) example_alias 85 = Some (ts, g') \<and>
     mset ts = mset (ra_targets example_alias)"
  by (rule weighted_order_permutes [of "''balanced''"]) (simp_all add: alias_wf_def example_alias_def)

text \<open>The names an alias's targets are routed under, against the configuration\<close>

definition route_names :: "target list \<Rightarrow> (string \<times> string) list" where
  "route_names ts = map (\<lambda>t. (provider_Name (tg_Provider t), tg_Model t)) ts"

definition cfg_names :: "target_cfg list \<Rightarrow> (string \<times> string) list" where
  "cfg_names ts = map (\<lambda>t. (tc_Provider t, tc_Model t)) ts"

lemma resolve_targets_names:
  "resolve_targets reg name ts = Inr (tgs, tot) \<Longrightarrow>
     (\<And>t p. t \<in> set ts \<Longrightarrow> registry_Get reg (tc_Provider t) = Some p \<Longrightarrow>
        provider_Name p = tc_Provider t) \<Longrightarrow>
     route_names tgs = cfg_names ts"
  by (induction reg name ts arbitrary: tgs tot rule: resolve_targets.induct)
    (auto simp: route_names_def cfg_names_def split: option.splits sum.splits)

lemma resolve_aliases_lookup:
  "resolve_aliases reg as = Inr ras \<Longrightarrow> map_of ras n = Some ra \<Longrightarrow>
     \<exists>a. map_of as n = Some a \<and> resolve_alias reg n a = Inr ra"
  by (induction reg as arbitrary: ras rule: resolve_aliases.induct)
    (auto split: sum.splits if_splits)

lemma enabled_provider_named:
  "map_of (enabled_providers c) n \<noteq> None \<Longrightarrow> n \<noteq> ''''"
  by (auto simp: enabled_providers_def check_providers_enabled dest!: map_of_SomeD)

lemma router_alias_names:
  assumes "config_Validate c = []" and "Build (cf_Providers c) = Inr reg"
    and "router_New (cf_Router c) reg = Inr r" and "map_of (ro_aliases r) n = Some ra"
  shows "\<exists>a. map_of (rc_Aliases (cf_Router c)) n = Some a \<and> ra_strategy ra = al_Strategy a \<and>
           route_names (ra_targets ra) = cfg_names (al_Targets a)"
proof -
  have "resolve_aliases reg (rc_Aliases (cf_Router c)) = Inr (ro_aliases r)"
    using assms(3) by (auto simp: router_New_def split: sum.splits)
  then obtain a where a: "map_of (rc_Aliases (cf_Router c)) n = Some a" "resolve_alias reg n a = Inr ra"
    using resolve_aliases_lookup assms(4) by blast
  obtain tgs tot where t: "resolve_targets reg n (al_Targets a) = Inr (tgs, tot)"
    "ra_targets ra = tgs" "ra_strategy ra = al_Strategy a"
    using a(2) by (auto simp: resolve_alias_def split: sum.splits)
  have "route_names tgs = cfg_names (al_Targets a)"
  proof (rule resolve_targets_names [OF t(1)])
    fix t p
    assume "t \<in> set (al_Targets a)" and p: "registry_Get reg (tc_Provider t) = Some p"
    then have "tc_Provider t \<noteq> ''''"
      using config_Validate_alias(3) [OF assms(1) map_of_SomeD [OF a(1)]] enabled_provider_named by blast
    then show "provider_Name p = tc_Provider t"
      using Build_Get_name [OF assms(2) p] by simp
  qed
  with a t show ?thesis by auto
qed

text \<open>
  C31. A configuration that passes \<open>Validate\<close> routes: once its providers are built, the router
  construction succeeds, and every model name that is an alias, or falls back on a configured
  default alias, yields a non-empty target list that is a permutation of the alias's configured
  targets, in configuration order under the priority strategy. Any other model name is reported
  as not configured.
\<close>

theorem valid_config_routes:
  assumes "config_Validate c = []" and "Build (cf_Providers c) = Inr reg"
  shows "\<exists>r. router_New (cf_Router c) reg = Inr r \<and>
    (\<forall>model. let alias = (if Has r model then model else rc_DefaultAlias (cf_Router c)) in
       if Has r model \<or> rc_DefaultAlias (cf_Router c) \<noteq> ''''
       then \<exists>a ts g'. map_of (rc_Aliases (cf_Router c)) alias = Some a \<and>
              Route intn r model g = (Inr ts, g') \<and> ts \<noteq> [] \<and>
              mset (route_names ts) = mset (cfg_names (al_Targets a)) \<and>
              (al_Strategy a = ''priority'' \<longrightarrow> route_names ts = cfg_names (al_Targets a))
       else Route intn r model g = (Inl (NotConfigured model), g))"
proof -
  obtain r where r: "router_New (cf_Router c) reg = Inr r" and wf: "router_wf r"
    and dflt: "ro_defaultAlias r = rc_DefaultAlias (cf_Router c)"
    using router_New_wf [OF assms] by blast
  have alias_ok: "\<exists>a ts g'. map_of (rc_Aliases (cf_Router c)) n = Some a \<and>
      ordered_targets intn ra g = (Inr ts, g') \<and> ts \<noteq> [] \<and>
      mset (route_names ts) = mset (cfg_names (al_Targets a)) \<and>
      (al_Strategy a = ''priority'' \<longrightarrow> route_names ts = cfg_names (al_Targets a))"
    if ra: "map_of (ro_aliases r) n = Some ra" for n ra
  proof -
    obtain a where a: "map_of (rc_Aliases (cf_Router c)) n = Some a" "ra_strategy ra = al_Strategy a"
      "route_names (ra_targets ra) = cfg_names (al_Targets a)"
      using router_alias_names [OF assms r ra] by blast
    have awf: "alias_wf n ra" using wf ra by (rule map_of_resolved)
    obtain ts g' where ts: "ordered_targets intn ra g = (Inr ts, g')" "mset ts = mset (ra_targets ra)"
      using ordered_targets_mset [OF awf, of intn g] by auto
    have "mset (route_names ts) = mset (cfg_names (al_Targets a))"
      by (metis a(3) mset_map route_names_def ts(2))
    moreover have "ts \<noteq> []" using ts(2) awf by (auto simp: alias_wf_def)
    moreover have "ts = ra_targets ra" if "al_Strategy a = ''priority''"
      using ts(1) a(2) that awf by (simp add: ordered_targets_def alias_wf_def)
    ultimately show ?thesis using a ts by auto
  qed
  have "let alias = (if Has r model then model else rc_DefaultAlias (cf_Router c)) in
       if Has r model \<or> rc_DefaultAlias (cf_Router c) \<noteq> ''''
       then \<exists>a ts g'. map_of (rc_Aliases (cf_Router c)) alias = Some a \<and>
              Route intn r model g = (Inr ts, g') \<and> ts \<noteq> [] \<and>
              mset (route_names ts) = mset (cfg_names (al_Targets a)) \<and>
              (al_Strategy a = ''priority'' \<longrightarrow> route_names ts = cfg_names (al_Targets a))
       else Route intn r model g = (Inl (NotConfigured model), g)" for model
  proof (cases "map_of (ro_aliases r) model")
    case (Some ra)
    then show ?thesis using alias_ok [OF Some] by (simp add: Has_def Route_def Let_def)
  next
    case None
    show ?thesis
    proof (cases "rc_DefaultAlias (cf_Router c) = ''''")
      case True
      with None dflt show ?thesis by (simp add: Has_def Route_def Let_def)
    next
      case False
      then obtain ra where ra: "map_of (ro_aliases r) (rc_DefaultAlias (cf_Router c)) = Some ra"
        using wf dflt by (auto simp: router_wf_def)
      with None dflt False alias_ok [OF ra] show ?thesis by (simp add: Has_def Route_def Let_def)
    qed
  qed
  with r show ?thesis by blast
qed

theorem valid_config_routes_witness:
  "\<exists>r ts g'. router_New (cf_Router mock_config)
       [(''dev'', Mock (mock_of ''dev'' [''m1'', ''m2''] 384))] = Inr r \<and>
     Route (\<lambda>n g. (0, g)) r ''fast'' () = (Inr ts, g') \<and>
     route_names ts = [(''dev'', ''m1''), (''dev'', ''m2'')]"
proof -
  have v: "config_Validate mock_config = []"
    by (simp add: mock_config_def zero_config_def applyDefaults_def default_defs config_Validate_def
        IsEnabled_def check_alias_def check_target_def check_stores_def check_semantic_def Let_def
        duration_defs)
  have b: "Build (cf_Providers mock_config) = Inr [(''dev'', Mock (mock_of ''dev'' [''m1'', ''m2''] 384))]"
    by (simp add: mock_config_def zero_config_def applyDefaults_def default_defs Build_def IsEnabled_def
        new_provider_def Let_def)
  obtain r where r: "router_New (cf_Router mock_config)
      [(''dev'', Mock (mock_of ''dev'' [''m1'', ''m2''] 384))] = Inr r" and
    *: "let alias = (if Has r ''fast'' then ''fast'' else rc_DefaultAlias (cf_Router mock_config)) in
       if Has r ''fast'' \<or> rc_DefaultAlias (cf_Router mock_config) \<noteq> ''''
       then \<exists>a ts g'. map_of (rc_Aliases (cf_Router mock_config)) alias = Some a \<and>
              Route (\<lambda>n g. (0, g)) r ''fast'' () = (Inr ts, g') \<and> ts \<noteq> [] \<and>
              mset (route_names ts) = mset (cfg_names (al_Targets a)) \<and>
              (al_Strategy a = ''priority'' \<longrightarrow> route_names ts = cfg_names (al_Targets a))
       else Route (\<lambda>n g. (0, g)) r ''fast'' () = (Inl (NotConfigured ''fast''), ())"
    using valid_config_routes [OF v b, of "\<lambda>n g. (0, g)" "()"] by blast
  have "Has r ''fast''"
    using r by (auto simp: router_New_def resolve_alias_def mock_config_def zero_config_def
        applyDefaults_def default_defs registry_Get_def Has_def)
  then show ?thesis using r *
    by (auto simp: mock_config_def zero_config_def applyDefaults_def default_defs cfg_names_def)
qed

end
