(* ===== verification/Breaker.thy ===== *)
theory Breaker
  imports ProviderErrors
begin

text \<open>
  The circuit breaker of \<open>internal/resilience\<close>: its states, the store interface with the laws
  a store promises (the locale \<open>breaker_store\<close>), the in-memory store of \<open>breaker.go\<close>, and the
  guard \<open>Breaker\<close> the executor calls. The Redis store is in \<open>RedisBreaker\<close>.
\<close>

section \<open>States\<close>

datatype breaker_state = StateClosed | StateHalfOpen | StateOpen

text \<open>The gauge value of a state (\<open>obs.BreakerStateValue\<close>) orders the states.\<close>

fun BreakerStateValue :: "breaker_state \<Rightarrow> nat" where
  "BreakerStateValue StateOpen = 2"
| "BreakerStateValue StateHalfOpen = 1"
| "BreakerStateValue StateClosed = 0"

lemma BreakerStateValue_inject: "BreakerStateValue s = BreakerStateValue t \<Longrightarrow> s = t"
  by (cases s; cases t) auto

instantiation breaker_state :: linorder
begin
definition less_eq_breaker_state :: "breaker_state \<Rightarrow> breaker_state \<Rightarrow> bool" where
  "less_eq_breaker_state s t \<longleftrightarrow> BreakerStateValue s \<le> BreakerStateValue t"
definition less_breaker_state :: "breaker_state \<Rightarrow> breaker_state \<Rightarrow> bool" where
  "less_breaker_state s t \<longleftrightarrow> BreakerStateValue s < BreakerStateValue t"
instance
  by standard
    (auto simp: less_eq_breaker_state_def less_breaker_state_def BreakerStateValue_inject)
end

record breaker_config =
  bc_FailureThreshold :: int
  bc_OpenDuration :: duration
  bc_HalfOpenProbes :: int

record breaker_entry =
  be_state :: breaker_state
  be_failures :: int
  be_successes :: int
  be_openedAt :: instant
  be_probesInFlgt :: int

definition new_entry :: breaker_entry where
  "new_entry = \<lparr>be_state = StateClosed, be_failures = 0, be_successes = 0, be_openedAt = 0,
                be_probesInFlgt = 0\<rparr>"

section \<open>The state machine of one circuit\<close>

text \<open>The three handlers of \<open>LocalBreakerStore\<close>, on the entry of one provider\<close>

definition entry_snapshot :: "breaker_config \<Rightarrow> instant \<Rightarrow> breaker_entry \<Rightarrow> breaker_entry" where
  "entry_snapshot cfg now e =
     (if be_state e = StateOpen \<and> now - be_openedAt e \<ge> bc_OpenDuration cfg
      then e\<lparr>be_state := StateHalfOpen, be_successes := 0\<rparr> else e)"

definition entry_success :: "breaker_config \<Rightarrow> breaker_entry \<Rightarrow> breaker_entry" where
  "entry_success cfg e =
     (case be_state e of
        StateHalfOpen \<Rightarrow>
          (let e' = e\<lparr>be_successes := be_successes e + 1\<rparr> in
           if be_successes e' \<ge> bc_HalfOpenProbes cfg
           then e'\<lparr>be_state := StateClosed, be_failures := 0, be_successes := 0\<rparr> else e')
      | _ \<Rightarrow> e\<lparr>be_state := StateClosed, be_failures := 0\<rparr>)"

definition entry_failure :: "breaker_config \<Rightarrow> instant \<Rightarrow> breaker_entry \<Rightarrow> breaker_entry" where
  "entry_failure cfg now e =
     (if be_state e = StateHalfOpen
      then e\<lparr>be_state := StateOpen, be_openedAt := now, be_successes := 0\<rparr>
      else
        (let e' = e\<lparr>be_failures := be_failures e + 1\<rparr> in
         if be_failures e' \<ge> bc_FailureThreshold cfg
         then e'\<lparr>be_state := StateOpen, be_openedAt := now\<rparr> else e'))"

lemmas entry_defs [step_simps] = entry_snapshot_def entry_success_def entry_failure_def

text \<open>An open entry whose cooldown has elapsed: the next snapshot makes it half-open.\<close>

definition cooled :: "breaker_config \<Rightarrow> instant \<Rightarrow> breaker_entry \<Rightarrow> bool" where
  "cooled cfg now e \<longleftrightarrow> be_state e = StateOpen \<and> now - be_openedAt e \<ge> bc_OpenDuration cfg"

text \<open>The counters that go with each state\<close>

definition entry_wf :: "breaker_config \<Rightarrow> breaker_entry \<Rightarrow> bool" where
  "entry_wf cfg e \<longleftrightarrow>
     0 \<le> be_failures e \<and>
     (case be_state e of
        StateClosed \<Rightarrow> be_failures e < bc_FailureThreshold cfg \<and> be_successes e = 0
      | StateHalfOpen \<Rightarrow> bc_FailureThreshold cfg \<le> be_failures e \<and> 0 \<le> be_successes e \<and>
          be_successes e < bc_HalfOpenProbes cfg
      | StateOpen \<Rightarrow> bc_FailureThreshold cfg \<le> be_failures e \<and> be_successes e = 0)"

definition cfg_wf :: "breaker_config \<Rightarrow> bool" where
  "cfg_wf cfg \<longleftrightarrow> 1 \<le> bc_FailureThreshold cfg \<and> 0 \<le> bc_OpenDuration cfg \<and> 1 \<le> bc_HalfOpenProbes cfg"

lemma new_entry_wf: "cfg_wf cfg \<Longrightarrow> entry_wf cfg new_entry"
  by (simp add: entry_wf_def new_entry_def cfg_wf_def)

lemma entry_snapshot_wf: "cfg_wf cfg \<Longrightarrow> entry_wf cfg e \<Longrightarrow> entry_wf cfg (entry_snapshot cfg now e)"
  by (auto simp: entry_wf_def entry_snapshot_def cfg_wf_def)

lemma entry_success_wf: "cfg_wf cfg \<Longrightarrow> entry_wf cfg e \<Longrightarrow> entry_wf cfg (entry_success cfg e)"
  by (cases "be_state e") (auto simp: entry_wf_def entry_success_def cfg_wf_def Let_def)

lemma entry_failure_wf: "cfg_wf cfg \<Longrightarrow> entry_wf cfg e \<Longrightarrow> entry_wf cfg (entry_failure cfg now e)"
  by (cases "be_state e") (auto simp: entry_wf_def entry_failure_def cfg_wf_def Let_def)

lemma snapshot_open_iff:
  "be_state (entry_snapshot cfg now e) = StateOpen \<longleftrightarrow>
     be_state e = StateOpen \<and> now - be_openedAt e < bc_OpenDuration cfg"
  by (auto simp: entry_snapshot_def)

lemma snapshot_not_cooled: "\<not> cooled cfg now e \<Longrightarrow> entry_snapshot cfg now e = e"
  by (auto simp: cooled_def entry_snapshot_def)

lemma cooled_snapshot [simp]: "\<not> cooled cfg now (entry_snapshot cfg now e)"
  by (auto simp: cooled_def entry_snapshot_def)

section \<open>The store interface\<close>

text \<open>A run of outcomes of one kind, reported at the given times\<close>

fun record_all :: "(instant \<Rightarrow> string \<Rightarrow> 's \<Rightarrow> 'r \<times> 's) \<Rightarrow> instant list \<Rightarrow> string \<Rightarrow> 's \<Rightarrow> 's" where
  "record_all f [] p s = s"
| "record_all f (t # ts) p s = record_all f ts p (snd (f t p s))"

lemma record_all_snoc: "record_all f (ts @ [t]) p s = snd (f t p (record_all f ts p s))"
  by (induction ts arbitrary: s) auto

text \<open>
  \<open>BreakerStore\<close>: three operations on a store \<open>'s\<close>, each returning the resulting state of the
  provider's circuit or an error. \<open>up\<close> tells whether the store answers, \<open>view\<close> is the circuit
  of a provider as the store holds it. The laws: a snapshot applies a due transition and
  reports the result; a success or failure recorded on a circuit that is not due for a
  transition runs the state machine above; other providers keep their circuits, always; a store that
  is down reports an error and changes nothing.
\<close>

locale breaker_store =
  fixes cfg :: breaker_config
    and snapshot :: "instant \<Rightarrow> string \<Rightarrow> 's \<Rightarrow> (go_error + breaker_state) \<times> 's"
    and success :: "instant \<Rightarrow> string \<Rightarrow> 's \<Rightarrow> (go_error + breaker_state) \<times> 's"
    and failure :: "instant \<Rightarrow> string \<Rightarrow> 's \<Rightarrow> (go_error + breaker_state) \<times> 's"
    and up :: "'s \<Rightarrow> bool"
    and view :: "'s \<Rightarrow> string \<Rightarrow> breaker_entry"
  assumes snapshot_result:
      "up s \<Longrightarrow> fst (snapshot now p s) = Inr (be_state (entry_snapshot cfg now (view s p)))"
    and snapshot_view:
      "up s \<Longrightarrow> view (snd (snapshot now p s)) = (view s)(p := entry_snapshot cfg now (view s p))"
    and success_view:
      "up s \<Longrightarrow> \<not> cooled cfg now (view s p) \<Longrightarrow>
         view (snd (success now p s)) = (view s)(p := entry_success cfg (view s p))"
    and failure_view:
      "up s \<Longrightarrow> \<not> cooled cfg now (view s p) \<Longrightarrow>
         view (snd (failure now p s)) = (view s)(p := entry_failure cfg now (view s p))"
    and success_frame: "up s \<Longrightarrow> q \<noteq> p \<Longrightarrow> view (snd (success now p s)) q = view s q"
    and failure_frame: "up s \<Longrightarrow> q \<noteq> p \<Longrightarrow> view (snd (failure now p s)) q = view s q"
    and up_snapshot: "up (snd (snapshot now p s)) = up s"
    and up_success: "up (snd (success now p s)) = up s"
    and up_failure: "up (snd (failure now p s)) = up s"
    and snapshot_down: "\<not> up s \<Longrightarrow> (\<exists>e. fst (snapshot now p s) = Inl e) \<and> snd (snapshot now p s) = s"
begin

lemma failures_below_threshold:
  "up s \<Longrightarrow> be_state (view s p) = StateClosed \<Longrightarrow>
     be_failures (view s p) + int (length ts) < bc_FailureThreshold cfg \<Longrightarrow>
     up (record_all failure ts p s) \<and> be_state (view (record_all failure ts p s) p) = StateClosed \<and>
     be_failures (view (record_all failure ts p s) p) = be_failures (view s p) + int (length ts)"
proof (induction ts arbitrary: s)
  case Nil
  then show ?case by simp
next
  case (Cons t ts)
  then have "view (snd (failure t p s)) p = entry_failure cfg t (view s p)"
    by (simp add: failure_view cooled_def)
  then show ?case
    using Cons by (simp add: entry_failure_def up_failure Let_def)
qed

text \<open>The circuit trips at the threshold, not before.\<close>

lemma trips_at_threshold:
  assumes "up s" and "be_state (view s p) = StateClosed"
    and "be_failures (view s p) + int (length ts) + 1 = bc_FailureThreshold cfg"
  shows "be_state (view (record_all failure ts p s) p) = StateClosed"
    and "be_state (view (record_all failure (ts @ [t]) p s) p) = StateOpen"
    and "be_openedAt (view (record_all failure (ts @ [t]) p s) p) = t"
proof -
  have below: "up (record_all failure ts p s)" "be_state (view (record_all failure ts p s) p) = StateClosed"
    "be_failures (view (record_all failure ts p s) p) = be_failures (view s p) + int (length ts)"
    using failures_below_threshold [of s p ts] assms by auto
  have app: "record_all failure (ts @ [t]) p s = snd (failure t p (record_all failure ts p s))"
    by (rule record_all_snoc)
  have "view (record_all failure (ts @ [t]) p s) p = entry_failure cfg t (view (record_all failure ts p s) p)"
    using below by (simp add: app failure_view cooled_def)
  then show "be_state (view (record_all failure (ts @ [t]) p s) p) = StateOpen"
    and "be_openedAt (view (record_all failure (ts @ [t]) p s) p) = t"
    using below assms(3) by (simp_all add: entry_failure_def Let_def)
  show "be_state (view (record_all failure ts p s) p) = StateClosed" by (rule below)
qed

text \<open>An open circuit is reported open exactly during its cooldown.\<close>

lemma open_until_cooldown:
  assumes "up s" and "be_state (view s p) = StateOpen"
  shows "fst (snapshot now p s) =
    Inr (if now - be_openedAt (view s p) < bc_OpenDuration cfg then StateOpen else StateHalfOpen)"
  using assms by (simp add: snapshot_result entry_snapshot_def)

text \<open>One failure of a half-open circuit reopens it.\<close>

lemma half_open_failure:
  assumes "up s" and "be_state (view s p) = StateHalfOpen"
  shows "be_state (view (snd (failure now p s)) p) = StateOpen"
    and "be_openedAt (view (snd (failure now p s)) p) = now"
  using assms by (simp_all add: failure_view cooled_def entry_failure_def)

text \<open>As many successes as configured probes close a half-open circuit, and no fewer.\<close>

lemma successes_half_open:
  "up s \<Longrightarrow> be_state (view s p) = StateHalfOpen \<Longrightarrow>
     be_successes (view s p) + int (length ts) < bc_HalfOpenProbes cfg \<Longrightarrow>
     up (record_all success ts p s) \<and> be_state (view (record_all success ts p s) p) = StateHalfOpen \<and>
     be_successes (view (record_all success ts p s) p) = be_successes (view s p) + int (length ts)"
proof (induction ts arbitrary: s)
  case Nil
  then show ?case by simp
next
  case (Cons t ts)
  then have "view (snd (success t p s)) p = entry_success cfg (view s p)"
    by (simp add: success_view cooled_def)
  then show ?case
    using Cons by (simp add: entry_success_def up_success Let_def)
qed

lemma closes_after_probes:
  assumes "up s" and "be_state (view s p) = StateHalfOpen"
    and "be_successes (view s p) + int (length ts) + 1 = bc_HalfOpenProbes cfg"
  shows "be_state (view (record_all success ts p s) p) = StateHalfOpen"
    and "be_state (view (record_all success (ts @ [t]) p s) p) = StateClosed"
    and "be_failures (view (record_all success (ts @ [t]) p s) p) = 0"
proof -
  have below: "up (record_all success ts p s)" "be_state (view (record_all success ts p s) p) = StateHalfOpen"
    "be_successes (view (record_all success ts p s) p) = be_successes (view s p) + int (length ts)"
    using successes_half_open [of s p ts] assms by auto
  have app: "record_all success (ts @ [t]) p s = snd (success t p (record_all success ts p s))"
    by (rule record_all_snoc)
  have "view (record_all success (ts @ [t]) p s) p = entry_success cfg (view (record_all success ts p s) p)"
    using below by (simp add: app success_view cooled_def)
  then show "be_state (view (record_all success (ts @ [t]) p s) p) = StateClosed"
    and "be_failures (view (record_all success (ts @ [t]) p s) p) = 0"
    using below assms(3) by (simp_all add: entry_success_def Let_def)
  show "be_state (view (record_all success ts p s) p) = StateHalfOpen" by (rule below)
qed

end

section \<open>The in-memory store\<close>

type_synonym local_store = "string \<Rightarrow> breaker_entry option"

definition NewLocalBreakerStore :: local_store where
  "NewLocalBreakerStore = (\<lambda>_. None)"

text \<open>\<open>entry\<close>: look a provider up, creating its closed entry. The state returned by each
  operation is that of the updated entry.\<close>

definition entry :: "local_store \<Rightarrow> string \<Rightarrow> breaker_entry" where
  "entry m p = (case m p of Some e \<Rightarrow> e | None \<Rightarrow> new_entry)"

definition local_Snapshot ::
  "breaker_config \<Rightarrow> instant \<Rightarrow> string \<Rightarrow> local_store \<Rightarrow> (go_error + breaker_state) \<times> local_store" where
  "local_Snapshot cfg now p m =
     (let e = entry_snapshot cfg now (entry m p) in (Inr (be_state e), m(p := Some e)))"

definition local_RecordSuccess ::
  "breaker_config \<Rightarrow> instant \<Rightarrow> string \<Rightarrow> local_store \<Rightarrow> (go_error + breaker_state) \<times> local_store" where
  "local_RecordSuccess cfg now p m =
     (let e = entry_success cfg (entry m p) in (Inr (be_state e), m(p := Some e)))"

definition local_RecordFailure ::
  "breaker_config \<Rightarrow> instant \<Rightarrow> string \<Rightarrow> local_store \<Rightarrow> (go_error + breaker_state) \<times> local_store" where
  "local_RecordFailure cfg now p m =
     (let e = entry_failure cfg now (entry m p) in (Inr (be_state e), m(p := Some e)))"

lemmas local_store_defs [step_simps] =
  local_Snapshot_def local_RecordSuccess_def local_RecordFailure_def

interpretation lbs: breaker_store cfg "local_Snapshot cfg" "local_RecordSuccess cfg"
    "local_RecordFailure cfg" "\<lambda>_. True" entry for cfg
  by unfold_locales (auto simp: local_store_defs entry_def fun_eq_iff Let_def)

section \<open>The guard\<close>

text \<open>\<open>(*Breaker).Allow\<close>, \<open>Record\<close> and \<open>State\<close>, over the operations of a store\<close>

definition Allow ::
  "bool \<Rightarrow> (instant \<Rightarrow> string \<Rightarrow> 's \<Rightarrow> (go_error + breaker_state) \<times> 's) \<Rightarrow> instant \<Rightarrow> string \<Rightarrow> 's
    \<Rightarrow> (bool \<times> breaker_state) \<times> 's" where
  "Allow enabled snapshot now p s =
     (if \<not> enabled then ((True, StateClosed), s)
      else case snapshot now p s of
        (Inl err, s') \<Rightarrow> ((True, StateClosed), s')
      | (Inr st, s') \<Rightarrow> ((st \<noteq> StateOpen, st), s'))"

definition breaker_Record ::
  "bool \<Rightarrow> (instant \<Rightarrow> string \<Rightarrow> 's \<Rightarrow> (go_error + breaker_state) \<times> 's)
    \<Rightarrow> (instant \<Rightarrow> string \<Rightarrow> 's \<Rightarrow> (go_error + breaker_state) \<times> 's)
    \<Rightarrow> instant \<Rightarrow> string \<Rightarrow> bool \<Rightarrow> 's \<Rightarrow> 's" where
  "breaker_Record enabled success failure now p ok s =
     (if \<not> enabled then s
      else if ok then snd (success now p s)
      else snd (failure now p s))"

definition breaker_State ::
  "bool \<Rightarrow> (instant \<Rightarrow> string \<Rightarrow> 's \<Rightarrow> (go_error + breaker_state) \<times> 's) \<Rightarrow> instant \<Rightarrow> string \<Rightarrow> 's
    \<Rightarrow> breaker_state \<times> 's" where
  "breaker_State enabled snapshot now p s =
     (if \<not> enabled then (StateClosed, s)
      else case snapshot now p s of
        (Inl err, s') \<Rightarrow> (StateClosed, s')
      | (Inr st, s') \<Rightarrow> (st, s'))"

context breaker_store
begin

text \<open>The guard rejects a call exactly while the circuit is open and cooling down.\<close>

lemma Allow_iff:
  assumes "up s"
  shows "fst (fst (Allow True snapshot now p s)) \<longleftrightarrow>
    \<not> (be_state (view s p) = StateOpen \<and> now - be_openedAt (view s p) < bc_OpenDuration cfg)"
  using snapshot_result [OF assms, of now p]
  by (cases "snapshot now p s") (auto simp: Allow_def entry_snapshot_def split: sum.splits)

text \<open>A store that is down lets every call through and keeps no trace of it.\<close>

lemma Allow_down: "\<not> up s \<Longrightarrow> Allow True snapshot now p s = ((True, StateClosed), s)"
  using snapshot_down [of s now p] by (cases "snapshot now p s") (auto simp: Allow_def)

text \<open>Asking about a half-open circuit does not change it.\<close>

lemma Allow_half_open:
  assumes "up s" and "be_state (view s p) = StateHalfOpen"
  shows "fst (Allow True snapshot now p s) = (True, StateHalfOpen)"
    and "view (snd (Allow True snapshot now p s)) = view s" and "up (snd (Allow True snapshot now p s))"
proof -
  have e: "entry_snapshot cfg now (view s p) = view s p"
    using assms(2) by (simp add: entry_snapshot_def)
  have r: "fst (snapshot now p s) = Inr StateHalfOpen" "view (snd (snapshot now p s)) = view s"
    using snapshot_result [OF assms(1), of now p] snapshot_view [OF assms(1), of now p] assms(2) e
    by (simp_all add: fun_eq_iff)
  then show "fst (Allow True snapshot now p s) = (True, StateHalfOpen)"
    "view (snd (Allow True snapshot now p s)) = view s" "up (snd (Allow True snapshot now p s))"
    using up_snapshot [of now p s] assms(1)
    by (auto simp: Allow_def split: prod.splits)
qed

text \<open>
  From a closed circuit without failures: after one failure fewer than the threshold the guard
  still admits; after as many as the threshold it rejects exactly during the cooldown.
\<close>

lemma trip_and_reject:
  assumes "up s" and "be_state (view s p) = StateClosed"
    and "be_failures (view s p) + int (length ts) + 1 = bc_FailureThreshold cfg"
  shows "fst (fst (Allow True snapshot now p (record_all failure ts p s)))"
    and "fst (fst (Allow True snapshot now p (record_all failure (ts @ [t]) p s)))
           \<longleftrightarrow> now - t \<ge> bc_OpenDuration cfg"
proof -
  note trip = trips_at_threshold(1) [OF assms] trips_at_threshold(2,3) [OF assms, of t]
  have up1: "up (record_all failure ts p s)"
    using failures_below_threshold [of s p ts] assms by auto
  then have up2: "up (record_all failure (ts @ [t]) p s)"
    by (simp add: record_all_snoc up_failure)
  show "fst (fst (Allow True snapshot now p (record_all failure ts p s)))"
    using trip(1) up1 by (simp add: Allow_iff)
  show "fst (fst (Allow True snapshot now p (record_all failure (ts @ [t]) p s)))
      \<longleftrightarrow> now - t \<ge> bc_OpenDuration cfg"
    using trip(2,3) up2 by (auto simp: Allow_iff)
qed

end

section \<open>Runs of the in-memory store\<close>

datatype breaker_op = OpSnapshot | OpSuccess | OpFailure

fun local_op ::
  "breaker_config \<Rightarrow> breaker_op \<Rightarrow> instant \<Rightarrow> string \<Rightarrow> local_store \<Rightarrow> (go_error + breaker_state) \<times> local_store" where
  "local_op cfg OpSnapshot = local_Snapshot cfg"
| "local_op cfg OpSuccess = local_RecordSuccess cfg"
| "local_op cfg OpFailure = local_RecordFailure cfg"

fun local_run :: "breaker_config \<Rightarrow> (breaker_op \<times> instant \<times> string) list \<Rightarrow> local_store \<Rightarrow> local_store" where
  "local_run cfg [] m = m"
| "local_run cfg ((opr, now, p) # ops) m = local_run cfg ops (snd (local_op cfg opr now p m))"

lemma local_op_entry:
  "entry (snd (local_op cfg opr now p m)) q =
     (if q = p then
        (case opr of
           OpSnapshot \<Rightarrow> entry_snapshot cfg now (entry m p)
         | OpSuccess \<Rightarrow> entry_success cfg (entry m p)
         | OpFailure \<Rightarrow> entry_failure cfg now (entry m p))
      else entry m q)"
  by (cases opr) (simp_all add: local_store_defs entry_def Let_def)

lemma local_op_wf:
  "cfg_wf cfg \<Longrightarrow> (\<And>q. entry_wf cfg (entry m q)) \<Longrightarrow> entry_wf cfg (entry (snd (local_op cfg opr now p m)) q)"
  by (simp add: local_op_entry entry_snapshot_wf entry_success_wf entry_failure_wf
      split: breaker_op.split)

lemma local_run_wf:
  "cfg_wf cfg \<Longrightarrow> (\<And>q. entry_wf cfg (entry m q)) \<Longrightarrow> entry_wf cfg (entry (local_run cfg ops m) q)"
proof (induction cfg ops m rule: local_run.induct)
  case (1 cfg m)
  then show ?case by simp
next
  case (2 cfg opr now p ops m)
  from 2(1)[OF 2(2)] local_op_wf[OF 2(2) 2(3)] show ?case by simp
qed

lemma entry_empty [simp]: "entry NewLocalBreakerStore p = new_entry"
  by (simp add: entry_def NewLocalBreakerStore_def)

section \<open>Properties\<close>

definition example_breaker :: breaker_config where
  "example_breaker = \<lparr>bc_FailureThreshold = 5, bc_OpenDuration = 30 * Second, bc_HalfOpenProbes = 2\<rparr>"

text \<open>
  The counters of every circuit stay consistent with its state: after any sequence of
  operations on a fresh in-memory store, a closed circuit has counted fewer failures than the
  threshold, a half-open one fewer successes than the configured probes, and the success
  count is zero in every other state.
\<close>

theorem breaker_counters_invariant:
  assumes "cfg_wf cfg"
  shows "entry_wf cfg (entry (local_run cfg ops NewLocalBreakerStore) p)"
  by (rule local_run_wf) (simp_all add: assms new_entry_wf)

theorem breaker_counters_invariant_witness:
  "entry_wf example_breaker (entry (local_run example_breaker
     [(OpFailure, 0, ''groq''), (OpSuccess, 1, ''groq''), (OpFailure, 2, ''groq'')]
     NewLocalBreakerStore) ''groq'')"
  by (rule breaker_counters_invariant) (simp add: cfg_wf_def example_breaker_def Second_def)

text \<open>
  The circuit of a provider trips exactly at the failure threshold: starting from a store
  that never saw the provider, one failure fewer than the threshold leaves calls admitted, and
  as many failures as the threshold make the guard reject calls for exactly the open duration
  counted from the last failure.
\<close>

theorem breaker_trips_at_threshold:
  assumes "int (length ts) + 1 = bc_FailureThreshold cfg"
  shows "fst (fst (Allow True (local_Snapshot cfg) now p
           (record_all (local_RecordFailure cfg) ts p NewLocalBreakerStore))) \<and>
         (fst (fst (Allow True (local_Snapshot cfg) now p
           (record_all (local_RecordFailure cfg) (ts @ [t]) p NewLocalBreakerStore)))
         \<longleftrightarrow> now - t \<ge> bc_OpenDuration cfg)"
  using lbs.trip_and_reject(1) [of NewLocalBreakerStore p ts cfg now]
    lbs.trip_and_reject(2) [of NewLocalBreakerStore p ts cfg now t] assms
  by (simp add: new_entry_def)

theorem breaker_trips_at_threshold_witness:
  "\<not> fst (fst (Allow True (local_Snapshot example_breaker) (10 * Second) ''groq''
       (record_all (local_RecordFailure example_breaker) ([1, 2, 3, 4] @ [5 * Second]) ''groq''
          NewLocalBreakerStore)))"
  using breaker_trips_at_threshold [of "[1, 2, 3, 4]" example_breaker "10 * Second" "''groq''" "5 * Second"]
  by (simp add: example_breaker_def Second_def)

text \<open>
  Recovery: once a tripped circuit of the in-memory store has cooled down, the next
  admitted call makes it half-open; as many successes as configured probes, and no fewer,
  then close it, while a single failure reopens it for another full cooldown.
\<close>

theorem breaker_recovery:
  assumes "cooled cfg now (entry m p)" and "int (length ts) + 1 = bc_HalfOpenProbes cfg"
  shows "let m' = snd (Allow True (local_Snapshot cfg) now p m) in
    fst (Allow True (local_Snapshot cfg) now p m) = (True, StateHalfOpen) \<and>
    be_state (entry (record_all (local_RecordSuccess cfg) ts p m') p) = StateHalfOpen \<and>
    be_state (entry (record_all (local_RecordSuccess cfg) (ts @ [t]) p m') p) = StateClosed \<and>
    (let m'' = snd (local_RecordFailure cfg t p (record_all (local_RecordSuccess cfg) ts p m')) in
     be_state (entry m'' p) = StateOpen \<and> be_openedAt (entry m'' p) = t)"
proof -
  define m' where "m' = snd (Allow True (local_Snapshot cfg) now p m)"
  have e: "entry m' p = (entry m p)\<lparr>be_state := StateHalfOpen, be_successes := 0\<rparr>"
    and a: "fst (Allow True (local_Snapshot cfg) now p m) = (True, StateHalfOpen)"
    using assms(1)
    by (auto simp: m'_def Allow_def local_Snapshot_def entry_snapshot_def cooled_def entry_def Let_def)
  note closes = lbs.closes_after_probes(1) [of m' p ts cfg] lbs.closes_after_probes(2) [of m' p ts cfg t]
  note reopens = lbs.half_open_failure [of "record_all (local_RecordSuccess cfg) ts p m'" p cfg t]
  show ?thesis
    using closes reopens e a assms(2) by (simp add: m'_def [symmetric] Let_def)
qed

theorem breaker_recovery_witness:
  "be_state (entry (record_all (local_RecordSuccess example_breaker) ([41 * Second] @ [42 * Second]) ''groq''
     (snd (Allow True (local_Snapshot example_breaker) (40 * Second) ''groq''
       [''groq'' \<mapsto> \<lparr>be_state = StateOpen, be_failures = 5, be_successes = 0,
          be_openedAt = 5 * Second, be_probesInFlgt = 0\<rparr>]))) ''groq'') = StateClosed"
  using breaker_recovery [of example_breaker "40 * Second"
     "[''groq'' \<mapsto> \<lparr>be_state = StateOpen, be_failures = 5, be_successes = 0,
          be_openedAt = 5 * Second, be_probesInFlgt = 0\<rparr>]" "''groq''" "[41 * Second]" "42 * Second"]
  by (simp add: example_breaker_def Second_def cooled_def entry_def Let_def)

text \<open>
  A half-open circuit admits every call: however many callers ask while it is half-open,
  each is admitted and none changes the circuit, so the number of probes in flight is not
  limited; only recorded outcomes move it.
\<close>

theorem half_open_admits_all:
  assumes "be_state (entry m p) = StateHalfOpen"
  shows "(\<forall>now. fst (Allow True (local_Snapshot cfg) now p m) = (True, StateHalfOpen)) \<and>
    entry (record_all (Allow True (local_Snapshot cfg)) ts p m) = entry m"
proof
  show "\<forall>now. fst (Allow True (local_Snapshot cfg) now p m) = (True, StateHalfOpen)"
    using lbs.Allow_half_open(1) assms by blast
  show "entry (record_all (Allow True (local_Snapshot cfg)) ts p m) = entry m"
    using assms
  proof (induction ts arbitrary: m)
    case Nil
    then show ?case by simp
  next
    case (Cons t ts)
    then show ?case using lbs.Allow_half_open(2) [of m p cfg t] by simp
  qed
qed

theorem half_open_admits_all_witness:
  "fst (Allow True (local_Snapshot example_breaker) 0 ''groq''
     [''groq'' \<mapsto> new_entry\<lparr>be_state := StateHalfOpen\<rparr>]) = (True, StateHalfOpen)"
  using half_open_admits_all [of "[''groq'' \<mapsto> new_entry\<lparr>be_state := StateHalfOpen\<rparr>]" "''groq''"
      example_breaker "[]"]
  by (simp add: entry_def)

end
