(* ===== verification/RedisBreaker.thy ===== *)
theory RedisBreaker
  imports Breaker
begin

text \<open>
  The shared breaker store of \<open>internal/resilience/redis_breaker.go\<close>: the Lua script, one
  atomic transition on the hash of a provider, and the Redis server that holds the hashes
  and expires them. The script's clock is \<open>nowMillis()\<close> of the calling replica, the expiry
  runs on the server's clock; both are milliseconds.
\<close>

section \<open>The script\<close>

datatype breaker_event = Peek | Success | Failure

fun event_string :: "breaker_event \<Rightarrow> string" where
  "event_string Peek = ''peek''"
| "event_string Success = ''success''"
| "event_string Failure = ''failure''"

record redis_hash =
  rh_state :: breaker_state
  rh_failures :: int
  rh_successes :: int
  rh_opened_at :: instant

definition empty_hash :: redis_hash where
  "empty_hash = \<lparr>rh_state = StateClosed, rh_failures = 0, rh_successes = 0, rh_opened_at = 0\<rparr>"

definition breaker_script ::
  "breaker_event \<Rightarrow> int \<Rightarrow> int \<Rightarrow> int \<Rightarrow> instant \<Rightarrow> redis_hash option \<Rightarrow> redis_hash" where
  "breaker_script event threshold open_ms probes now stored =
     (let h = (case stored of Some h \<Rightarrow> h | None \<Rightarrow> empty_hash);
          h = (if rh_state h = StateOpen \<and> now - rh_opened_at h \<ge> open_ms
               then h\<lparr>rh_state := StateHalfOpen, rh_successes := 0\<rparr> else h)
      in case event of
        Success \<Rightarrow>
          (if rh_state h = StateHalfOpen then
             (let h = h\<lparr>rh_successes := rh_successes h + 1\<rparr> in
              if rh_successes h \<ge> probes
              then h\<lparr>rh_state := StateClosed, rh_failures := 0, rh_successes := 0\<rparr> else h)
           else h\<lparr>rh_state := StateClosed, rh_failures := 0\<rparr>)
      | Failure \<Rightarrow>
          (if rh_state h = StateHalfOpen
           then h\<lparr>rh_state := StateOpen, rh_opened_at := now, rh_successes := 0\<rparr>
           else
             (let h = h\<lparr>rh_failures := rh_failures h + 1\<rparr> in
              if rh_failures h \<ge> threshold
              then h\<lparr>rh_state := StateOpen, rh_opened_at := now\<rparr> else h))
      | Peek \<Rightarrow> h)"

section \<open>The server and the client\<close>

record redis_server =
  rs_up :: bool
  rs_clock :: instant
  rs_breakers :: "string \<Rightarrow> (redis_hash \<times> instant) option"

definition breakerKey :: "string \<Rightarrow> string" where
  "breakerKey provider = ''glm:v1:breaker:'' @ provider"

text \<open>A hash is there until its expiry.\<close>

definition live_hash :: "redis_server \<Rightarrow> string \<Rightarrow> redis_hash option" where
  "live_hash db key =
     (case rs_breakers db key of
        Some (h, expires) \<Rightarrow> if rs_clock db < expires then Some h else None
      | None \<Rightarrow> None)"

definition open_millis :: "breaker_config \<Rightarrow> int" where
  "open_millis cfg = go_div (bc_OpenDuration cfg) Millisecond"

definition breaker_ttl :: "breaker_config \<Rightarrow> int" where
  "breaker_ttl cfg = max (open_millis cfg * 10) 600000"

definition redis_run ::
  "breaker_config \<Rightarrow> breaker_event \<Rightarrow> instant \<Rightarrow> string \<Rightarrow> redis_server
    \<Rightarrow> (go_error + breaker_state) \<times> redis_server" where
  "redis_run cfg event now provider db =
     (if \<not> rs_up db then (Inl (ErrorText (''breaker '' @ event_string event) None), db)
      else
        (let key = breakerKey provider;
             h = breaker_script event (bc_FailureThreshold cfg) (open_millis cfg)
                   (bc_HalfOpenProbes cfg) now (live_hash db key)
         in (Inr (rh_state h),
             db\<lparr>rs_breakers := (rs_breakers db)(key \<mapsto> (h, rs_clock db + breaker_ttl cfg))\<rparr>)))"

definition redis_Snapshot ::
  "breaker_config \<Rightarrow> instant \<Rightarrow> string \<Rightarrow> redis_server \<Rightarrow> (go_error + breaker_state) \<times> redis_server" where
  "redis_Snapshot cfg = redis_run cfg Peek"

definition redis_RecordSuccess ::
  "breaker_config \<Rightarrow> instant \<Rightarrow> string \<Rightarrow> redis_server \<Rightarrow> (go_error + breaker_state) \<times> redis_server" where
  "redis_RecordSuccess cfg = redis_run cfg Success"

definition redis_RecordFailure ::
  "breaker_config \<Rightarrow> instant \<Rightarrow> string \<Rightarrow> redis_server \<Rightarrow> (go_error + breaker_state) \<times> redis_server" where
  "redis_RecordFailure cfg = redis_run cfg Failure"

lemmas redis_op_defs = redis_Snapshot_def redis_RecordSuccess_def redis_RecordFailure_def

section \<open>The store interface\<close>

text \<open>The circuit a hash stands for, and the configuration in the script's unit\<close>

definition hash_entry :: "redis_hash option \<Rightarrow> breaker_entry" where
  "hash_entry stored =
     (let h = (case stored of Some h \<Rightarrow> h | None \<Rightarrow> empty_hash) in
      \<lparr>be_state = rh_state h, be_failures = rh_failures h, be_successes = rh_successes h,
       be_openedAt = rh_opened_at h, be_probesInFlgt = 0\<rparr>)"

definition redis_view :: "redis_server \<Rightarrow> string \<Rightarrow> breaker_entry" where
  "redis_view db p = hash_entry (live_hash db (breakerKey p))"

definition in_millis :: "breaker_config \<Rightarrow> breaker_config" where
  "in_millis cfg = cfg\<lparr>bc_OpenDuration := open_millis cfg\<rparr>"

text \<open>The script applies a due transition, then the event, on the circuit of the hash.\<close>

lemma script_entry:
  "hash_entry (Some (breaker_script event (bc_FailureThreshold cfg) (open_millis cfg)
       (bc_HalfOpenProbes cfg) now stored)) =
   (let e = entry_snapshot (in_millis cfg) now (hash_entry stored) in
    case event of
      Peek \<Rightarrow> e
    | Success \<Rightarrow> entry_success (in_millis cfg) e
    | Failure \<Rightarrow> entry_failure (in_millis cfg) now e)"
proof -
  define h where "h = (case stored of Some h \<Rightarrow> h | None \<Rightarrow> empty_hash)"
  have e: "hash_entry stored = hash_entry (Some h)" by (simp add: hash_entry_def h_def)
  have s: "breaker_script event a b c now stored = breaker_script event a b c now (Some h)" for a b c
    by (simp add: breaker_script_def h_def)
  show ?thesis
    unfolding e s
    by (cases event; cases "rh_state h")
      (simp_all add: breaker_script_def hash_entry_def entry_snapshot_def entry_success_def
        entry_failure_def in_millis_def Let_def)
qed

lemma breakerKey_inject [simp]: "breakerKey p = breakerKey q \<longleftrightarrow> p = q"
  by (simp add: breakerKey_def)

lemma breaker_ttl_pos: "0 < breaker_ttl cfg"
  by (simp add: breaker_ttl_def)

lemma redis_run_view:
  assumes "rs_up db"
  shows "redis_view (snd (redis_run cfg event now p db)) =
    (redis_view db)(p :=
       (let e = entry_snapshot (in_millis cfg) now (redis_view db p) in
        case event of
          Peek \<Rightarrow> e
        | Success \<Rightarrow> entry_success (in_millis cfg) e
        | Failure \<Rightarrow> entry_failure (in_millis cfg) now e))"
    and "fst (redis_run cfg event now p db) =
      Inr (be_state (redis_view (snd (redis_run cfg event now p db)) p))"
proof -
  let ?h = "breaker_script event (bc_FailureThreshold cfg) (open_millis cfg)
              (bc_HalfOpenProbes cfg) now (live_hash db (breakerKey p))"
  have live: "live_hash (snd (redis_run cfg event now p db)) (breakerKey q) =
      (if q = p then Some ?h else live_hash db (breakerKey q))" for q
    using assms breaker_ttl_pos by (simp add: redis_run_def live_hash_def Let_def split: option.split)
  show "redis_view (snd (redis_run cfg event now p db)) =
    (redis_view db)(p :=
       (let e = entry_snapshot (in_millis cfg) now (redis_view db p) in
        case event of
          Peek \<Rightarrow> e
        | Success \<Rightarrow> entry_success (in_millis cfg) e
        | Failure \<Rightarrow> entry_failure (in_millis cfg) now e))"
    by (rule ext) (simp add: redis_view_def live script_entry)
  have "be_state (hash_entry (Some ?h)) = rh_state ?h" by (simp add: hash_entry_def Let_def)
  then show "fst (redis_run cfg event now p db) =
      Inr (be_state (redis_view (snd (redis_run cfg event now p db)) p))"
    using assms by (simp add: redis_view_def live) (simp add: redis_run_def Let_def)
qed

lemma redis_run_up [simp]: "rs_up (snd (redis_run cfg event now p db)) = rs_up db"
  by (simp add: redis_run_def Let_def)

lemma redis_run_down:
  "\<not> rs_up db \<Longrightarrow> redis_run cfg event now p db = (Inl (ErrorText (''breaker '' @ event_string event) None), db)"
  by (simp add: redis_run_def)

interpretation rbs: breaker_store "in_millis cfg" "redis_Snapshot cfg" "redis_RecordSuccess cfg"
    "redis_RecordFailure cfg" rs_up redis_view for cfg
  by unfold_locales
    (simp_all add: redis_op_defs redis_run_view redis_run_down snapshot_not_cooled)

section \<open>Properties\<close>

text \<open>
  The shared circuit trips exactly at the failure threshold: when the Redis script has
  counted no failure of a provider, one failure fewer than the threshold, recorded through
  any replicas, leaves calls admitted, and as many failures as the threshold make every
  replica reject calls for exactly the open duration, in milliseconds, after the last one.
\<close>

theorem redis_breaker_trips:
  assumes "rs_up db" and "live_hash db (breakerKey p) = None"
    and "int (length ts) + 1 = bc_FailureThreshold cfg"
  shows "fst (fst (Allow True (redis_Snapshot cfg) now p
           (record_all (redis_RecordFailure cfg) ts p db))) \<and>
         (fst (fst (Allow True (redis_Snapshot cfg) now p
           (record_all (redis_RecordFailure cfg) (ts @ [t]) p db)))
         \<longleftrightarrow> now - t \<ge> open_millis cfg)"
proof -
  have v: "redis_view db p = new_entry"
    using assms(2) by (simp add: redis_view_def hash_entry_def empty_hash_def new_entry_def)
  then show ?thesis
    using rbs.trip_and_reject(1) [of db p ts cfg now] rbs.trip_and_reject(2) [of db p ts cfg now t]
      assms(1,3)
    by (simp add: new_entry_def in_millis_def)
qed

definition example_redis :: redis_server where
  "example_redis = \<lparr>rs_up = True, rs_clock = 0, rs_breakers = (\<lambda>_. None)\<rparr>"

theorem redis_breaker_trips_witness:
  "\<not> fst (fst (Allow True (redis_Snapshot example_breaker) 10000 ''groq''
       (record_all (redis_RecordFailure example_breaker) ([1, 2, 3, 4] @ [5000]) ''groq'' example_redis)))"
  using redis_breaker_trips [of example_redis "''groq''" "[1, 2, 3, 4]" example_breaker 10000 5000]
  by (simp add: example_redis_def live_hash_def example_breaker_def open_millis_def Second_def
      Millisecond_def)

text \<open>The local operation an event of the script amounts to\<close>

fun event_op :: "breaker_event \<Rightarrow> breaker_op list" where
  "event_op Peek = [OpSnapshot]"
| "event_op Success = [OpSnapshot, OpSuccess]"
| "event_op Failure = [OpSnapshot, OpFailure]"

fun redis_events ::
  "breaker_config \<Rightarrow> (breaker_event \<times> instant \<times> string) list \<Rightarrow> redis_server \<Rightarrow> redis_server" where
  "redis_events cfg [] db = db"
| "redis_events cfg ((ev, now, p) # evs) db = redis_events cfg evs (snd (redis_run cfg ev now p db))"

definition local_events ::
  "(breaker_event \<times> instant \<times> string) list \<Rightarrow> (breaker_op \<times> instant \<times> string) list" where
  "local_events evs = concat (map (\<lambda>(ev, now, p). map (\<lambda>opr. (opr, now, p)) (event_op ev)) evs)"

lemma local_run_append: "local_run cfg (xs @ ys) m = local_run cfg ys (local_run cfg xs m)"
  by (induction cfg xs m rule: local_run.induct) auto

lemma redis_step_refines:
  assumes "rs_up db" and "redis_view db = entry m"
  shows "redis_view (snd (redis_run cfg ev now p db)) =
    entry (local_run (in_millis cfg) (map (\<lambda>opr. (opr, now, p)) (event_op ev)) m)"
  using assms
  by (cases ev) (auto simp: redis_run_view local_op_entry Let_def fun_eq_iff simp del: local_op.simps)

lemma redis_events_refine:
  "rs_up db \<Longrightarrow> redis_view db = entry m \<Longrightarrow>
     redis_view (redis_events cfg evs db) = entry (local_run (in_millis cfg) (local_events evs) m)"
proof (induction cfg evs db arbitrary: m rule: redis_events.induct)
  case (1 cfg db)
  then show ?case by (simp add: local_events_def)
next
  case (2 cfg ev now p evs db)
  have "redis_view (snd (redis_run cfg ev now p db)) =
      entry (local_run (in_millis cfg) (map (\<lambda>opr. (opr, now, p)) (event_op ev)) m)"
    using 2 by (intro redis_step_refines)
  with 2 show ?case by (simp add: local_events_def local_run_append)
qed



text \<open>
  The two stores differ on a late success: on an open circuit that has cooled down but has
  not been looked at since, a recorded success closes the in-memory circuit outright, without
  a single probe, while the shared circuit becomes half-open with one success and closes only
  if one probe is enough.
\<close>

theorem late_success_divergence:
  assumes "rs_up db" and "redis_view db p = entry m p"
    and "be_state (entry m p) = StateOpen" and "now - be_openedAt (entry m p) \<ge> open_millis cfg"
  shows "fst (local_RecordSuccess (in_millis cfg) now p m) = Inr StateClosed \<and>
    fst (redis_RecordSuccess cfg now p db) =
      Inr (if 1 \<ge> bc_HalfOpenProbes cfg then StateClosed else StateHalfOpen)"
proof -
  have "entry_snapshot (in_millis cfg) now (entry m p) =
      (entry m p)\<lparr>be_state := StateHalfOpen, be_successes := 0\<rparr>"
    using assms(3,4) by (simp add: entry_snapshot_def in_millis_def)
  then show ?thesis
    using assms redis_run_view [OF assms(1), of cfg Success now p]
    by (simp add: redis_op_defs local_RecordSuccess_def entry_success_def in_millis_def Let_def)
qed

definition example_open :: redis_hash where
  "example_open = \<lparr>rh_state = StateOpen, rh_failures = 5, rh_successes = 0, rh_opened_at = 0\<rparr>"

theorem late_success_divergence_witness:
  "fst (redis_RecordSuccess example_breaker 40000 ''groq''
     (example_redis\<lparr>rs_breakers := [breakerKey ''groq'' \<mapsto> (example_open, 600000)]\<rparr>)) = Inr StateHalfOpen"
  using late_success_divergence
    [of "example_redis\<lparr>rs_breakers := [breakerKey ''groq'' \<mapsto> (example_open, 600000)]\<rparr>" "''groq''"
        "[''groq'' \<mapsto> hash_entry (Some example_open)]" example_breaker 40000]
  by (simp add: redis_view_def live_hash_def example_redis_def entry_def hash_entry_def example_open_def
      example_breaker_def open_millis_def Second_def Millisecond_def)

text \<open>
  The server's states: script runs by replicas whose clock is not ahead of the server's, the
  passing of time, and outages
\<close>

inductive redis_reachable :: "breaker_config \<Rightarrow> redis_server \<Rightarrow> bool" for cfg where
  start: "rs_breakers db = (\<lambda>_. None) \<Longrightarrow> redis_reachable cfg db"
| script: "redis_reachable cfg db \<Longrightarrow> now \<le> rs_clock db \<Longrightarrow>
     redis_reachable cfg (snd (redis_run cfg ev now p db))"
| tick: "redis_reachable cfg db \<Longrightarrow> rs_clock db \<le> t \<Longrightarrow> redis_reachable cfg (db\<lparr>rs_clock := t\<rparr>)"
| outage: "redis_reachable cfg db \<Longrightarrow> redis_reachable cfg (db\<lparr>rs_up := b\<rparr>)"

definition hash_times_ok :: "breaker_config \<Rightarrow> redis_server \<Rightarrow> bool" where
  "hash_times_ok cfg db \<longleftrightarrow>
     (\<forall>key h expires. rs_breakers db key = Some (h, expires) \<longrightarrow> rh_state h = StateOpen \<longrightarrow>
        rh_opened_at h \<le> rs_clock db \<and> rh_opened_at h + breaker_ttl cfg \<le> expires)"

lemma script_opened_at:
  assumes "rh_state (breaker_script ev a b c now stored) = StateOpen"
  shows "rh_opened_at (breaker_script ev a b c now stored) = now \<or>
    (\<exists>h. stored = Some h \<and> rh_state h = StateOpen \<and>
         rh_opened_at (breaker_script ev a b c now stored) = rh_opened_at h)"
  using assms
  by (cases ev; cases stored)
    (auto simp: breaker_script_def empty_hash_def Let_def split: if_splits)

lemma redis_run_times:
  assumes "hash_times_ok cfg db" and "now \<le> rs_clock db"
  shows "hash_times_ok cfg (snd (redis_run cfg ev now p db))"
proof (cases "rs_up db")
  case False
  with assms show ?thesis by (simp add: redis_run_down)
next
  case True
  let ?h = "breaker_script ev (bc_FailureThreshold cfg) (open_millis cfg)
              (bc_HalfOpenProbes cfg) now (live_hash db (breakerKey p))"
  have "rh_opened_at ?h \<le> rs_clock db" if "rh_state ?h = StateOpen"
    using script_opened_at [OF that] assms
    by (auto simp: hash_times_ok_def live_hash_def split: option.splits if_splits)
  with True assms(1) show ?thesis
    by (auto simp: redis_run_def hash_times_ok_def Let_def)
qed

lemma reachable_times: "redis_reachable cfg db \<Longrightarrow> hash_times_ok cfg db"
proof (induction rule: redis_reachable.induct)
  case (start db)
  then show ?case by (simp add: hash_times_ok_def)
next
  case (script db now ev p)
  then show ?case by (simp add: redis_run_times)
next
  case (tick db t)
  then show ?case by (fastforce simp: hash_times_ok_def)
next
  case (outage db b)
  then show ?case by (simp add: hash_times_ok_def)
qed

text \<open>
  Expiry never revives a provider early: in every state the server can reach, a hash that
  Redis has dropped as idle held no circuit that was still cooling down, so reading the default
  closed circuit instead admits no call the open circuit would have rejected.
\<close>

theorem expiry_keeps_cooldown:
  assumes "redis_reachable cfg db" and "0 \<le> open_millis cfg"
    and "rs_breakers db (breakerKey p) = Some (h, expires)" and "live_hash db (breakerKey p) = None"
  shows "\<not> (rh_state h = StateOpen \<and> rs_clock db - rh_opened_at h < open_millis cfg)"
proof -
  have "expires \<le> rs_clock db"
    using assms(3,4) by (simp add: live_hash_def split: if_splits)
  moreover have "rh_state h = StateOpen \<Longrightarrow> rh_opened_at h + breaker_ttl cfg \<le> expires"
    using reachable_times [OF assms(1)] assms(3) by (simp add: hash_times_ok_def)
  moreover have "open_millis cfg \<le> breaker_ttl cfg"
    using assms(2) by (simp add: breaker_ttl_def)
  ultimately show ?thesis by auto
qed

definition example_once :: breaker_config where
  "example_once = \<lparr>bc_FailureThreshold = 1, bc_OpenDuration = 30 * Second, bc_HalfOpenProbes = 1\<rparr>"

theorem expiry_keeps_cooldown_witness:
  "let db = (snd (redis_run example_once Failure 0 ''groq'' example_redis))\<lparr>rs_clock := 700000\<rparr> in
   rs_breakers db (breakerKey ''groq'') = Some (\<lparr>rh_state = StateOpen, rh_failures = 1,
      rh_successes = 0, rh_opened_at = 0\<rparr>, 600000) \<and> \<not> 700000 < open_millis example_once"
proof -
  let ?db = "(snd (redis_run example_once Failure 0 ''groq'' example_redis))\<lparr>rs_clock := 700000\<rparr>"
  have "redis_reachable example_once ?db"
    by (intro redis_reachable.intros) (simp_all add: example_redis_def redis_run_def Let_def)
  moreover have "rs_breakers ?db (breakerKey ''groq'') = Some (\<lparr>rh_state = StateOpen, rh_failures = 1,
      rh_successes = 0, rh_opened_at = 0\<rparr>, 600000)"
    by (simp add: redis_run_def example_redis_def live_hash_def breaker_script_def empty_hash_def
        example_once_def breaker_ttl_def open_millis_def Second_def Millisecond_def Let_def)
  moreover have "rs_clock ?db = 700000" by simp
  ultimately show ?thesis
    using expiry_keeps_cooldown [of example_once ?db "''groq''"]
    by (simp add: live_hash_def example_once_def open_millis_def Second_def Millisecond_def Let_def)
qed

end
