(* ===== verification/Executor.thy ===== *)
theory Executor
  imports Router RedisBreaker
begin

text \<open>
  \<open>internal/resilience/executor.go\<close>: retries against one target, failover across targets, the
  backoff between attempts and the error that stands for an exhausted failover. What the executor
  calls is a field of \<open>exec_env\<close>, a function on the state \<open>'w\<close> of the world: the breaker, the
  timer, the random source, the \<open>OnAttempt\<close> hook, the request's context. The \<open>call\<close> closure and
  the \<open>committed\<close> predicate are arguments, as in the code. A Go panic is the value \<open>Panic\<close>.
  The duration of an attempt, which only the hook sees, is left out.
\<close>

section \<open>Configuration and environment\<close>

record exec_config =
  ec_MaxAttempts :: int
  ec_BaseBackoff :: duration
  ec_MaxBackoff :: duration

record attempt_info =
  ai_Provider :: string
  ai_Model :: string
  ai_Attempt :: int
  ai_Err :: "go_error option"
  ai_BreakerState :: breaker_state
  ai_Skipped :: bool

record 'w exec_env =
  ee_ctx_err :: "'w \<Rightarrow> bool"
  ee_wait :: "duration \<Rightarrow> 'w \<Rightarrow> go_error option \<times> 'w"
  ee_int63n :: "int \<Rightarrow> 'w \<Rightarrow> int \<times> 'w"
  ee_allow :: "string \<Rightarrow> 'w \<Rightarrow> (bool \<times> breaker_state) \<times> 'w"
  ee_record :: "string \<Rightarrow> bool \<Rightarrow> 'w \<Rightarrow> 'w"
  ee_report :: "attempt_info \<Rightarrow> 'w \<Rightarrow> 'w"

datatype 'a go = Ret 'a | Panic

type_synonym 'w caller = "target \<Rightarrow> chat_request \<Rightarrow> 'w \<Rightarrow> go_error option \<times> 'w"

section \<open>Classification\<close>

fun countsAgainstProvider :: "kind \<Rightarrow> bool" where
  "countsAgainstProvider KindInvalidRequest = False"
| "countsAgainstProvider KindContentFilter = False"
| "countsAgainstProvider KindContextLength = False"
| "countsAgainstProvider KindInternal = False"
| "countsAgainstProvider _ = True"

fun kindRank :: "kind \<Rightarrow> int" where
  "kindRank KindRateLimit = 5"
| "kindRank KindInvalidRequest = 4"
| "kindRank KindContextLength = 4"
| "kindRank KindContentFilter = 4"
| "kindRank KindAuth = 3"
| "kindRank KindTimeout = 2"
| "kindRank KindUnavailable = 1"
| "kindRank KindInternal = 0"

section \<open>Backoff\<close>

text \<open>
  \<open>e.cfg.BaseBackoff << (attempt - 1)\<close> on a 64-bit signed integer, capped. The shift discards
  the high bits, so a large attempt number can make it zero or negative.
\<close>

definition shift_backoff :: "duration \<Rightarrow> int \<Rightarrow> duration" where
  "shift_backoff base attempt = sint (push_bit (nat (attempt - 1)) (word_of_int base :: 64 word))"

definition capped_backoff :: "exec_config \<Rightarrow> int \<Rightarrow> duration" where
  "capped_backoff cfg attempt =
     (let backoff = shift_backoff (ec_BaseBackoff cfg) attempt in
      if backoff > ec_MaxBackoff cfg \<or> backoff \<le> 0 then ec_MaxBackoff cfg else backoff)"

text \<open>The argument of \<open>Int63n\<close>; \<open>Int63n\<close> panics unless it is positive.\<close>

definition jitter_bound :: "duration \<Rightarrow> int" where
  "jitter_bound backoff = sint (word_of_int backoff + 1 :: 64 word)"

definition backoff_delay ::
  "'w exec_env \<Rightarrow> exec_config \<Rightarrow> int \<Rightarrow> duration \<Rightarrow> 'w \<Rightarrow> duration go \<times> 'w" where
  "backoff_delay env cfg attempt retryAfter w =
     (if retryAfter > 0 then (Ret (min retryAfter (ec_MaxBackoff cfg)), w)
      else
        (let n = jitter_bound (capped_backoff cfg attempt) in
         if n \<le> 0 then (Panic, w)
         else
           (let (delay, w') = ee_int63n env n w in (Ret (min delay (ec_MaxBackoff cfg)), w'))))"

definition sleepBackoff ::
  "'w exec_env \<Rightarrow> exec_config \<Rightarrow> int \<Rightarrow> duration \<Rightarrow> 'w \<Rightarrow> go_error option go \<times> 'w" where
  "sleepBackoff env cfg attempt retryAfter w =
     (case backoff_delay env cfg attempt retryAfter w of
        (Panic, w') \<Rightarrow> (Panic, w')
      | (Ret delay, w') \<Rightarrow> (let (err, w'') = ee_wait env delay w' in (Ret err, w'')))"

section \<open>One target\<close>

text \<open>\<open>report\<close>, with the fields the executor fills in, and the call of \<open>Record\<close> after a failure.\<close>

definition report_attempt ::
  "'w exec_env \<Rightarrow> target \<Rightarrow> int \<Rightarrow> go_error option \<Rightarrow> breaker_state \<Rightarrow> bool \<Rightarrow> 'w \<Rightarrow> 'w" where
  "report_attempt env t attempt err state skipped w =
     ee_report env
       \<lparr>ai_Provider = provider_Name (tg_Provider t), ai_Model = tg_Model t, ai_Attempt = attempt,
        ai_Err = err, ai_BreakerState = state, ai_Skipped = skipped\<rparr> w"

definition record_fault :: "'w exec_env \<Rightarrow> target \<Rightarrow> prov_error option \<Rightarrow> 'w \<Rightarrow> 'w" where
  "record_fault env t pe w =
     (case pe of
        Some p \<Rightarrow> if countsAgainstProvider (pe_Kind p)
                  then ee_record env (provider_Name (tg_Provider t)) False w else w
      | None \<Rightarrow> w)"

function attempt_loop ::
  "'w exec_env \<Rightarrow> exec_config \<Rightarrow> 'w caller \<Rightarrow> ('w \<Rightarrow> bool) \<Rightarrow> target \<Rightarrow> chat_request \<Rightarrow> breaker_state \<Rightarrow> int \<Rightarrow> int
    \<Rightarrow> go_error option \<Rightarrow> 'w \<Rightarrow> go_error option go \<times> 'w" where
  "attempt_loop env cfg call committed t req state attempts attempt lastErr w =
     (if attempt > attempts then (Ret lastErr, w)
      else
        (let (err, w1) = call t req w;
             w2 = report_attempt env t attempt err state False w1
         in case err of
              None \<Rightarrow> (Ret None, ee_record env (provider_Name (tg_Provider t)) True w2)
            | Some e \<Rightarrow>
                (let pe = AsError e; w3 = record_fault env t pe w2
                 in if ee_ctx_err env w3 \<or> committed w3 then (Ret (Some e), w3)
                    else case pe of
                      None \<Rightarrow> (Ret (Some e), w3)
                    | Some p \<Rightarrow>
                        if \<not> Retryable p \<or> attempt = attempts then (Ret (Some e), w3)
                        else case sleepBackoff env cfg attempt (pe_RetryAfter p) w3 of
                          (Panic, w4) \<Rightarrow> (Panic, w4)
                        | (Ret (Some e'), w4) \<Rightarrow> (Ret (Some e'), w4)
                        | (Ret None, w4) \<Rightarrow>
                            attempt_loop env cfg call committed t req state attempts (attempt + 1) (Some e) w4)))"
  by pat_completeness auto

termination attempt_loop
  by (relation "measure (\<lambda>(env, cfg, call, committed, t, req, state, attempts, attempt, lastErr, w).
        nat (attempts + 1 - attempt))") auto

declare attempt_loop.simps [simp del]

definition max_attempts :: "exec_config \<Rightarrow> int" where
  "max_attempts cfg = (if ec_MaxAttempts cfg < 1 then 1 else ec_MaxAttempts cfg)"

definition attemptWithRetries ::
  "'w exec_env \<Rightarrow> exec_config \<Rightarrow> 'w caller \<Rightarrow> ('w \<Rightarrow> bool) \<Rightarrow> target \<Rightarrow> chat_request \<Rightarrow> breaker_state \<Rightarrow> 'w
    \<Rightarrow> go_error option go \<times> 'w" where
  "attemptWithRetries env cfg call committed t req state w =
     attempt_loop env cfg call committed t (req\<lparr>cr_ResolvedModel := tg_Model t\<rparr>) state (max_attempts cfg) 1 None w"

section \<open>All targets failed\<close>

fun join_best :: "go_error \<Rightarrow> int \<Rightarrow> go_error list \<Rightarrow> go_error" where
  "join_best best bestRank [] = best"
| "join_best best bestRank (err # errs) =
     (case AsError err of
        Some pe \<Rightarrow>
          if kindRank (pe_Kind pe) > bestRank then join_best err (kindRank (pe_Kind pe)) errs
          else join_best best bestRank errs
      | None \<Rightarrow> join_best best bestRank errs)"

definition joinErrors :: "go_error list \<Rightarrow> go_error" where
  "joinErrors errs =
     (case errs of
        [] \<Rightarrow> Sentinel ErrNoTargets
      | [e] \<Rightarrow> e
      | e # _ \<Rightarrow>
          (let best = join_best e (-1) errs;
               msg = ''all providers failed: '' @ Join ''; '' (map error_text errs)
           in case AsError best of
                Some pe \<Rightarrow>
                  ProviderError (PError (pe_Kind pe) (pe_Provider pe) (pe_Status pe) msg 0 (Some best))
              | None \<Rightarrow> ErrorText msg None))"

section \<open>Failover\<close>

fun do_loop ::
  "'w exec_env \<Rightarrow> exec_config \<Rightarrow> 'w caller \<Rightarrow> ('w \<Rightarrow> bool) \<Rightarrow> chat_request \<Rightarrow> target list \<Rightarrow> go_error list \<Rightarrow> 'w
    \<Rightarrow> (target option \<times> go_error option) go \<times> 'w" where
  "do_loop env cfg call committed req [] errs w = (Ret (None, Some (joinErrors errs)), w)"
| "do_loop env cfg call committed req (t # ts) errs w =
     (let name = provider_Name (tg_Provider t);
          ((allowed, state), w1) = ee_allow env name w
      in if \<not> allowed then
           do_loop env cfg call committed req ts
             (errs @ [ProviderError (Errorf KindUnavailable name ''circuit open'')])
             (report_attempt env t 0 None state True w1)
         else case attemptWithRetries env cfg call committed t req state w1 of
           (Panic, w2) \<Rightarrow> (Panic, w2)
         | (Ret None, w2) \<Rightarrow> (Ret (Some t, None), w2)
         | (Ret (Some e), w2) \<Rightarrow>
             if ee_ctx_err env w2 \<or> committed w2 then (Ret (Some t, Some e), w2)
             else if (case AsError e of Some pe \<Rightarrow> \<not> Failoverable pe | None \<Rightarrow> False)
             then (Ret (Some t, Some e), w2)
             else do_loop env cfg call committed req ts (errs @ [e]) w2)"

definition exec_do ::
  "'w exec_env \<Rightarrow> exec_config \<Rightarrow> 'w caller \<Rightarrow> ('w \<Rightarrow> bool) \<Rightarrow> chat_request \<Rightarrow> target list \<Rightarrow> 'w
    \<Rightarrow> (target option \<times> go_error option) go \<times> 'w" where
  "exec_do env cfg call committed req targets w =
     (if targets = [] then (Ret (None, Some (Sentinel ErrNoTargets)), w)
      else do_loop env cfg call committed req targets [] w)"

section \<open>Entry points\<close>

text \<open>
  \<open>lift_env\<close> runs an environment on a world with a closure variable beside it: the \<open>resp\<close> of
  \<open>Chat\<close> and the \<open>started\<close> flag of \<open>ChatStream\<close> are the second component.
\<close>

definition lift_env :: "'w exec_env \<Rightarrow> ('w \<times> 'x) exec_env" where
  "lift_env env =
     \<lparr>ee_ctx_err = (\<lambda>(w, x). ee_ctx_err env w),
      ee_wait = (\<lambda>d (w, x). let (e, w') = ee_wait env d w in (e, (w', x))),
      ee_int63n = (\<lambda>n (w, x). let (i, w') = ee_int63n env n w in (i, (w', x))),
      ee_allow = (\<lambda>p (w, x). let (a, w') = ee_allow env p w in (a, (w', x))),
      ee_record = (\<lambda>p ok (w, x). (ee_record env p ok w, x)),
      ee_report = (\<lambda>i (w, x). (ee_report env i w, x))\<rparr>"

definition exec_Chat ::
  "'w exec_env \<Rightarrow> exec_config
    \<Rightarrow> (target \<Rightarrow> chat_request \<Rightarrow> 'w \<Rightarrow> (go_error + chat_response) \<times> 'w)
    \<Rightarrow> target list \<Rightarrow> chat_request \<Rightarrow> 'w
    \<Rightarrow> (chat_response option \<times> target option \<times> go_error option) go \<times> 'w" where
  "exec_Chat env cfg chat targets req w =
     (let call = (\<lambda>t r (w, resp).
            case chat t r w of
              (Inl e, w') \<Rightarrow> (Some e, (w', resp))
            | (Inr out, w') \<Rightarrow> (None, (w', Some out)))
      in case exec_do (lift_env env) cfg call (\<lambda>_. False) req targets (w, None) of
           (Panic, (w', resp)) \<Rightarrow> (Panic, w')
         | (Ret (t, e), (w', resp)) \<Rightarrow> (Ret (resp, t, e), w'))"

text \<open>
  A provider's stream is data: the chunks the upstream body decodes to and the error, if any,
  that ends it. \<open>feed\<close> is the loop every provider runs over it: the callback's own error stops the
  stream and is returned as it is (\<open>return err // caller aborted\<close>).
\<close>

fun feed :: "(chat_chunk \<Rightarrow> 'w \<Rightarrow> go_error option \<times> 'w) \<Rightarrow> chat_chunk list \<Rightarrow> go_error option
    \<Rightarrow> 'w \<Rightarrow> go_error option \<times> 'w" where
  "feed onChunk [] fin w = (fin, w)"
| "feed onChunk (c # cs) fin w =
     (case onChunk c w of
        (Some e, w') \<Rightarrow> (Some e, w')
      | (None, w') \<Rightarrow> feed onChunk cs fin w')"

type_synonym 'w opener =
  "target \<Rightarrow> chat_request \<Rightarrow> 'w \<Rightarrow> (chat_chunk list \<times> go_error option) \<times> 'w"

text \<open>The callback \<open>ChatStream\<close> passes down: \<open>started = true; return onChunk(c)\<close>.\<close>

definition counted :: "(chat_chunk \<Rightarrow> 'w \<Rightarrow> go_error option \<times> 'w) \<Rightarrow> chat_chunk \<Rightarrow> 'w \<times> bool
    \<Rightarrow> go_error option \<times> ('w \<times> bool)" where
  "counted onChunk c = (\<lambda>(w, _). let (e, w') = onChunk c w in (e, (w', True)))"

definition stream_call ::
  "'w opener \<Rightarrow> (chat_chunk \<Rightarrow> 'w \<Rightarrow> go_error option \<times> 'w) \<Rightarrow> ('w \<times> bool) caller" where
  "stream_call open_stream onChunk t r = (\<lambda>(w, started).
     let ((cs, fin), w') = open_stream t r w
     in feed (counted onChunk) cs fin (w', started))"

definition exec_ChatStream ::
  "'w exec_env \<Rightarrow> exec_config \<Rightarrow> 'w opener \<Rightarrow> target list \<Rightarrow> chat_request
    \<Rightarrow> (chat_chunk \<Rightarrow> 'w \<Rightarrow> go_error option \<times> 'w) \<Rightarrow> 'w
    \<Rightarrow> (target option \<times> go_error option) go \<times> 'w" where
  "exec_ChatStream env cfg open_stream targets req onChunk w =
     (case exec_do (lift_env env) cfg (stream_call open_stream onChunk) snd req targets (w, False) of
        (res, (w', started)) \<Rightarrow> (res, w'))"

section \<open>Tracing\<close>

text \<open>
  \<open>traced env\<close> logs what the executor does in a list beside the world. The log decides nothing:
  a traced run has the result and the final world of the run it traces.
\<close>

datatype exec_event =
    EAllow string bool breaker_state
  | ECall target chat_request "go_error option"
  | EReport attempt_info
  | ERecord string bool
  | EWait duration "go_error option"
  | EOpen target "chat_chunk list" "go_error option"
  | EChunk chat_chunk

definition traced :: "'w exec_env \<Rightarrow> ('w \<times> exec_event list) exec_env" where
  "traced env =
     \<lparr>ee_ctx_err = (\<lambda>(w, l). ee_ctx_err env w),
      ee_wait = (\<lambda>d (w, l). let (e, w') = ee_wait env d w in (e, (w', l @ [EWait d e]))),
      ee_int63n = (\<lambda>n (w, l). let (i, w') = ee_int63n env n w in (i, (w', l))),
      ee_allow = (\<lambda>p (w, l). let ((a, s), w') = ee_allow env p w in ((a, s), (w', l @ [EAllow p a s]))),
      ee_record = (\<lambda>p ok (w, l). (ee_record env p ok w, l @ [ERecord p ok])),
      ee_report = (\<lambda>i (w, l). (ee_report env i w, l @ [EReport i]))\<rparr>"

definition traced_call :: "'w caller \<Rightarrow> ('w \<times> exec_event list) caller" where
  "traced_call call t r = (\<lambda>(w, l). let (e, w') = call t r w in (e, (w', l @ [ECall t r e])))"

definition traced_open :: "'w opener \<Rightarrow> ('w \<times> exec_event list) opener" where
  "traced_open open_stream t r = (\<lambda>(w, l).
     let ((cs, fin), w') = open_stream t r w in ((cs, fin), (w', l @ [EOpen t cs fin])))"

definition traced_chunk :: "(chat_chunk \<Rightarrow> 'w \<Rightarrow> go_error option \<times> 'w)
    \<Rightarrow> chat_chunk \<Rightarrow> 'w \<times> exec_event list \<Rightarrow> go_error option \<times> ('w \<times> exec_event list)" where
  "traced_chunk onChunk c = (\<lambda>(w, l). let (e, w') = onChunk c w in (e, (w', l @ [EChunk c])))"

text \<open>The log of a traced \<open>do\<close>, and its outcome.\<close>

definition do_traced :: "'w exec_env \<Rightarrow> exec_config \<Rightarrow> 'w caller \<Rightarrow> ('w \<Rightarrow> bool) \<Rightarrow> chat_request
    \<Rightarrow> target list \<Rightarrow> 'w \<Rightarrow> (target option \<times> go_error option) go \<times> ('w \<times> exec_event list)" where
  "do_traced env cfg call committed req targets w =
     exec_do (traced env) cfg (traced_call call) (\<lambda>(w, l). committed w) req targets (w, [])"

section \<open>The failover protocol\<close>

text \<open>
  The protocol as two trace grammars. \<open>attempt_trace\<close> is what happens against one admitted target
  from attempt \<open>a\<close> on; \<open>failover_trace\<close> is what happens over the targets left, given the errors
  collected so far.
\<close>

definition report_of :: "target \<Rightarrow> breaker_state \<Rightarrow> int \<Rightarrow> go_error option \<Rightarrow> bool \<Rightarrow> exec_event" where
  "report_of t st a e skipped = EReport
     \<lparr>ai_Provider = provider_Name (tg_Provider t), ai_Model = tg_Model t, ai_Attempt = a, ai_Err = e,
      ai_BreakerState = st, ai_Skipped = skipped\<rparr>"

definition fault_events :: "target \<Rightarrow> go_error \<Rightarrow> exec_event list" where
  "fault_events t e =
     (case AsError e of
        Some p \<Rightarrow> if countsAgainstProvider (pe_Kind p)
                  then [ERecord (provider_Name (tg_Provider t)) False] else []
      | None \<Rightarrow> [])"

definition failed_call :: "target \<Rightarrow> chat_request \<Rightarrow> breaker_state \<Rightarrow> int \<Rightarrow> go_error \<Rightarrow> exec_event list" where
  "failed_call t r st a e = ECall t r (Some e) # report_of t st a (Some e) False # fault_events t e"

inductive attempt_trace :: "exec_config \<Rightarrow> target \<Rightarrow> chat_request \<Rightarrow> breaker_state \<Rightarrow> int
    \<Rightarrow> exec_event list \<Rightarrow> go_error option go \<Rightarrow> bool"
  for cfg t r st where
  at_success: "a \<le> max_attempts cfg \<Longrightarrow>
     attempt_trace cfg t r st a
       [ECall t r None, report_of t st a None False, ERecord (provider_Name (tg_Provider t)) True]
       (Ret None)"
| at_final: "a \<le> max_attempts cfg \<Longrightarrow>
     attempt_trace cfg t r st a (failed_call t r st a e) (Ret (Some e))"
| at_panic: "\<lbrakk>a < max_attempts cfg; AsError e = Some p; Retryable p\<rbrakk> \<Longrightarrow>
     attempt_trace cfg t r st a (failed_call t r st a e) Panic"
| at_cancelled: "\<lbrakk>a < max_attempts cfg; AsError e = Some p; Retryable p; d \<le> ec_MaxBackoff cfg\<rbrakk> \<Longrightarrow>
     attempt_trace cfg t r st a (failed_call t r st a e @ [EWait d (Some e')]) (Ret (Some e'))"
| at_retry: "\<lbrakk>a < max_attempts cfg; AsError e = Some p; Retryable p; d \<le> ec_MaxBackoff cfg;
      attempt_trace cfg t r st (a + 1) es res\<rbrakk> \<Longrightarrow>
     attempt_trace cfg t r st a (failed_call t r st a e @ EWait d None # es) res"

definition circuit_open :: "target \<Rightarrow> go_error" where
  "circuit_open t =
     ProviderError (Errorf KindUnavailable (provider_Name (tg_Provider t)) ''circuit open'')"

definition call_request :: "chat_request \<Rightarrow> target \<Rightarrow> chat_request" where
  "call_request req t = req\<lparr>cr_ResolvedModel := tg_Model t\<rparr>"

inductive failover_trace :: "exec_config \<Rightarrow> chat_request \<Rightarrow> go_error list \<Rightarrow> target list
    \<Rightarrow> exec_event list \<Rightarrow> (target option \<times> go_error option) go \<Rightarrow> bool"
  for cfg req where
  ft_exhausted: "failover_trace cfg req errs [] [] (Ret (None, Some (joinErrors errs)))"
| ft_skip: "failover_trace cfg req (errs @ [circuit_open t]) ts es res \<Longrightarrow>
     failover_trace cfg req errs (t # ts)
       (EAllow (provider_Name (tg_Provider t)) False st # report_of t st 0 None True # es) res"
| ft_served: "attempt_trace cfg t (call_request req t) st 1 es (Ret None) \<Longrightarrow>
     failover_trace cfg req errs (t # ts) (EAllow (provider_Name (tg_Provider t)) True st # es)
       (Ret (Some t, None))"
| ft_stop: "attempt_trace cfg t (call_request req t) st 1 es (Ret (Some e)) \<Longrightarrow>
     failover_trace cfg req errs (t # ts) (EAllow (provider_Name (tg_Provider t)) True st # es)
       (Ret (Some t, Some e))"
| ft_panic: "attempt_trace cfg t (call_request req t) st 1 es Panic \<Longrightarrow>
     failover_trace cfg req errs (t # ts) (EAllow (provider_Name (tg_Provider t)) True st # es) Panic"
| ft_next: "\<lbrakk>attempt_trace cfg t (call_request req t) st 1 es (Ret (Some e));
      \<And>p. AsError e = Some p \<Longrightarrow> Failoverable p;
      failover_trace cfg req (errs @ [e]) ts es' res\<rbrakk> \<Longrightarrow>
     failover_trace cfg req errs (t # ts)
       (EAllow (provider_Name (tg_Provider t)) True st # es @ es') res"


subsection \<open>Every run follows the protocol\<close>

lemma traced_simps [frame_simps]:
  "ee_ctx_err (traced env) (w, l) = ee_ctx_err env w"
  "ee_wait (traced env) d (w, l) =
     (fst (ee_wait env d w), (snd (ee_wait env d w), l @ [EWait d (fst (ee_wait env d w))]))"
  "ee_int63n (traced env) n (w, l) = (fst (ee_int63n env n w), (snd (ee_int63n env n w), l))"
  "ee_allow (traced env) p (w, l) =
     (fst (ee_allow env p w),
      (snd (ee_allow env p w),
       l @ [EAllow p (fst (fst (ee_allow env p w))) (snd (fst (ee_allow env p w)))]))"
  "ee_record (traced env) p ok (w, l) = (ee_record env p ok w, l @ [ERecord p ok])"
  "ee_report (traced env) i (w, l) = (ee_report env i w, l @ [EReport i])"
  "traced_call call t r (w, l) =
     (fst (call t r w), (snd (call t r w), l @ [ECall t r (fst (call t r w))]))"
  by (simp_all add: traced_def traced_call_def split_beta)

lemma sleepBackoff_traced:
  assumes "sleepBackoff (traced env) cfg a ra (w, l) = (res, (w', l'))"
  shows "(res = Panic \<and> l' = l) \<or>
         (\<exists>d e. d \<le> ec_MaxBackoff cfg \<and> res = Ret e \<and> l' = l @ [EWait d e])"
  using assms
  by (auto simp: sleepBackoff_def backoff_delay_def Let_def frame_simps split: if_splits go.splits)

lemma report_traced [frame_simps]:
  "report_attempt (traced env) t a e st sk (w, l) =
     (report_attempt env t a e st sk w, l @ [report_of t st a e sk])"
  by (simp add: report_attempt_def report_of_def frame_simps)

lemma record_fault_traced [frame_simps]:
  "record_fault (traced env) t (AsError e) (w, l) =
     (record_fault env t (AsError e) w, l @ fault_events t e)"
  by (simp add: record_fault_def fault_events_def frame_simps split: option.split)

text \<open>One attempt that fails, in one equation.\<close>

lemma attempt_loop_failed:
  assumes "a \<le> n" "call t r w = (Some e, w1)"
    "w3 = record_fault env t (AsError e) (report_attempt env t a (Some e) st False w1)"
  shows "attempt_loop env cfg call com t r st n a le w =
    (if ee_ctx_err env w3 \<or> com w3 \<or> AsError e = None \<or> \<not> Retryable (the (AsError e)) \<or> a = n
     then (Ret (Some e), w3)
     else case sleepBackoff env cfg a (pe_RetryAfter (the (AsError e))) w3 of
            (Panic, w4) \<Rightarrow> (Panic, w4)
          | (Ret (Some e'), w4) \<Rightarrow> (Ret (Some e'), w4)
          | (Ret None, w4) \<Rightarrow> attempt_loop env cfg call com t r st n (a + 1) (Some e) w4)"
  using assms by (subst attempt_loop.simps) (auto simp: Let_def split: option.split)

lemma attempt_loop_succeeded:
  assumes "a \<le> n" "call t r w = (None, w1)"
  shows "attempt_loop env cfg call com t r st n a le w =
    (Ret None, ee_record env (provider_Name (tg_Provider t)) True
                 (report_attempt env t a None st False w1))"
  using assms by (subst attempt_loop.simps) (auto simp: Let_def)

lemma attempt_loop_traced:
  assumes "attempt_loop (traced env) cfg (traced_call call) com t r st (max_attempts cfg) a le (w, l)
      = (res, (w', l'))" and "a \<le> max_attempts cfg"
  shows "\<exists>es. l' = l @ es \<and> attempt_trace cfg t r st a es res"
  using assms
proof (induction "nat (max_attempts cfg - a)" arbitrary: a le w l rule: less_induct)
  case less
  obtain e w1 where c: "call t r w = (e, w1)" by (cases "call t r w") auto
  then have tc: "traced_call call t r (w, l) = (e, (w1, l @ [ECall t r e]))" by (simp add: frame_simps)
  show ?case
  proof (cases e)
    case None
    have "l' = l @ [ECall t r None, report_of t st a None False,
        ERecord (provider_Name (tg_Provider t)) True] \<and> res = Ret None"
      using less.prems attempt_loop_succeeded[where call = "traced_call call" and t = t and r = r and w = "(w, l)",
          OF less.prems(2) tc[unfolded None]]
      by (auto simp: frame_simps)
    then show ?thesis using attempt_trace.at_success[OF less.prems(2)] by blast
  next
    case (Some e)
    let ?w2 = "record_fault env t (AsError e) (report_attempt env t a (Some e) st False w1)"
    let ?l2 = "l @ failed_call t r st a e"
    have w2: "(?w2, ?l2) = record_fault (traced env) t (AsError e)
        (report_attempt (traced env) t a (Some e) st False (w1, l @ [ECall t r (Some e)]))"
      by (simp add: frame_simps failed_call_def)
    note step = attempt_loop_failed[where call = "traced_call call" and t = t and r = r and w = "(w, l)",
      OF less.prems(2) tc[unfolded Some] w2, of cfg com le]
    show ?thesis
    proof (cases "ee_ctx_err env ?w2 \<or> com (?w2, ?l2) \<or> AsError e = None
        \<or> \<not> Retryable (the (AsError e)) \<or> a = max_attempts cfg")
      case True
      then have "res = Ret (Some e) \<and> l' = ?l2"
        using step less.prems(1) by (auto simp: frame_simps)
      then show ?thesis using less.prems(2) attempt_trace.at_final by blast
    next
      case False
      then obtain p where p: "AsError e = Some p" "Retryable p" and a: "a < max_attempts cfg"
        using less.prems(2) by auto
      obtain sr w3 l3 where sb: "sleepBackoff (traced env) cfg a (pe_RetryAfter p) (?w2, ?l2) = (sr, (w3, l3))"
        by (metis surj_pair)
      have rest: "(case sr of Panic \<Rightarrow> (Panic, (w3, l3)) | Ret None \<Rightarrow>
            attempt_loop (traced env) cfg (traced_call call) com t r st (max_attempts cfg) (a + 1) (Some e) (w3, l3)
          | Ret (Some e') \<Rightarrow> (Ret (Some e'), (w3, l3))) = (res, (w', l'))"
        using step less.prems(1) False p(1) sb by (auto simp: frame_simps split: go.splits option.splits)
      show ?thesis
      proof (cases sr)
        case Panic
        then have "l' = ?l2 \<and> res = Panic" using rest sleepBackoff_traced[OF sb] by auto
        then show ?thesis using attempt_trace.at_panic[OF a p] by blast
      next
        case (Ret x)
        then obtain d where d: "d \<le> ec_MaxBackoff cfg" and l3: "l3 = ?l2 @ [EWait d x]"
          using sleepBackoff_traced[OF sb] by auto
        show ?thesis
        proof (cases x)
          case (Some e')
          then have "res = Ret (Some e') \<and> l' = l @ (failed_call t r st a e @ [EWait d (Some e')])"
            using rest Ret l3 by auto
          then show ?thesis using attempt_trace.at_cancelled[OF a p d] by blast
        next
          case None
          then obtain es where "l' = l3 @ es" "attempt_trace cfg t r st (a + 1) es res"
            using rest Ret less.hyps[of "a + 1" "Some e" w3 l3] a by auto
          then have "l' = l @ (failed_call t r st a e @ EWait d None # es)
              \<and> attempt_trace cfg t r st a (failed_call t r st a e @ EWait d None # es) res"
            using attempt_trace.at_retry[OF a p d] l3 None by simp
          then show ?thesis by blast
        qed
      qed
    qed
  qed
qed

lemma do_loop_traced:
  assumes "do_loop (traced env) cfg (traced_call call) com req ts errs (w, l) = (res, (w', l'))"
  shows "\<exists>es. l' = l @ es \<and> failover_trace cfg req errs ts es res"
  using assms
proof (induction ts arbitrary: errs w l)
  case Nil
  then show ?case using failover_trace.ft_exhausted by auto
next
  case (Cons t ts)
  let ?name = "provider_Name (tg_Provider t)"
  obtain ok st w1 where al: "ee_allow env ?name w = ((ok, st), w1)" by (metis surj_pair)
  show ?case
  proof (cases ok)
    case False
    then show ?thesis using Cons.prems al Cons.IH
      by (fastforce simp: frame_simps Let_def circuit_open_def[symmetric] intro: failover_trace.ft_skip)
  next
    case True
    let ?l1 = "l @ [EAllow ?name True st]"
    obtain ar w2 l2 where at: "attemptWithRetries (traced env) cfg (traced_call call) com t req st (w1, ?l1)
        = (ar, (w2, l2))" by (metis surj_pair)
    have "1 \<le> max_attempts cfg" by (simp add: max_attempts_def)
    with attempt_loop_traced at obtain es where es: "l2 = ?l1 @ es"
      "attempt_trace cfg t (call_request req t) st 1 es ar"
      by (fastforce simp: attemptWithRetries_def call_request_def)
    note run = Cons.prems[simplified do_loop.simps Let_def traced_simps al fst_conv snd_conv True
        prod.case at not_True_eq_False if_False]
    show ?thesis
    proof (cases ar)
      case Panic
      then show ?thesis using run es failover_trace.ft_panic by fastforce
    next
      case (Ret x)
      show ?thesis
      proof (cases x)
        case None
        then show ?thesis using run es Ret failover_trace.ft_served by fastforce
      next
        case (Some e)
        show ?thesis
        proof (cases "ee_ctx_err env w2 \<or> com (w2, l2) \<or> (case AsError e of Some pe \<Rightarrow> \<not> Failoverable pe | None \<Rightarrow> False)")
          case True
          then have "res = Ret (Some t, Some e) \<and> l' = l2"
            using run Ret Some by (auto simp: frame_simps split: if_splits)
          then show ?thesis using es Ret Some failover_trace.ft_stop by fastforce
        next
          case False
          then have "do_loop (traced env) cfg (traced_call call) com req ts (errs @ [e]) (w2, l2) = (res, (w', l'))"
            using run Ret Some by (auto simp: frame_simps split: if_splits)
          from Cons.IH[OF this] obtain es' where "l' = l2 @ es'" "failover_trace cfg req (errs @ [e]) ts es' res"
            by blast
          then show ?thesis using es Ret Some False failover_trace.ft_next[of cfg t req st es e errs ts es' res]
            by fastforce
        qed
      qed
    qed
  qed
qed


subsection \<open>What the log shows\<close>

fun is_call :: "exec_event \<Rightarrow> bool" where
  "is_call (ECall t r e) = True"
| "is_call _ = False"

definition n_calls :: "exec_event list \<Rightarrow> int" where
  "n_calls l = int (length (filter is_call l))"

fun waits_within :: "duration \<Rightarrow> exec_event \<Rightarrow> bool" where
  "waits_within m (EWait d e) = (d \<le> m)"
| "waits_within m _ = True"

text \<open>
  Two monitors. \<open>admitted\<close> lets a call or a record of a provider through only while that provider is
  the one the breaker admitted last. \<open>accounted\<close> checks that a call whose outcome says something
  about the provider's health is recorded exactly once before the next call, with that outcome, and
  that no other outcome is recorded.
\<close>

fun admitted :: "string option \<Rightarrow> exec_event list \<Rightarrow> bool" where
  "admitted cur [] = True"
| "admitted cur (EAllow p ok st # es) = admitted (if ok then Some p else None) es"
| "admitted cur (ECall t r e # es) = (cur = Some (provider_Name (tg_Provider t)) \<and> admitted cur es)"
| "admitted cur (ERecord p ok # es) = (cur = Some p \<and> admitted cur es)"
| "admitted cur (_ # es) = admitted cur es"

definition owed :: "(string \<times> go_error option) option \<Rightarrow> bool" where
  "owed pend =
     (case pend of
        None \<Rightarrow> False
      | Some (p, None) \<Rightarrow> True
      | Some (p, Some e) \<Rightarrow>
          (case AsError e of Some pe \<Rightarrow> countsAgainstProvider (pe_Kind pe) | None \<Rightarrow> False))"

fun accounted :: "(string \<times> go_error option) option \<Rightarrow> exec_event list \<Rightarrow> bool" where
  "accounted pend [] = (\<not> owed pend)"
| "accounted pend (ECall t r e # es) =
     (\<not> owed pend \<and> accounted (Some (provider_Name (tg_Provider t), e)) es)"
| "accounted pend (ERecord p ok # es) =
     (owed pend \<and> fst (the pend) = p \<and> (ok \<longleftrightarrow> snd (the pend) = None) \<and> accounted None es)"
| "accounted pend (_ # es) = accounted pend es"

fun addressed :: "chat_request \<Rightarrow> target list \<Rightarrow> exec_event \<Rightarrow> bool" where
  "addressed req ts (ECall t r e) = (t \<in> set ts \<and> r = call_request req t)"
| "addressed req ts _ = True"

fun asked :: "exec_event list \<Rightarrow> string list" where
  "asked [] = []"
| "asked (EAllow p ok st # es) = p # asked es"
| "asked (_ # es) = asked es"

fun last_call :: "exec_event list \<Rightarrow> (target \<times> go_error option) option" where
  "last_call [] = None"
| "last_call (ECall t r e # es) = (case last_call es of None \<Rightarrow> Some (t, e) | Some x \<Rightarrow> Some x)"
| "last_call (_ # es) = last_call es"

lemma asked_append [simp]: "asked (xs @ ys) = asked xs @ asked ys"
  by (induction xs rule: asked.induct) auto

lemma last_call_append [simp]:
  "last_call (xs @ ys) = (case last_call ys of None \<Rightarrow> last_call xs | Some x \<Rightarrow> Some x)"
  by (induction xs rule: last_call.induct) (auto split: option.splits)

lemma n_calls_simps [simp]:
  "n_calls [] = 0" "n_calls (xs @ ys) = n_calls xs + n_calls ys"
  "n_calls (ECall t r e # es) = 1 + n_calls es"
  "n_calls (EAllow p ok st # es) = n_calls es" "n_calls (EReport i # es) = n_calls es"
  "n_calls (ERecord p ok # es) = n_calls es" "n_calls (EWait d e' # es) = n_calls es"
  by (simp_all add: n_calls_def)

lemma n_calls_nonneg [simp]: "0 \<le> n_calls l"
  by (simp add: n_calls_def)

lemma failed_call_log [simp]:
  "n_calls (failed_call t r st a e) = 1" "asked (failed_call t r st a e) = []"
  "last_call (failed_call t r st a e) = Some (t, Some e)"
  "list_all (waits_within m) (failed_call t r st a e)"
  "admitted (Some (provider_Name (tg_Provider t))) (failed_call t r st a e @ es)
     = admitted (Some (provider_Name (tg_Provider t))) es"
  by (auto simp: failed_call_def fault_events_def report_of_def split: option.split)

lemma failed_call_accounted:
  "accounted pend (failed_call t r st a e @ es) \<longleftrightarrow> \<not> owed pend \<and>
     (if fault_events t e = [] then accounted (Some (provider_Name (tg_Provider t), Some e)) es
      else accounted None es)"
  by (auto simp: failed_call_def fault_events_def report_of_def owed_def split: option.split)

lemma not_owed_fault: "fault_events t e = [] \<Longrightarrow> \<not> owed (Some (p, Some e))"
  by (auto simp: fault_events_def owed_def split: option.splits if_splits)

lemma owed_None [simp]: "\<not> owed None"
  by (simp add: owed_def)

lemma accounted_not_owed: "\<not> owed pend \<Longrightarrow> accounted pend es = accounted None es"
proof (induction es)
  case (Cons ev es)
  then show ?case by (cases ev) auto
qed simp

lemma failed_call_settled:
  "accounted None (failed_call t r st a e @ es) = accounted None es"
  by (cases "fault_events t e = []")
     (simp_all add: failed_call_accounted accounted_not_owed[OF not_owed_fault])

lemma attempt_trace_log:
  assumes "attempt_trace cfg t r st a es res"
  shows "n_calls es \<le> max_attempts cfg + 1 - a" "1 \<le> n_calls es" "asked es = []"
    "list_all (waits_within (ec_MaxBackoff cfg)) es"
  using assms by (induction rule: attempt_trace.induct) (auto simp: report_of_def)

lemma attempt_trace_monitors:
  assumes "attempt_trace cfg t r st a es res"
  shows "admitted (Some (provider_Name (tg_Provider t))) (es @ es')
       = admitted (Some (provider_Name (tg_Provider t))) es'"
    "accounted None (es @ es') = accounted None es'"
  using assms
  by (induction rule: attempt_trace.induct) (auto simp: report_of_def owed_def failed_call_settled)

lemma attempt_trace_served:
  "attempt_trace cfg t r st a es (Ret None) \<Longrightarrow> last_call es = Some (t, None)"
  by (induction es "Ret None :: go_error option go" rule: attempt_trace.induct)
     (auto simp: report_of_def)

lemma attempt_trace_addressed:
  assumes "attempt_trace cfg t (call_request req t) st a es res" "t \<in> set ts"
  shows "list_all (addressed req ts) es"
  using assms
  by (induction rule: attempt_trace.induct)
     (auto simp: failed_call_def fault_events_def report_of_def split: option.split)

lemma one_target_calls:
  assumes "attempt_trace cfg t r st 1 es res"
  shows "n_calls es \<le> int (Suc k) * max_attempts cfg"
proof -
  have "0 \<le> int k * max_attempts cfg" by (simp add: max_attempts_def)
  then show ?thesis using attempt_trace_log(1)[OF assms] by (simp add: algebra_simps)
qed

lemma failover_trace_calls:
  "failover_trace cfg req errs ts es res \<Longrightarrow> n_calls es \<le> int (length ts) * max_attempts cfg"
proof (induction rule: failover_trace.induct)
  case (ft_skip errs t ts es res st)
  have "1 \<le> max_attempts cfg" by (simp add: max_attempts_def)
  then show ?case using ft_skip by (simp add: report_of_def algebra_simps)
next
  case (ft_next t st es e errs ts es' res)
  then show ?case using attempt_trace_log(1)[OF ft_next(1)] by (simp add: algebra_simps)
qed (simp_all add: one_target_calls del: of_nat_Suc)

lemma failover_trace_monitors:
  assumes "failover_trace cfg req errs ts es res"
  shows "list_all (waits_within (ec_MaxBackoff cfg)) es" "admitted cur es" "accounted None es"
  using assms
  by (induction arbitrary: cur rule: failover_trace.induct)
     (use attempt_trace_log(4) attempt_trace_monitors attempt_trace_monitors[where es' = "[]"]
      in \<open>auto simp: report_of_def\<close>)

lemma failover_trace_addressed:
  "failover_trace cfg req errs ts es res \<Longrightarrow> set ts \<subseteq> set ts0 \<Longrightarrow> list_all (addressed req ts0) es"
  by (induction rule: failover_trace.induct)
     (auto simp: report_of_def dest: attempt_trace_addressed[of _ _ _ _ _ _ _ ts0])

lemma failover_trace_served:
  "failover_trace cfg req errs ts es (Ret (Some t, None)) \<Longrightarrow>
     last_call es = Some (t, None) \<and> t \<in> set ts"
  by (induction errs ts es "Ret (Some t, None) :: (target option \<times> go_error option) go"
      rule: failover_trace.induct)
     (auto simp: report_of_def dest: attempt_trace_served)

lemma failover_trace_exhausted:
  "failover_trace cfg req errs ts es (Ret (None, e)) \<Longrightarrow>
     asked es = map (\<lambda>t. provider_Name (tg_Provider t)) ts \<and>
     (\<exists>errs'. length errs' = length ts \<and> e = Some (joinErrors (errs @ errs')))"
proof (induction errs ts es "Ret (None, e) :: (target option \<times> go_error option) go"
    rule: failover_trace.induct)
  case (ft_skip errs t ts es st)
  then obtain errs' where "length errs' = length ts" "e = Some (joinErrors (errs @ (circuit_open t # errs')))"
    by auto
  then show ?case using ft_skip by (auto simp: report_of_def intro!: exI[of _ "circuit_open t # errs'"])
next
  case (ft_next t st es e' errs ts es')
  then obtain errs' where "length errs' = length ts" "e = Some (joinErrors (errs @ (e' # errs')))"
    by auto
  then show ?case using ft_next attempt_trace_log(3)[OF ft_next(1)]
    by (auto intro!: exI[of _ "e' # errs'"])
qed auto


subsection \<open>The properties of \<open>do\<close>\<close>

lemma do_traced_protocol:
  assumes "targets \<noteq> []"
  shows "failover_trace cfg req [] targets (snd (snd (do_traced env cfg call com req targets w)))
           (fst (do_traced env cfg call com req targets w))"
proof -
  obtain res w' l where run: "do_traced env cfg call com req targets w = (res, (w', l))"
    by (metis surj_pair)
  then show ?thesis
    using do_loop_traced[of env cfg call _ req targets "[]" w "[]" res w' l] assms
    by (auto simp: do_traced_def exec_do_def)
qed

lemma do_traced_no_targets [simp]:
  "do_traced env cfg call com req [] w = (Ret (None, Some (Sentinel ErrNoTargets)), (w, []))"
  by (simp add: do_traced_def exec_do_def)

text \<open>A scripted environment: the world is the list of outcomes of the calls to come.\<close>

definition script_env :: "go_error option list exec_env" where
  "script_env =
     \<lparr>ee_ctx_err = (\<lambda>w. False), ee_wait = (\<lambda>d w. (None, w)), ee_int63n = (\<lambda>n w. (n - 1, w)),
      ee_allow = (\<lambda>p w. ((p \<noteq> ''down'', if p \<noteq> ''down'' then StateClosed else StateOpen), w)),
      ee_record = (\<lambda>p ok w. w), ee_report = (\<lambda>i w. w)\<rparr>"

definition script_call :: "go_error option list caller" where
  "script_call t r w = (case w of [] \<Rightarrow> (None, []) | e # w' \<Rightarrow> (e, w'))"

definition default_exec :: exec_config where
  "default_exec = \<lparr>ec_MaxAttempts = 3, ec_BaseBackoff = 100 * Millisecond, ec_MaxBackoff = 2 * Second\<rparr>"

definition demo_target :: "string \<Rightarrow> target" where
  "demo_target n = \<lparr>tg_Provider = Mock (mock_of n [] 384), tg_Model = ''m'', tg_Alias = ''a''\<rparr>"

definition demo_request :: chat_request where
  "demo_request =
     \<lparr>cr_Model = ''a'', cr_Messages = [\<lparr>msg_Role = ''user'', msg_Content = ''hi'', msg_Name = ''''\<rparr>],
      cr_Temperature = None, cr_TopP = None, cr_MaxTokens = None, cr_Stream = False, cr_Stop = [],
      cr_User = '''', cr_N = None, cr_ResolvedModel = ''''\<rparr>"

definition fault :: "kind \<Rightarrow> go_error" where
  "fault k = ProviderError (Errorf k ''p'' ''failed'')"

lemmas script_simps = script_env_def script_call_def default_exec_def demo_target_def
  fault_def Errorf_def mock_of_def duration_defs



text \<open>
  C29. The call budget: whatever the providers answer, a request makes at most
  \<open>length targets * max 1 MaxAttempts\<close> provider calls, every one of them to a target of the routed
  list and with that target's resolved model, the caller's request being otherwise unchanged; and no
  wait between attempts exceeds \<open>MaxBackoff\<close>, a server-directed \<open>Retry-After\<close> included.
\<close>

theorem call_budget:
  "n_calls (snd (snd (do_traced env cfg call com req targets w)))
     \<le> int (length targets) * max 1 (ec_MaxAttempts cfg)
   \<and> list_all (addressed req targets) (snd (snd (do_traced env cfg call com req targets w)))
   \<and> list_all (waits_within (ec_MaxBackoff cfg)) (snd (snd (do_traced env cfg call com req targets w)))"
proof (cases "targets = []")
  case False
  note tr = do_traced_protocol[OF False, of cfg req env call com w]
  have "max_attempts cfg = max 1 (ec_MaxAttempts cfg)" by (simp add: max_attempts_def)
  then show ?thesis
    using failover_trace_calls[OF tr] failover_trace_addressed[OF tr] failover_trace_monitors(1)[OF tr]
    by simp
qed simp

text \<open>
  C28. Circuit discipline: no provider is called or recorded unless the breaker has just admitted it,
  so a provider whose circuit is open receives nothing; and every call that succeeds, or fails with a
  fault of the provider, is recorded with that outcome exactly once before the next call, while a
  caller's own error (a malformed request, a content filter, a context overflow, an internal error,
  a cancelled context) is never recorded.
\<close>

theorem breaker_accounting:
  "admitted None (snd (snd (do_traced env cfg call com req targets w)))
   \<and> accounted None (snd (snd (do_traced env cfg call com req targets w)))"
proof (cases "targets = []")
  case False
  note tr = do_traced_protocol[OF False, of cfg req env call com w]
  show ?thesis using failover_trace_monitors(2,3)[OF tr] by simp
qed simp



text \<open>
  A deterministic failure is final: when the first target is admitted and answers with an error
  that would fail anywhere (an invalid request or a content filter), that
  very error is returned after exactly one call, with no retry and no failover.
\<close>

theorem deterministic_error_stops:
  assumes "ee_allow env (provider_Name (tg_Provider t)) w = ((True, st), w1)"
    and "call t (call_request req t) w1 = (Some e, w2)"
    and "AsError e = Some p" and "\<not> Failoverable p"
  shows "fst (do_traced env cfg call com req (t # ts) w) = Ret (Some t, Some e)
    \<and> filter is_call (snd (snd (do_traced env cfg call com req (t # ts) w)))
        = [ECall t (call_request req t) (Some e)]"
proof -
  let ?l = "[EAllow (provider_Name (tg_Provider t)) True st]"
  let ?w3 = "record_fault env t (AsError e) (report_attempt env t 1 (Some e) st False w2)"
  let ?l3 = "?l @ failed_call t (call_request req t) st 1 e"
  have nr: "\<not> Retryable p"
    using assms(4) by (cases "pe_Kind p") (auto simp: Retryable_def Failoverable_def)
  have w3: "(?w3, ?l3) = record_fault (traced env) t (AsError e)
      (report_attempt (traced env) t 1 (Some e) st False (w2, ?l @ [ECall t (call_request req t) (Some e)]))"
    by (simp add: frame_simps failed_call_def)
  have "traced_call call t (call_request req t) (w1, ?l) = (Some e, (w2, ?l @ [ECall t (call_request req t) (Some e)]))"
    using assms(2) by (simp add: frame_simps)
  from attempt_loop_failed[where call = "traced_call call" and t = t and r = "call_request req t"
      and w = "(w1, ?l)", OF _ this w3, of "max_attempts cfg" cfg _ None]
  have "attemptWithRetries (traced env) cfg (traced_call call) c t req st (w1, ?l) = (Ret (Some e), (?w3, ?l3))" for c
    using assms(3) nr by (simp add: attemptWithRetries_def call_request_def max_attempts_def)
  then have "do_traced env cfg call com req (t # ts) w = (Ret (Some t, Some e), (?w3, ?l3))"
    using assms(1,3,4) by (simp add: do_traced_def exec_do_def frame_simps Let_def)
  then show ?thesis
    by (auto simp: failed_call_def fault_events_def report_of_def split: option.split)
qed

theorem deterministic_error_stops_witness:
  "fst (do_traced script_env default_exec script_call (\<lambda>_. False) demo_request
     [demo_target ''up'', demo_target ''other''] [Some (fault KindContentFilter)])
   = Ret (Some (demo_target ''up''), Some (fault KindContentFilter))"
  using deterministic_error_stops[of script_env "demo_target ''up''" "[Some (fault KindContentFilter)]"
      StateClosed "[Some (fault KindContentFilter)]" script_call demo_request "fault KindContentFilter" "[]"
      "Errorf KindContentFilter ''p'' ''failed''" default_exec "\<lambda>_. False" "[demo_target ''other'']"]
  by (simp add: script_simps Failoverable_def)


subsection \<open>Backoff and the joined error\<close>

lemma shift_backoff_eq:
  "shift_backoff base a = signed_take_bit 63 (base * 2 ^ nat (a - 1))"
proof -
  have "(word_of_int base :: 64 word) * 2 ^ nat (a - 1) = word_of_int (base * 2 ^ nat (a - 1))" by simp
  then show ?thesis by (simp only: shift_backoff_def push_bit_eq_mult sint_sbintrunc') simp
qed

text \<open>A shifted value that wrapped is not positive or is a multiple of the power of two.\<close>

lemma signed_take_bit_multiple:
  fixes base :: int
  assumes "0 < signed_take_bit 63 (base * 2 ^ n)"
  shows "2 ^ n \<le> signed_take_bit 63 (base * 2 ^ n)"
proof -
  let ?v = "signed_take_bit 63 (base * 2 ^ n)"
  have "take_bit 64 ?v = take_bit 64 (base * 2 ^ n)" by (simp add: take_bit_signed_take_bit)
  then have cong: "?v mod 2 ^ 64 = (base * 2 ^ n) mod 2 ^ 64" by (simp add: take_bit_eq_mod)
  show ?thesis
  proof (cases "n < 64")
    case True
    then have "(2 ^ n :: int) dvd 2 ^ 64" by (intro le_imp_power_dvd) simp
    then have "2 ^ n dvd ?v" using cong by (metis dvd_mod_iff dvd_triv_right)
    then show ?thesis using assms by (rule zdvd_imp_le)
  next
    case False
    then have "(2 ^ 64 :: int) dvd base * 2 ^ n"
      by (intro dvd_mult le_imp_power_dvd) simp
    then have "?v mod 2 ^ 64 = 0" using cong by simp
    moreover have "?v < 2 ^ 64" using signed_take_bit_int_less_exp[of 63 "base * 2 ^ n"] by simp
    ultimately show ?thesis using assms mod_pos_pos_trivial[of ?v "2 ^ 64"] by linarith
  qed
qed

text \<open>
  The capped exponential backoff is exact although the shift is done on 64 bits: with a positive
  base and \<open>BaseBackoff * MaxBackoff < 2^63 - 1\<close> (the defaults give about \<open>2^58\<close>), for every
  attempt number the backoff before the jitter is \<open>min (BaseBackoff * 2^(attempt-1)) MaxBackoff\<close>,
  so a shift that overflows never yields a short wait; and the delay finally waited lies between 0
  and \<open>MaxBackoff\<close>, without a panic, for any random source that honours the contract of \<open>Int63n\<close>.
\<close>

theorem backoff_exact:
  assumes "0 < ec_BaseBackoff cfg" "0 < ec_MaxBackoff cfg"
    and "ec_BaseBackoff cfg * ec_MaxBackoff cfg < 2 ^ 63 - 1" and "1 \<le> a"
    and "\<And>n w. 0 < n \<Longrightarrow> 0 \<le> fst (ee_int63n env n w) \<and> fst (ee_int63n env n w) < n"
  shows "capped_backoff cfg a = min (ec_BaseBackoff cfg * 2 ^ nat (a - 1)) (ec_MaxBackoff cfg)
    \<and> (\<exists>d w'. backoff_delay env cfg a ra w = (Ret d, w') \<and> 0 \<le> d \<and> d \<le> ec_MaxBackoff cfg)"
proof -
  let ?b = "ec_BaseBackoff cfg" and ?m = "ec_MaxBackoff cfg" and ?n = "nat (a - 1)"
  let ?v = "signed_take_bit 63 (?b * 2 ^ ?n)"
  have mb: "?m < 2 ^ 63 - 1"
  proof -
    have "1 * ?m \<le> ?b * ?m" using assms(1,2) by (intro mult_right_mono) auto
    then show ?thesis using assms(3) by simp
  qed
  have cap: "capped_backoff cfg a = min (?b * 2 ^ ?n) ?m"
  proof (cases "?b * 2 ^ ?n < 2 ^ 63")
    case True
    have "0 < ?b * 2 ^ ?n" using assms(1) by simp
    then have "?v = ?b * 2 ^ ?n" using True by (intro signed_take_bit_int_eq_self) auto
    then show ?thesis using \<open>0 < ?b * 2 ^ ?n\<close> by (auto simp: capped_backoff_def shift_backoff_eq Let_def)
  next
    case False
    have "?v \<le> 0 \<or> ?m < ?v"
    proof (rule ccontr)
      assume "\<not> (?v \<le> 0 \<or> ?m < ?v)"
      then have "2 ^ ?n \<le> ?m" using signed_take_bit_multiple[of ?b ?n] by linarith
      then have "?b * 2 ^ ?n \<le> ?b * ?m" using assms(1) by (intro mult_left_mono) auto
      then show False using False assms(3) by linarith
    qed
    then show ?thesis using False mb by (auto simp: capped_backoff_def shift_backoff_eq Let_def)
  qed
  have pos: "0 < capped_backoff cfg a" using cap assms(1,2) by simp
  have le: "capped_backoff cfg a \<le> ?m" using cap by simp
  have "(word_of_int (capped_backoff cfg a) + 1 :: 64 word) = word_of_int (capped_backoff cfg a + 1)" by simp
  then have "jitter_bound (capped_backoff cfg a) = signed_take_bit 63 (capped_backoff cfg a + 1)"
    by (simp only: jitter_bound_def sint_sbintrunc') simp
  then have jb: "jitter_bound (capped_backoff cfg a) = capped_backoff cfg a + 1"
    using pos le mb by (simp add: signed_take_bit_int_eq_self)
  show ?thesis
  proof (cases "0 < ra")
    case True
    then show ?thesis using cap assms(2) by (simp add: backoff_delay_def)
  next
    case False
    obtain i w' where "ee_int63n env (capped_backoff cfg a + 1) w = (i, w')" by (metis surj_pair)
    then show ?thesis
      using False cap pos le jb assms(2) assms(5)[of "capped_backoff cfg a + 1" w]
      by (simp add: backoff_delay_def Let_def)
  qed
qed

theorem backoff_exact_witness:
  "capped_backoff default_exec 5 = 1600000000 \<and> capped_backoff default_exec 62 = 2000000000"
  using backoff_exact[of default_exec 5 script_env 0 "[]"] backoff_exact[of default_exec 62 script_env 0 "[]"]
  by (simp add: default_exec_def script_env_def duration_defs)

lemma join_best_rank:
  assumes "AsError best = Some p0 \<and> kindRank (pe_Kind p0) = r \<or> AsError best = None \<and> r = -1"
  shows "case AsError (join_best best r errs) of
      Some q \<Rightarrow> r \<le> kindRank (pe_Kind q) \<and>
        (\<forall>e \<in> set errs. \<forall>p. AsError e = Some p \<longrightarrow> kindRank (pe_Kind p) \<le> kindRank (pe_Kind q))
    | None \<Rightarrow> r = -1 \<and> (\<forall>e \<in> set errs. AsError e = None)"
  using assms
proof (induction errs arbitrary: best r p0)
  case (Cons e errs)
  show ?case
  proof (cases "AsError e")
    case None
    then show ?thesis using Cons.IH[OF Cons.prems] by (auto split: option.splits)
  next
    case (Some p)
    have "-1 < kindRank (pe_Kind p)" by (cases "pe_Kind p") auto
    then show ?thesis
      using Some Cons.prems Cons.IH[of e p "kindRank (pe_Kind p)"] Cons.IH[OF Cons.prems]
      by (auto split: option.splits)
  qed
qed (auto split: option.splits)

lemma join_best_member: "join_best best r errs \<in> insert best (set errs)"
  by (induction best r errs rule: join_best.induct) (auto split: option.splits)

text \<open>
  The joined error is the most informative one: when failover exhausts two or more targets and at
  least one failed with a provider error, the result is a provider error that wraps one of them,
  keeps its kind, provider and status, and no failure collected ranks above it; in particular one
  rate limit makes the client see a 429.
\<close>

theorem join_keeps_best:
  assumes "2 \<le> length errs" "e \<in> set errs" "AsError e = Some p"
  shows "\<exists>best q. best \<in> set errs \<and> AsError best = Some q \<and>
     (\<forall>e' \<in> set errs. \<forall>p'. AsError e' = Some p' \<longrightarrow> kindRank (pe_Kind p') \<le> kindRank (pe_Kind q)) \<and>
     joinErrors errs = ProviderError (PError (pe_Kind q) (pe_Provider q) (pe_Status q)
        (''all providers failed: '' @ Join ''; '' (map error_text errs)) 0 (Some best)) \<and>
     (pe_Kind p = KindRateLimit \<longrightarrow> pe_Kind q = KindRateLimit)"
proof -
  obtain e1 e2 es where errs: "errs = e1 # e2 # es"
    using assms(1) by (cases errs; cases "tl errs") auto
  let ?best = "join_best e1 (-1) errs"
  have ranks: "case AsError ?best of
      Some q \<Rightarrow> - 1 \<le> kindRank (pe_Kind q) \<and>
        (\<forall>e \<in> set errs. \<forall>p. AsError e = Some p \<longrightarrow> kindRank (pe_Kind p) \<le> kindRank (pe_Kind q))
    | None \<Rightarrow> (- 1 :: int) = -1 \<and> (\<forall>e \<in> set errs. AsError e = None)"
  proof (cases "AsError e1")
    case None
    then show ?thesis using join_best_rank[of e1 undefined "-1" errs] by (simp split: option.splits)
  next
    case (Some p1)
    have "-1 < kindRank (pe_Kind p1)" by (cases "pe_Kind p1") auto
    then show ?thesis
      using Some join_best_rank[of e1 p1 "kindRank (pe_Kind p1)" "e2 # es"] errs
      by (auto split: option.splits)
  qed
  have mem: "?best \<in> set errs" using join_best_member[of e1 "-1" errs] errs by auto
  obtain q where q: "AsError ?best = Some q"
    using ranks assms(2,3) by (cases "AsError ?best") auto
  have top: "\<forall>e' \<in> set errs. \<forall>p'. AsError e' = Some p' \<longrightarrow> kindRank (pe_Kind p') \<le> kindRank (pe_Kind q)"
    using ranks q by simp
  have "kindRank (pe_Kind p) = 5 \<Longrightarrow> pe_Kind q = KindRateLimit"
    using top assms(2,3) by (cases "pe_Kind q") fastforce+
  then show ?thesis
    using mem q top errs by (intro exI[of _ ?best] exI[of _ q]) (auto simp: joinErrors_def Let_def)
qed

theorem join_keeps_best_witness:
  "\<exists>q. joinErrors [fault KindUnavailable, fault KindRateLimit, fault KindAuth] = ProviderError q
     \<and> pe_Kind q = KindRateLimit"
proof -
  have "AsError (fault KindRateLimit) = Some (Errorf KindRateLimit ''p'' ''failed'')"
    by (simp add: fault_def Errorf_def)
  from join_keeps_best[of "[fault KindUnavailable, fault KindRateLimit, fault KindAuth]", OF _ _ this]
  show ?thesis by (auto simp: Errorf_def)
qed

section \<open>Streams are never spliced\<close>

fun no_chunk :: "exec_event \<Rightarrow> bool" where
  "no_chunk (EChunk c) = False"
| "no_chunk _ = True"

fun no_stream :: "exec_event \<Rightarrow> bool" where
  "no_stream (EChunk c) = False"
| "no_stream (EOpen t cs fin) = False"
| "no_stream _ = True"

text \<open>
  \<open>one_stream t l n\<close>: in the log \<open>l\<close> the last stream opened is one of \<open>t\<close>, of the chunks \<open>cs\<close> and the end
  \<open>fin\<close>, the client got the first \<open>n\<close> of them right after, and nothing before or afterwards.
\<close>

definition one_stream :: "target \<Rightarrow> chat_chunk list \<Rightarrow> go_error option \<Rightarrow> nat \<Rightarrow> exec_event list \<Rightarrow> bool" where
  "one_stream t cs fin n l =
     (\<exists>pre post. l = pre @ EOpen t cs fin # map EChunk (take n cs) @ post \<and>
        list_all no_chunk pre \<and> list_all no_stream post \<and> n \<le> length cs)"

lemma one_stream_before: "one_stream t cs fin n l \<Longrightarrow> list_all no_chunk pre \<Longrightarrow> one_stream t cs fin n (pre @ l)"
  unfolding one_stream_def by (metis append.assoc list_all_append)

lemma one_stream_after:
  assumes "one_stream t cs fin n l" "list_all no_stream post"
  shows "one_stream t cs fin n (l @ post)"
  using assms unfolding one_stream_def by (metis append.assoc append_Cons list_all_append)

lemma one_stream_nothing:
  assumes "one_stream t cs fin 0 l" shows "list_all no_chunk l"
proof -
  have "no_stream ev \<Longrightarrow> no_chunk ev" for ev by (cases ev) auto
  then have "list_all no_stream post \<Longrightarrow> list_all no_chunk post" for post by (auto simp: list_all_iff)
  then show ?thesis using assms by (auto simp: one_stream_def)
qed

lemma lift_simps [frame_simps]:
  "ee_ctx_err (lift_env env) (w, x) = ee_ctx_err env w"
  "ee_allow (lift_env env) p (w, x) = (fst (ee_allow env p w), (snd (ee_allow env p w), x))"
  "ee_record (lift_env env) p ok (w, x) = (ee_record env p ok w, x)"
  "report_attempt (lift_env env) t a e st sk (w, x) = (report_attempt env t a e st sk w, x)"
  "record_fault (lift_env env) t pe (w, x) = (record_fault env t pe w, x)"
  by (simp_all add: lift_env_def split_beta report_attempt_def record_fault_def split: option.split)

lemma sleepBackoff_lift:
  "sleepBackoff (lift_env env) cfg a ra (w, x) =
     (fst (sleepBackoff env cfg a ra w), (snd (sleepBackoff env cfg a ra w), x))"
  by (auto simp: sleepBackoff_def backoff_delay_def lift_env_def Let_def split: go.splits prod.splits)

lemma no_stream_log [simp]:
  "list_all no_stream (fault_events t e)" "no_stream (report_of t st a e' sk)"
  "list_all no_chunk (fault_events t e)" "no_chunk (report_of t st a e' sk)"
  by (auto simp: fault_events_def report_of_def split: option.split)

lemma feed_traced:
  "\<exists>n e w'. feed (counted (traced_chunk oc)) cs fin ((w, l), s)
        = (e, ((w', l @ map EChunk (take n cs)), s \<or> 0 < n))
     \<and> n \<le> length cs \<and> (e = None \<longrightarrow> n = length cs \<and> fin = None)"
proof (induction cs arbitrary: w l s)
  case Nil
  then show ?case by auto
next
  case (Cons c cs)
  obtain e w1 where c: "oc c w = (e, w1)" by (cases "oc c w") auto
  then have tc: "counted (traced_chunk oc) c ((w, l), s) = (e, ((w1, l @ [EChunk c]), True))"
    by (simp add: traced_chunk_def counted_def)
  show ?case
  proof (cases e)
    case (Some e')
    then show ?thesis using tc by (auto intro!: exI[of _ "1::nat"])
  next
    case None
    obtain n e' w' where "feed (counted (traced_chunk oc)) cs fin ((w1, l @ [EChunk c]), True)
        = (e', ((w', (l @ [EChunk c]) @ map EChunk (take n cs)), True)) \<and> n \<le> length cs
        \<and> (e' = None \<longrightarrow> n = length cs \<and> fin = None)"
      using Cons.IH[of w1 "l @ [EChunk c]" True] by auto
    then show ?thesis using tc None by (auto intro!: exI[of _ "Suc n"])
  qed
qed

lemma stream_call_traced:
  assumes "stream_call (traced_open os) (traced_chunk oc) t r ((w, l), False) = (e, ((w', l'), s'))"
  shows "\<exists>cs fin n es. l' = l @ es \<and> one_stream t cs fin n es \<and> s' = (0 < n)
           \<and> (e = None \<longrightarrow> n = length cs \<and> fin = None)"
proof -
  obtain cs fin w1 where o': "os t r w = ((cs, fin), w1)" by (metis surj_pair)
  from feed_traced[of oc cs fin w1 "l @ [EOpen t cs fin]" False] obtain n e' w2 where
    f: "feed (counted (traced_chunk oc)) cs fin ((w1, l @ [EOpen t cs fin]), False)
        = (e', ((w2, (l @ [EOpen t cs fin]) @ map EChunk (take n cs)), 0 < n))"
      "n \<le> length cs" "e' = None \<longrightarrow> n = length cs \<and> fin = None" by auto
  have "one_stream t cs fin n (EOpen t cs fin # map EChunk (take n cs))"
    unfolding one_stream_def using f(2) by (intro exI[of _ "[]"]) simp
  moreover have "l' = l @ (EOpen t cs fin # map EChunk (take n cs))" "s' = (0 < n)" "e = e'"
    using assms o' f(1) by (auto simp: stream_call_def traced_open_def counted_def)
  ultimately show ?thesis using f(3) by blast
qed

lemma sleepBackoff_stream:
  assumes "sleepBackoff (lift_env (traced env)) cfg a ra ((w, l), s) = (res, ((w', l'), s'))"
  shows "s' = s \<and> (\<exists>es. l' = l @ es \<and> list_all no_stream es \<and> list_all no_chunk es)"
proof -
  obtain r1 w1 l1 where sb: "sleepBackoff (traced env) cfg a ra (w, l) = (r1, (w1, l1))" by (metis surj_pair)
  then have "s' = s" "l' = l1" using assms by (auto simp: sleepBackoff_lift)
  then show ?thesis using sleepBackoff_traced[OF sb] by auto
qed

lemma attempt_loop_stream:
  assumes "attempt_loop (lift_env (traced env)) cfg (stream_call (traced_open os) (traced_chunk oc)) snd
      t r st (max_attempts cfg) a le ((w, l), False) = (res, ((w', l'), s'))"
    and "a \<le> max_attempts cfg"
  shows "\<exists>cs fin n es. l' = l @ es \<and> one_stream t cs fin n es \<and> s' = (0 < n)
           \<and> (res = Ret None \<longrightarrow> n = length cs \<and> fin = None) \<and> (s' \<longrightarrow> res \<noteq> Panic)"
  using assms
proof (induction "nat (max_attempts cfg - a)" arbitrary: a le w l rule: less_induct)
  case less
  let ?call = "stream_call (traced_open os) (traced_chunk oc)"
  let ?env = "lift_env (traced env)"
  obtain e w1 l1 s1 where c: "?call t r ((w, l), False) = (e, ((w1, l1), s1))" by (metis surj_pair)
  from stream_call_traced[OF this] obtain cs fin n es where
    one: "l1 = l @ es" "one_stream t cs fin n es" "s1 = (0 < n)" "e = None \<longrightarrow> n = length cs \<and> fin = None"
    by blast
  show ?case
  proof (cases e)
    case None
    let ?post = "[report_of t st a None False, ERecord (provider_Name (tg_Provider t)) True]"
    have "l' = l @ es @ ?post \<and> s' = s1 \<and> res = Ret None"
      using less.prems(1) one(1)
        attempt_loop_succeeded[where call = ?call, OF less.prems(2) c[unfolded None], of ?env cfg snd st le]
      by (auto simp: frame_simps)
    then show ?thesis using one None one_stream_after[OF one(2), of ?post] by auto
  next
    case (Some e')
    let ?post = "report_of t st a e False # fault_events t e'"
    obtain w2 where w2: "((w2, l @ es @ ?post), s1) = record_fault ?env t (AsError e')
        (report_attempt ?env t a e st False ((w1, l1), s1))"
      by (simp add: frame_simps one(1))
    note step = attempt_loop_failed[where call = ?call, OF less.prems(2) c[unfolded Some] w2[unfolded Some],
        of cfg snd le]
    have post: "one_stream t cs fin n (es @ ?post)" by (rule one_stream_after[OF one(2)]) simp
    show ?thesis
    proof (cases "ee_ctx_err ?env ((w2, l @ es @ ?post), s1) \<or> s1 \<or> AsError e' = None
        \<or> \<not> Retryable (the (AsError e')) \<or> a = max_attempts cfg")
      case True
      then have "res = Ret (Some e') \<and> l' = l @ es @ ?post \<and> s' = s1"
        using step less.prems(1) Some by auto
      then show ?thesis using one post by blast
    next
      case False
      then have a: "a < max_attempts cfg" using less.prems(2) by auto
      have quiet: "list_all no_chunk (es @ ?post)" using post False one(3) one_stream_nothing by fastforce
      obtain sr w3 l3 s3 where sb: "sleepBackoff ?env cfg a (pe_RetryAfter (the (AsError e')))
          ((w2, l @ es @ ?post), s1) = (sr, ((w3, l3), s3))" by (metis surj_pair)
      obtain es3 where es3: "l3 = l @ (es @ ?post) @ es3" "list_all no_stream es3" "list_all no_chunk es3" "s3 = s1"
        using sleepBackoff_stream[OF sb] by auto
      have post3: "one_stream t cs fin n ((es @ ?post) @ es3)" by (rule one_stream_after[OF post es3(2)])
      have run: "(case sr of Panic \<Rightarrow> (Panic, ((w3, l3), s3)) | Ret None \<Rightarrow>
            attempt_loop ?env cfg ?call snd t r st (max_attempts cfg) (a + 1) (Some e') ((w3, l3), s3)
          | Ret (Some e'') \<Rightarrow> (Ret (Some e''), ((w3, l3), s3))) = (res, ((w', l'), s'))"
        using step less.prems(1) False sb Some by (auto split: go.splits option.splits)
      show ?thesis
      proof (cases "sr = Ret None")
        case False
        then have "l' = l3 \<and> s' = s3 \<and> res \<noteq> Ret None \<and> (res = Panic \<longrightarrow> sr = Panic)"
          using run by (auto split: go.splits option.splits)
        moreover have "\<not> s3" using es3(4) \<open>\<not> (_ \<or> s1 \<or> _)\<close> by auto
        ultimately show ?thesis using es3 one(3) post3 by blast
      next
        case True
        have "s3 = False" using es3(4) False by simp
        then have "attempt_loop ?env cfg ?call snd t r st (max_attempts cfg) (a + 1) (Some e') ((w3, l3), False)
            = (res, ((w', l'), s'))" using run True by simp
        from less.hyps[OF _ this] a obtain cs fin n es' where
          "l' = l3 @ es' \<and> one_stream t cs fin n es' \<and> s' = (0 < n)
           \<and> (res = Ret None \<longrightarrow> n = length cs \<and> fin = None) \<and> (s' \<longrightarrow> res \<noteq> Panic)" by auto
        moreover from this have "one_stream t cs fin n (((es @ ?post) @ es3) @ es')"
          using quiet es3(3) by (intro one_stream_before) auto
        ultimately show ?thesis using es3(1) by (metis append.assoc)
      qed
    qed
  qed
qed

text \<open>What the log of a whole streaming request looks like, given its outcome.\<close>

definition delivered :: "target set \<Rightarrow> exec_event list \<Rightarrow> bool
    \<Rightarrow> (target option \<times> go_error option) go \<Rightarrow> bool" where
  "delivered T es s res \<longleftrightarrow>
     (\<exists>t \<in> T. \<exists>cs fin n. one_stream t cs fin n es \<and> s = (0 < n) \<and>
        (s \<longrightarrow> (\<exists>e. res = Ret (Some t, e))) \<and>
        (\<forall>t'. res = Ret (Some t', None) \<longrightarrow> t' = t \<and> n = length cs \<and> fin = None))
     \<or> (list_all no_stream es \<and> \<not> s \<and> (\<forall>t'. res \<noteq> Ret (Some t', None)))"

lemma no_stream_no_chunk: "list_all no_stream es \<Longrightarrow> list_all no_chunk es"
proof -
  have "no_stream ev \<Longrightarrow> no_chunk ev" for ev by (cases ev) auto
  then show "list_all no_stream es \<Longrightarrow> list_all no_chunk es" by (auto simp: list_all_iff)
qed

lemma delivered_after_skip:
  assumes "delivered T es s res" "list_all no_stream pre"
  shows "delivered (insert t T) (pre @ es) s res"
proof -
  have "one_stream t cs fin n es \<Longrightarrow> one_stream t cs fin n (pre @ es)" for t cs fin n
    using one_stream_before no_stream_no_chunk[OF assms(2)] by blast
  then show ?thesis using assms unfolding delivered_def list_all_append by blast
qed

lemma delivered_after_silence:
  assumes "delivered T es s res" "one_stream t cs fin 0 pre"
  shows "delivered (insert t T) (pre @ es) s res"
proof -
  have before: "one_stream t cs fin n es \<Longrightarrow> one_stream t cs fin n (pre @ es)" for t cs fin n
    using one_stream_before one_stream_nothing[OF assms(2)] by blast
  have after: "list_all no_stream es \<Longrightarrow> one_stream t cs fin 0 (pre @ es)"
    using one_stream_after[OF assms(2)] by blast
  have "\<not> s \<Longrightarrow> s = (0 < (0::nat))" by simp
  with before after show ?thesis using assms(1) unfolding delivered_def by blast
qed

lemma delivered_here:
  assumes "one_stream t cs fin n es" "s = (0 < n)" "s \<longrightarrow> (\<exists>e. res = Ret (Some t, e))"
    "\<forall>t'. res = Ret (Some t', None) \<longrightarrow> t' = t \<and> n = length cs \<and> fin = None"
  shows "delivered (insert t T) es s res"
  using assms unfolding delivered_def by blast

lemma do_loop_stream:
  assumes "do_loop (lift_env (traced env)) cfg (stream_call (traced_open os) (traced_chunk oc)) snd
      req ts errs ((w, l), False) = (res, ((w', l'), s'))"
  shows "\<exists>es. l' = l @ es \<and> delivered (set ts) es s' res"
  using assms
proof (induction ts arbitrary: errs w l)
  case Nil
  then show ?case by (auto simp: delivered_def)
next
  case (Cons t ts)
  let ?env = "lift_env (traced env)" and ?call = "stream_call (traced_open os) (traced_chunk oc)"
  let ?name = "provider_Name (tg_Provider t)"
  obtain ok st w1 where al: "ee_allow env ?name w = ((ok, st), w1)" by (metis surj_pair)
  show ?case
  proof (cases ok)
    case False
    let ?es = "[EAllow ?name False st, report_of t st 0 None True]"
    obtain errs' w2 where "do_loop ?env cfg ?call snd req ts errs' ((w2, l @ ?es), False) = (res, ((w', l'), s'))"
      using Cons.prems al False by (auto simp: frame_simps Let_def)
    from Cons.IH[OF this] obtain es where "l' = (l @ ?es) @ es" "delivered (set ts) es s' res" by blast
    then show ?thesis using delivered_after_skip[of "set ts" es s' res ?es t]
      by (intro exI[of _ "?es @ es"]) simp
  next
    case True
    let ?al = "EAllow ?name True st"
    obtain ar w2 l2 s2 where at: "attemptWithRetries ?env cfg ?call snd t req st ((w1, l @ [?al]), False)
        = (ar, ((w2, l2), s2))" by (metis surj_pair)
    have "1 \<le> max_attempts cfg" by (simp add: max_attempts_def)
    from attempt_loop_stream[OF at[unfolded attemptWithRetries_def] this] obtain cs fin n es where
      one: "l2 = (l @ [?al]) @ es" "one_stream t cs fin n es" "s2 = (0 < n)"
        "ar = Ret None \<longrightarrow> n = length cs \<and> fin = None" "s2 \<longrightarrow> ar \<noteq> Panic" by blast
    have one': "one_stream t cs fin n (?al # es)"
      using one_stream_before[OF one(2), of "[?al]"] by simp
    note run = Cons.prems[simplified do_loop.simps Let_def lift_simps traced_simps al fst_conv snd_conv
        True prod.case at not_True_eq_False if_False]
    have stop: ?thesis if "l' = l2" "s' = s2" "s2 \<longrightarrow> (\<exists>e. res = Ret (Some t, e))"
      "\<forall>t'. res = Ret (Some t', None) \<longrightarrow> t' = t \<and> ar = Ret None"
      using delivered_here[OF one', of s2 res] one that by auto
    show ?thesis
    proof (cases ar)
      case Panic
      then show ?thesis using run one(5) by (intro stop) auto
    next
      case (Ret x)
      show ?thesis
      proof (cases x)
        case None
        then show ?thesis using run Ret by (intro stop) auto
      next
        case (Some e)
        show ?thesis
        proof (cases "ee_ctx_err env w2 \<or> s2 \<or> (case AsError e of Some pe \<Rightarrow> \<not> Failoverable pe | None \<Rightarrow> False)")
          case True
          then have "res = Ret (Some t, Some e) \<and> l' = l2 \<and> s' = s2"
            using run Ret Some by (auto simp: frame_simps split: if_splits)
          then show ?thesis by (intro stop) auto
        next
          case False
          then have "do_loop ?env cfg ?call snd req ts (errs @ [e]) ((w2, l2), False) = (res, ((w', l'), s'))"
            and n0: "n = 0"
            using run Ret Some one(3) by (auto simp: frame_simps split: if_splits)
          from Cons.IH[OF this(1)] obtain es' where "l' = l2 @ es'" "delivered (set ts) es' s' res" by blast
          then show ?thesis using delivered_after_silence[OF _ one'[unfolded n0]] one(1)
            by (intro exI[of _ "(?al # es) @ es'"]) simp
        qed
      qed
    qed
  qed
qed

text \<open>
  C5. A stream is never spliced: whatever the providers send and however they fail, everything the
  client receives in one streaming request is a prefix of one provider's single stream, delivered in
  order. Once a chunk has gone out no other stream is opened, the target returned is the one
  that stream came from, and success is reported only for a stream delivered to its very end.
\<close>

theorem stream_single_source:
  assumes "exec_ChatStream (traced env) cfg (traced_open os) targets req (traced_chunk oc) (w, [])
      = (res, (w', l))"
  shows "(list_all no_chunk l \<or>
      (\<exists>t \<in> set targets. \<exists>cs fin n e. one_stream t cs fin n l \<and> 0 < n \<and> res = Ret (Some t, e)))
    \<and> (\<forall>t. res = Ret (Some t, None) \<longrightarrow> (\<exists>cs. one_stream t cs None (length cs) l))"
proof (cases "targets = []")
  case True
  then show ?thesis using assms by (auto simp: exec_ChatStream_def exec_do_def)
next
  case False
  obtain s' where "do_loop (lift_env (traced env)) cfg (stream_call (traced_open os) (traced_chunk oc)) snd
      req targets [] ((w, []), False) = (res, ((w', l), s'))"
    using assms False by (auto simp: exec_ChatStream_def exec_do_def split: prod.splits)
  from do_loop_stream[OF this] have "delivered (set targets) l s' res" by simp
  then show ?thesis unfolding delivered_def
  proof
    assume "\<exists>t \<in> set targets. \<exists>cs fin n. one_stream t cs fin n l \<and> s' = (0 < n) \<and>
        (s' \<longrightarrow> (\<exists>e. res = Ret (Some t, e))) \<and>
        (\<forall>t'. res = Ret (Some t', None) \<longrightarrow> t' = t \<and> n = length cs \<and> fin = None)"
    then obtain t cs fin n where h: "t \<in> set targets" "one_stream t cs fin n l" "s' = (0 < n)"
      "s' \<longrightarrow> (\<exists>e. res = Ret (Some t, e))"
      "\<forall>t'. res = Ret (Some t', None) \<longrightarrow> t' = t \<and> n = length cs \<and> fin = None" by blast
    have "list_all no_chunk l \<or> (0 < n \<and> (\<exists>e. res = Ret (Some t, e)))"
      using h(2,3,4) one_stream_nothing by (cases "n = 0") auto
    moreover have "res = Ret (Some t', None) \<Longrightarrow> one_stream t' cs None (length cs) l" for t'
      using h(2,5) by simp
    ultimately show ?thesis using h(1,2) by blast
  qed (use no_stream_no_chunk in blast)
qed

definition demo_chunk :: "string \<Rightarrow> chat_chunk" where
  "demo_chunk s = \<lparr>ck_ID = ''1'', ck_Object = ''chat.completion.chunk'', ck_Created = 0, ck_Model = ''m'',
     ck_Choices = [\<lparr>sc_Index = 0, sc_Delta = \<lparr>sd_Role = '''', sd_Content = s\<rparr>, sc_FinishReason = None\<rparr>],
     ck_Usage = None\<rparr>"

text \<open>The first target fails before its first chunk, the second breaks off after one.\<close>

definition demo_open :: "go_error option list opener" where
  "demo_open t r w =
     (if tg_Provider t = tg_Provider (demo_target ''a'') then (([], Some (fault KindAuth)), w)
      else (([demo_chunk ''x''], Some (fault KindUnavailable)), w))"

theorem stream_single_source_witness:
  "\<exists>l. exec_ChatStream (traced script_env) default_exec (traced_open demo_open)
       [demo_target ''a'', demo_target ''b'', demo_target ''c''] demo_request
       (traced_chunk (\<lambda>c w. (None, w))) ([], [])
     = (Ret (Some (demo_target ''b''), Some (fault KindUnavailable)), ([], l)) \<and>
     (\<exists>cs fin n. one_stream (demo_target ''b'') cs fin n l \<and> 0 < n)"
proof -
  let ?run = "exec_ChatStream (traced script_env) default_exec (traced_open demo_open)
       [demo_target ''a'', demo_target ''b'', demo_target ''c''] demo_request
       (traced_chunk (\<lambda>c w. (None, w))) ([], [])"
  have "fst ?run = Ret (Some (demo_target ''b''), Some (fault KindUnavailable)) \<and> fst (snd ?run) = []
    \<and> \<not> list_all no_chunk (snd (snd ?run))"
    by (simp add: exec_ChatStream_def exec_do_def stream_call_def counted_def demo_open_def script_simps
        attemptWithRetries_def attempt_loop.simps max_attempts_def frame_simps Retryable_def Failoverable_def
        traced_open_def traced_chunk_def Let_def report_attempt_def record_fault_def traced_def lift_env_def)
  then obtain l where run: "?run = (Ret (Some (demo_target ''b''), Some (fault KindUnavailable)), ([], l))"
    and "\<not> list_all no_chunk l" by (metis prod.collapse)
  with stream_single_source[OF run] have "\<exists>cs fin n. one_stream (demo_target ''b'') cs fin n l \<and> 0 < n"
    by (auto simp del: list.set)
  then show ?thesis using run by blast
qed

end
