(* ===== verification/OpenAI.thy ===== *)
theory OpenAI
  imports Executor
begin

text \<open>
  \<open>internal/provider/openai.go\<close> and \<open>groq.go\<close>: the adapter for OpenAI-shaped upstreams. The HTTP
  exchange is a parameter: \<open>he_do\<close> is the round trip of one request, \<open>he_url_err\<close> what
  \<open>http.NewRequestWithContext\<close> objects to in a URL, \<open>he_ctx_err\<close> what \<open>ctx.Err()\<close> yields when the call
  fails. The JSON decoders, \<open>http.StatusText\<close> and the two time parsers are parameters too. A
  response body is its bytes and the read error, if any, that ends it. \<open>json.Marshal\<close> cannot fail
  on the bodies built here, so the request carries the value that is marshalled.
\<close>

section \<open>HTTP\<close>

record http_response =
  hs_StatusCode :: int
  hs_RetryAfter :: string
  hs_Body :: string
  hs_ReadErr :: "go_error option"

record 'b http_request =
  hq_URL :: string
  hq_Headers :: "(string \<times> string) list"
  hq_Body :: 'b

record api_error =
  ae_Message :: string
  ae_Type :: string
  ae_Code :: string

record 'b http_env =
  he_url_err :: "string \<Rightarrow> go_error option"
  he_do :: "'b http_request \<Rightarrow> go_error + http_response"
  he_ctx_err :: "sentinel option"
  he_status_text :: "int \<Rightarrow> string"
  he_parse_duration :: "string \<Rightarrow> duration option"
  he_parse_time :: "string \<Rightarrow> instant option"
  he_now :: instant

definition retry_after :: "'b http_env \<Rightarrow> http_response \<Rightarrow> duration" where
  "retry_after h resp =
     ParseRetryAfter (he_parse_duration h) (he_parse_time h) (he_now h) (hs_RetryAfter resp)"

text \<open>The ellipsis is the three bytes of U+2026.\<close>

definition go_truncate :: "string \<Rightarrow> nat \<Rightarrow> string" where
  "go_truncate s n = (if length s \<le> n then s else take n s @ [CHR 0xE2, CHR 0x80, CHR 0xA6])"

section \<open>Requests\<close>

definition upstreamModel :: "chat_request \<Rightarrow> string" where
  "upstreamModel req = (if cr_ResolvedModel req \<noteq> '''' then cr_ResolvedModel req else cr_Model req)"

record wire_request =
  wr_Model :: string
  wr_Messages :: "message list"
  wr_Temperature :: "float64 option"
  wr_TopP :: "float64 option"
  wr_MaxTokens :: "int option"
  wr_Stop :: "string list"
  wr_User :: string
  wr_Stream :: bool
  wr_IncludeUsage :: "bool option"

definition buildBody :: "chat_request \<Rightarrow> bool \<Rightarrow> wire_request" where
  "buildBody req stream =
     \<lparr>wr_Model = upstreamModel req, wr_Messages = cr_Messages req,
      wr_Temperature = cr_Temperature req, wr_TopP = cr_TopP req, wr_MaxTokens = cr_MaxTokens req,
      wr_Stop = cr_Stop req, wr_User = cr_User req, wr_Stream = stream,
      wr_IncludeUsage = (if stream then Some True else None)\<rparr>"

datatype openai_body = ChatBody wire_request | EmbedBody embedding_request

definition openai_newRequest ::
  "openai_body http_env \<Rightarrow> adapter \<Rightarrow> string \<Rightarrow> openai_body \<Rightarrow> bool
    \<Rightarrow> go_error + openai_body http_request" where
  "openai_newRequest h p path body stream =
     (let url = ad_baseURL p @ path in
      case he_url_err h url of
        Some e \<Rightarrow> Inl (ProviderError (Wrap KindInternal (ad_name p) e ''build request''))
      | None \<Rightarrow> Inr
          \<lparr>hq_URL = url,
           hq_Headers = [(''Content-Type'', ''application/json''),
                         (''Authorization'', ''Bearer '' @ ad_apiKey p)]
                        @ (if stream then [(''Accept'', ''text/event-stream'')] else []),
           hq_Body = body\<rparr>)"

section \<open>Errors\<close>

definition refine_kind :: "api_error \<Rightarrow> kind \<Rightarrow> kind" where
  "refine_kind ae kind =
     (let kind' = (if ae_Code ae = ''context_length_exceeded'' then KindContextLength
                   else if ae_Code ae = ''content_filter'' then KindContentFilter
                   else if ae_Code ae = ''insufficient_quota'' then KindUnavailable
                   else kind)
      in if ae_Type ae = ''invalid_request_error'' \<and> kind' = KindInternal then KindInvalidRequest
         else kind')"

definition openai_errorFromResponse ::
  "'b http_env \<Rightarrow> (string \<Rightarrow> api_error option) \<Rightarrow> adapter \<Rightarrow> http_response \<Rightarrow> prov_error" where
  "openai_errorFromResponse h decode_err p resp =
     (let body = take (32 * 1024) (hs_Body resp);
          kind0 = ClassifyStatus (hs_StatusCode resp);
          msg0 = TrimSpace body;
          (kind, msg1) = (case decode_err body of
             Some ae \<Rightarrow> if ae_Message ae \<noteq> '''' then (refine_kind ae kind0, ae_Message ae) else (kind0, msg0)
           | None \<Rightarrow> (kind0, msg0));
          msg = (if msg1 = '''' then he_status_text h (hs_StatusCode resp) else msg1)
      in PError kind (ad_name p) (hs_StatusCode resp) (go_truncate msg 512) (retry_after h resp) None)"

definition openai_transportError :: "adapter \<Rightarrow> sentinel option \<Rightarrow> go_error \<Rightarrow> prov_error" where
  "openai_transportError p ctx_err err =
     (if errors_Is err ContextCanceled \<and> ctx_err \<noteq> None
      then Wrap KindInternal (ad_name p) err ''request canceled''
      else if errors_Is err ContextDeadlineExceeded
      then Wrap KindTimeout (ad_name p) err ''request timed out''
      else Wrap KindUnavailable (ad_name p) err ''transport error'')"

section \<open>The event stream\<close>

text \<open>
  \<open>bufio.Scanner\<close> with \<open>ScanLines\<close>: the lines of the body without their line feed and one carriage
  return before it; bytes behind the last line feed are a line of their own. A line whose bytes fill
  the buffer of 1 MiB before a line feed stops the scanner with \<open>ErrTooLong\<close>.
\<close>

function raw_lines :: "string \<Rightarrow> string list" where
  "raw_lines s =
     (if s = [] then []
      else takeWhile (\<lambda>c. c \<noteq> CHR 0x0A) s # raw_lines (drop 1 (dropWhile (\<lambda>c. c \<noteq> CHR 0x0A) s)))"
  by pat_completeness auto

lemma drop_line_shorter: "s \<noteq> [] \<Longrightarrow> length (drop (Suc 0) (dropWhile p s)) < length s"
  using length_dropWhile_le[of p s] by (cases s) auto

termination raw_lines
  by (relation "measure length") (auto simp: drop_line_shorter simp del: length_drop)

declare raw_lines.simps [simp del]

definition dropCR :: "string \<Rightarrow> string" where
  "dropCR l = (if l \<noteq> [] \<and> last l = CHR 0x0D then butlast l else l)"

definition too_long :: "string \<Rightarrow> bool" where
  "too_long l \<longleftrightarrow> 1024 * 1024 \<le> length l"

definition ErrTooLong :: go_error where
  "ErrTooLong = ErrorText ''bufio.Scanner: token too long'' None"

text \<open>What one line means to \<open>parseSSE\<close>.\<close>

datatype 'c sse_line = Skip | Done | Bad go_error | Payload 'c

definition sse_classify :: "(string \<Rightarrow> go_error + chat_chunk) \<Rightarrow> string \<Rightarrow> chat_chunk sse_line" where
  "sse_classify decode raw =
     (let line = TrimSpace (dropCR raw) in
      if line = '''' \<or> HasPrefix line '':'' then Skip
      else case CutPrefix line ''data:'' of
        None \<Rightarrow> Skip
      | Some rest \<Rightarrow>
          (let payload = TrimSpace rest in
           if payload = ''[DONE]'' then Done
           else case decode payload of Inl e \<Rightarrow> Bad e | Inr c \<Rightarrow> Payload c))"

fun sse_loop ::
  "(string \<Rightarrow> go_error + chat_chunk) \<Rightarrow> adapter \<Rightarrow> sentinel option \<Rightarrow> go_error option
    \<Rightarrow> (chat_chunk \<Rightarrow> 'w \<Rightarrow> go_error option \<times> 'w) \<Rightarrow> string list \<Rightarrow> 'w \<Rightarrow> go_error option \<times> 'w" where
  "sse_loop decode p ctx_err read_err onChunk [] w =
     (case read_err of
        Some e \<Rightarrow> (Some (ProviderError (openai_transportError p ctx_err e)), w)
      | None \<Rightarrow> (Some (ProviderError (Errorf KindUnavailable (ad_name p) ''stream ended without terminator'')), w))"
| "sse_loop decode p ctx_err read_err onChunk (l # ls) w =
     (if too_long l then (Some (ProviderError (openai_transportError p ctx_err ErrTooLong)), w)
      else case sse_classify decode l of
        Skip \<Rightarrow> sse_loop decode p ctx_err read_err onChunk ls w
      | Done \<Rightarrow> (None, w)
      | Bad e \<Rightarrow> (Some (ProviderError (Wrap KindUnavailable (ad_name p) e ''decode stream chunk'')), w)
      | Payload c \<Rightarrow>
          (case onChunk c w of
             (Some e, w') \<Rightarrow> (Some e, w')
           | (None, w') \<Rightarrow> sse_loop decode p ctx_err read_err onChunk ls w'))"

definition parseSSE ::
  "(string \<Rightarrow> go_error + chat_chunk) \<Rightarrow> adapter \<Rightarrow> sentinel option \<Rightarrow> http_response
    \<Rightarrow> (chat_chunk \<Rightarrow> 'w \<Rightarrow> go_error option \<times> 'w) \<Rightarrow> 'w \<Rightarrow> go_error option \<times> 'w" where
  "parseSSE decode p ctx_err resp onChunk w =
     sse_loop decode p ctx_err (hs_ReadErr resp) onChunk (raw_lines (hs_Body resp)) w"

section \<open>The provider's operations\<close>

record openai_decoders =
  od_chat :: "http_response \<Rightarrow> go_error + chat_response"
  od_chunk :: "string \<Rightarrow> go_error + chat_chunk"
  od_embed :: "http_response \<Rightarrow> go_error + embedding_response"
  od_error :: "string \<Rightarrow> api_error option"

definition openai_Chat ::
  "openai_body http_env \<Rightarrow> openai_decoders \<Rightarrow> adapter \<Rightarrow> chat_request \<Rightarrow> go_error + chat_response" where
  "openai_Chat h d p req =
     (case openai_newRequest h p ''/chat/completions'' (ChatBody (buildBody req False)) False of
        Inl e \<Rightarrow> Inl e
      | Inr httpReq \<Rightarrow>
          (case he_do h httpReq of
             Inl err \<Rightarrow> Inl (ProviderError (openai_transportError p (he_ctx_err h) err))
           | Inr resp \<Rightarrow>
               if hs_StatusCode resp \<noteq> 200
               then Inl (ProviderError (openai_errorFromResponse h (od_error d) p resp))
               else case od_chat d resp of
                 Inl err \<Rightarrow> Inl (ProviderError (Wrap KindUnavailable (ad_name p) err ''decode response''))
               | Inr out \<Rightarrow>
                   if resp_Choices out = []
                   then Inl (ProviderError (Errorf KindUnavailable (ad_name p) ''upstream returned no choices''))
                   else Inr out))"

definition openai_ChatStream ::
  "openai_body http_env \<Rightarrow> openai_decoders \<Rightarrow> adapter \<Rightarrow> chat_request
    \<Rightarrow> (chat_chunk \<Rightarrow> 'w \<Rightarrow> go_error option \<times> 'w) \<Rightarrow> 'w \<Rightarrow> go_error option \<times> 'w" where
  "openai_ChatStream h d p req onChunk w =
     (case openai_newRequest h p ''/chat/completions'' (ChatBody (buildBody req True)) True of
        Inl e \<Rightarrow> (Some e, w)
      | Inr httpReq \<Rightarrow>
          (case he_do h httpReq of
             Inl err \<Rightarrow> (Some (ProviderError (openai_transportError p (he_ctx_err h) err)), w)
           | Inr resp \<Rightarrow>
               if hs_StatusCode resp \<noteq> 200
               then (Some (ProviderError (openai_errorFromResponse h (od_error d) p resp)), w)
               else parseSSE (od_chunk d) p (he_ctx_err h) resp onChunk w))"

definition openai_Embed ::
  "openai_body http_env \<Rightarrow> openai_decoders \<Rightarrow> adapter \<Rightarrow> embedding_request \<Rightarrow> go_error + embedding_response" where
  "openai_Embed h d p req =
     (case openai_newRequest h p ''/embeddings'' (EmbedBody req) False of
        Inl e \<Rightarrow> Inl e
      | Inr httpReq \<Rightarrow>
          (case he_do h httpReq of
             Inl err \<Rightarrow> Inl (ProviderError (openai_transportError p (he_ctx_err h) err))
           | Inr resp \<Rightarrow>
               if hs_StatusCode resp \<noteq> 200
               then Inl (ProviderError (openai_errorFromResponse h (od_error d) p resp))
               else case od_embed d resp of
                 Inl err \<Rightarrow> Inl (ProviderError (Wrap KindUnavailable (ad_name p) err ''decode embeddings response''))
               | Inr out \<Rightarrow> Inr out))"

definition groq_Embed :: "adapter \<Rightarrow> embedding_request \<Rightarrow> go_error + embedding_response" where
  "groq_Embed p req = Inl (Sentinel ErrUnsupported)"

section \<open>The stream contract\<close>

text \<open>
  What every provider promises the executor about \<open>ChatStream\<close>: it hands the chunks of a stream to
  the callback in order, stops at the callback's first error and returns it as it is, and otherwise
  returns how the stream ended.
\<close>

locale provider_stream =
  fixes run :: "'b \<Rightarrow> (chat_chunk \<Rightarrow> 'w \<Rightarrow> go_error option \<times> 'w) \<Rightarrow> 'w \<Rightarrow> go_error option \<times> 'w"
    and chunks :: "'b \<Rightarrow> chat_chunk list"
    and fin :: "'b \<Rightarrow> go_error option"
  assumes run_feed: "run b onChunk w = feed onChunk (chunks b) (fin b) w"
begin

lemma run_quiet:
  assumes "\<And>c v. fst (onChunk c v) = None"
  shows "run b onChunk w = (fin b, fold (\<lambda>c v. snd (onChunk c v)) (chunks b) w)"
proof -
  have "feed onChunk cs e v = (e, fold (\<lambda>c v. snd (onChunk c v)) cs v)" for cs e v
  proof (induction cs arbitrary: v)
    case (Cons c cs)
    obtain v' where "onChunk c v = (None, v')" using assms[of c v] by (metis prod.collapse)
    then show ?case using Cons.IH[of v'] by simp
  qed simp
  then show ?thesis by (simp add: run_feed)
qed

lemma run_abort:
  assumes "chunks b = pre @ c # post" and "\<And>c' v. c' \<in> set pre \<Longrightarrow> fst (onChunk c' v) = None"
    and "\<And>v. fst (onChunk c v) = Some e"
  shows "fst (run b onChunk w) = Some e"
proof -
  have "fst (feed onChunk (pre @ c # post) e' v) = Some e" for e' v
    using assms(2)
  proof (induction pre arbitrary: v)
    case Nil
    obtain v' where "onChunk c v = (Some e, v')" using assms(3)[of v] by (metis prod.collapse)
    then show ?case by simp
  next
    case (Cons c' pre)
    obtain v' where "onChunk c' v = (None, v')" using Cons.prems[of c' v] by (metis list.set_intros(1) prod.collapse)
    then show ?case using Cons by simp
  qed
  then show ?thesis by (simp add: run_feed assms(1))
qed

end

text \<open>The stream an OpenAI-shaped body decodes to: its chunks and its end.\<close>

fun sse_data ::
  "(string \<Rightarrow> go_error + chat_chunk) \<Rightarrow> adapter \<Rightarrow> sentinel option \<Rightarrow> go_error option
    \<Rightarrow> string list \<Rightarrow> chat_chunk list \<times> go_error option" where
  "sse_data decode p ctx_err read_err [] =
     ([], Some (case read_err of
        Some e \<Rightarrow> ProviderError (openai_transportError p ctx_err e)
      | None \<Rightarrow> ProviderError (Errorf KindUnavailable (ad_name p) ''stream ended without terminator'')))"
| "sse_data decode p ctx_err read_err (l # ls) =
     (if too_long l then ([], Some (ProviderError (openai_transportError p ctx_err ErrTooLong)))
      else case sse_classify decode l of
        Skip \<Rightarrow> sse_data decode p ctx_err read_err ls
      | Done \<Rightarrow> ([], None)
      | Bad e \<Rightarrow> ([], Some (ProviderError (Wrap KindUnavailable (ad_name p) e ''decode stream chunk'')))
      | Payload c \<Rightarrow>
          (let (cs, fin) = sse_data decode p ctx_err read_err ls in (c # cs, fin)))"

definition openai_stream ::
  "openai_body http_env \<Rightarrow> openai_decoders \<Rightarrow> adapter \<Rightarrow> chat_request \<Rightarrow> chat_chunk list \<times> go_error option" where
  "openai_stream h d p req =
     (case openai_newRequest h p ''/chat/completions'' (ChatBody (buildBody req True)) True of
        Inl e \<Rightarrow> ([], Some e)
      | Inr httpReq \<Rightarrow>
          (case he_do h httpReq of
             Inl err \<Rightarrow> ([], Some (ProviderError (openai_transportError p (he_ctx_err h) err)))
           | Inr resp \<Rightarrow>
               if hs_StatusCode resp \<noteq> 200
               then ([], Some (ProviderError (openai_errorFromResponse h (od_error d) p resp)))
               else sse_data (od_chunk d) p (he_ctx_err h) (hs_ReadErr resp) (raw_lines (hs_Body resp))))"

lemma sse_loop_feed:
  "sse_loop decode p ctx_err read_err onChunk ls w =
     feed onChunk (fst (sse_data decode p ctx_err read_err ls)) (snd (sse_data decode p ctx_err read_err ls)) w"
  by (induction ls arbitrary: w)
     (auto simp: Let_def split_beta split: option.splits sse_line.splits prod.splits)

interpretation openai_ps: provider_stream
  "\<lambda>(h, d, p, req). openai_ChatStream h d p req"
  "\<lambda>(h, d, p, req). fst (openai_stream h d p req)"
  "\<lambda>(h, d, p, req). snd (openai_stream h d p req)"
  by unfold_locales
     (auto simp: openai_ChatStream_def openai_stream_def parseSSE_def sse_loop_feed split: sum.splits)

section \<open>Lines\<close>

lemma raw_lines_line [simp]:
  assumes "CHR 0x0A \<notin> set l"
  shows "raw_lines (l @ CHR 0x0A # rest) = l # raw_lines rest"
  using assms by (subst raw_lines.simps) (auto simp: takeWhile_append dropWhile_append)

lemma raw_lines_Nil [simp]: "raw_lines [] = []"
  by (simp add: raw_lines.simps)

lemma raw_lines_no_feed: "l \<in> set (raw_lines s) \<Longrightarrow> CHR 0x0A \<notin> set l"
  by (induction s rule: raw_lines.induct)
     (subst (asm) (2) raw_lines.simps, auto split: if_splits dest: set_takeWhileD)


text \<open>A frame the gateway writes, read back by the adapter.\<close>

definition sse_frame :: "string \<Rightarrow> string" where
  "sse_frame b = ''data: '' @ b @ [CHR 0x0A, CHR 0x0A]"

text \<open>
  A payload that survives framing: no line feed, no space or tab at its ends, not the terminator,
  and small enough for the reader's buffer.
\<close>

definition framable :: "string \<Rightarrow> bool" where
  "framable b \<longleftrightarrow> CHR 0x0A \<notin> set b \<and> b \<noteq> '''' \<and> \<not> is_space (hd b) \<and> \<not> is_space (last b)
     \<and> b \<noteq> ''[DONE]'' \<and> length b + 6 < 1024 * 1024"

lemma TrimSpace_id: "s \<noteq> '''' \<Longrightarrow> \<not> is_space (hd s) \<Longrightarrow> \<not> is_space (last s) \<Longrightarrow> TrimSpace s = s"
  using dropWhile_eq_self_iff[of is_space s] dropWhile_eq_self_iff[of is_space "rev s"]
  by (simp add: TrimSpace_def hd_rev)

lemma TrimSpace_skip: "is_space c \<Longrightarrow> TrimSpace (c # s) = TrimSpace s"
  by (simp add: TrimSpace_def)

lemma data_line_trimmed:
  assumes "b \<noteq> ''''" "\<not> is_space (hd b)" "\<not> is_space (last b)"
  shows "TrimSpace (dropCR (''data: '' @ b)) = ''data: '' @ b"
proof -
  have "last b \<noteq> CHR 0x0D" using assms(3) by (auto simp: is_space_def)
  then have "dropCR (''data: '' @ b) = ''data: '' @ b" using assms(1) by (simp add: dropCR_def)
  moreover have "TrimSpace (''data: '' @ b) = ''data: '' @ b"
    using assms by (intro TrimSpace_id) (auto simp: is_space_def)
  ultimately show ?thesis by simp
qed

lemma sse_classify_data:
  assumes "framable b"
  shows "sse_classify decode (''data: '' @ b) = (case decode b of Inl e \<Rightarrow> Bad e | Inr c \<Rightarrow> Payload c)"
proof -
  have b: "b \<noteq> ''''" "\<not> is_space (hd b)" "\<not> is_space (last b)" "b \<noteq> ''[DONE]''"
    using assms by (auto simp: framable_def)
  have "TrimSpace (CHR '' '' # b) = b"
    using TrimSpace_id[OF b(1-3)] by (simp add: TrimSpace_skip is_space_def)
  then show ?thesis
    using b(4) by (simp add: sse_classify_def data_line_trimmed[OF b(1-3), simplified] CutPrefix_def HasPrefix_def)
qed

lemma sse_classify_done: "sse_classify decode ''data: [DONE]'' = Done"
  by (simp add: sse_classify_def TrimSpace_def dropCR_def is_space_def CutPrefix_def HasPrefix_def)

lemma sse_classify_blank: "sse_classify decode '''' = Skip"
  by (simp add: sse_classify_def TrimSpace_def dropCR_def)

lemma raw_lines_frame:
  assumes "CHR 0x0A \<notin> set b"
  shows "raw_lines (sse_frame b @ rest) = (''data: '' @ b) # '''' # raw_lines rest"
  using raw_lines_line[of "''data: '' @ b" "CHR 0x0A # rest"] raw_lines_line[of "''''" rest] assms
  by (simp add: sse_frame_def)

lemma sse_data_frame:
  assumes "framable b" "decode b = Inr c"
  shows "sse_data decode p ce re (raw_lines (sse_frame b @ rest)) =
    (c # fst (sse_data decode p ce re (raw_lines rest)), snd (sse_data decode p ce re (raw_lines rest)))"
proof -
  have "CHR 0x0A \<notin> set b" "\<not> too_long (''data: '' @ b)" "\<not> too_long ''''"
    using assms(1) by (auto simp: framable_def too_long_def)
  then show ?thesis
    using sse_classify_data[OF assms(1), of decode] assms(2)
    by (simp add: raw_lines_frame sse_classify_blank split_beta)
qed

lemma sse_data_frames:
  assumes "\<And>c. c \<in> set cs \<Longrightarrow> framable (encode c) \<and> decode (encode c) = Inr c"
  shows "sse_data decode p ce re (raw_lines (concat (map (\<lambda>c. sse_frame (encode c)) cs) @ rest)) =
    (cs @ fst (sse_data decode p ce re (raw_lines rest)), snd (sse_data decode p ce re (raw_lines rest)))"
  using assms by (induction cs) (auto simp: sse_data_frame simp del: sse_data.simps)

lemma sse_data_done:
  "sse_data decode p ce re (raw_lines (sse_frame ''[DONE]'' @ rest)) = ([], None)"
  using raw_lines_frame[of "''[DONE]''" rest] sse_classify_done[of decode]
  by (simp add: too_long_def)

section \<open>Properties\<close>

text \<open>
  C33. Event-stream round trip: a body made of the frames \<open>data: <json>\<close> of any chunks, each behind
  a blank line, closed by \<open>data: [DONE]\<close>, which is what the gateway itself writes, is delivered by the
  OpenAI adapter chunk for chunk and in order, and reported complete, whatever follows the
  terminator; cut off before the terminator, the same chunks are delivered but the stream is reported
  as broken with a retryable error.
\<close>

theorem sse_roundtrip:
  assumes "\<And>c. c \<in> set cs \<Longrightarrow> framable (encode c) \<and> decode (encode c) = Inr c"
    and "hs_Body resp = concat (map (\<lambda>c. sse_frame (encode c)) cs) @ sse_frame ''[DONE]'' @ junk"
    and "hs_Body torn = concat (map (\<lambda>c. sse_frame (encode c)) cs)" "hs_ReadErr torn = None"
  shows "parseSSE decode p ce resp onChunk w = feed onChunk cs None w
    \<and> parseSSE decode p ce torn onChunk w = feed onChunk cs
        (Some (ProviderError (Errorf KindUnavailable (ad_name p) ''stream ended without terminator''))) w"
  using sse_data_frames[where rest = "sse_frame ''[DONE]'' @ junk", OF assms(1)]
    sse_data_frames[where rest = "''''", OF assms(1)] assms(2-4)
  by (simp add: parseSSE_def sse_loop_feed sse_data_done)

definition demo_adapter :: adapter where
  "demo_adapter = new_adapter ''openai'' ''u''
     \<lparr>op_Name = '''', op_BaseURL = '''', op_APIKey = '''', op_Models = [], op_Timeout = 0\<rparr>"

definition demo_response :: "int \<Rightarrow> string \<Rightarrow> http_response" where
  "demo_response st body = \<lparr>hs_StatusCode = st, hs_RetryAfter = '''', hs_Body = body, hs_ReadErr = None\<rparr>"

definition demo_decode :: "string \<Rightarrow> go_error + chat_chunk" where
  "demo_decode s = (if s = ''{x}'' then Inr (demo_chunk ''x'') else Inl ErrTooLong)"

theorem sse_roundtrip_witness:
  "parseSSE demo_decode demo_adapter None
     (demo_response 200 (sse_frame ''{x}'' @ sse_frame ''{x}'' @ sse_frame ''[DONE]''))
     (\<lambda>c w. (None, c # w)) [] = (None, [demo_chunk ''x'', demo_chunk ''x''])"
proof -
  have "framable ''{x}''" by (simp add: framable_def is_space_def)
  then show ?thesis
    using sse_roundtrip[of "[demo_chunk ''x'', demo_chunk ''x'']" "\<lambda>c. ''{x}''" demo_decode
        "demo_response 200 (sse_frame ''{x}'' @ sse_frame ''{x}'' @ sse_frame ''[DONE]'')" "''''"
        "demo_response 200 (sse_frame ''{x}'' @ sse_frame ''{x}'')" demo_adapter
        None "\<lambda>c w. (None, c # w)" "[]"]
    by (simp add: demo_response_def demo_decode_def)
qed

text \<open>
  How the OpenAI adapter classifies a refusal: an oversized context and a content filter are
  recognised by the error code whatever the HTTP status, so the first fails over and the second does
  not; a 4xx without such a code is never retried, 408 and 429 excepted; the error always carries the
  provider's name, the upstream's status and a message of at most 515 bytes, unless the status has to
  stand for it. An exhausted quota, of which the code says that retrying the same provider cannot
  help, gets the kind \<open>KindUnavailable\<close>, which is retried.
\<close>

theorem openai_error_classes:
  "pe_Provider (openai_errorFromResponse h dec p resp) = ad_name p
   \<and> pe_Status (openai_errorFromResponse h dec p resp) = hs_StatusCode resp
   \<and> length (pe_Message (openai_errorFromResponse h dec p resp)) \<le> 515
   \<and> (\<forall>ae. dec (take 32768 (hs_Body resp)) = Some ae \<and> ae_Message ae \<noteq> '''' \<longrightarrow>
        (let e = openai_errorFromResponse h dec p resp in
         (ae_Code ae = ''context_length_exceeded'' \<longrightarrow> pe_Kind e = KindContextLength \<and> Failoverable e \<and> \<not> Retryable e) \<and>
         (ae_Code ae = ''content_filter'' \<longrightarrow> pe_Kind e = KindContentFilter \<and> \<not> Failoverable e) \<and>
         (ae_Code ae = ''insufficient_quota'' \<longrightarrow> pe_Kind e = KindUnavailable \<and> Retryable e)))
   \<and> (dec (take 32768 (hs_Body resp)) = None \<and> 400 \<le> hs_StatusCode resp \<and> hs_StatusCode resp < 500 \<and>
        hs_StatusCode resp \<notin> {408, 429} \<longrightarrow> \<not> Retryable (openai_errorFromResponse h dec p resp))"
  using ClassifyStatus_client_error[of "hs_StatusCode resp"]
  by (auto simp: openai_errorFromResponse_def Let_def go_truncate_def refine_kind_def Retryable_def
      Failoverable_def split: option.split)

definition demo_http :: "openai_body http_env" where
  "demo_http = \<lparr>he_url_err = (\<lambda>u. None), he_do = (\<lambda>r. Inr (demo_response 429 ''{}'')), he_ctx_err = None,
     he_status_text = (\<lambda>n. ''''), he_parse_duration = (\<lambda>s. None), he_parse_time = (\<lambda>s. None), he_now = 0\<rparr>"

theorem openai_error_classes_witness:
  "Retryable (openai_errorFromResponse demo_http
     (\<lambda>s. Some \<lparr>ae_Message = ''quota'', ae_Type = '''', ae_Code = ''insufficient_quota''\<rparr>)
     demo_adapter (demo_response 429 ''{}''))"
  using openai_error_classes[of demo_http
      "\<lambda>s. Some \<lparr>ae_Message = ''quota'', ae_Type = '''', ae_Code = ''insufficient_quota''\<rparr>"
      demo_adapter "demo_response 429 ''{}''"]
  by (simp add: Let_def)

end
