(* ===== verification/Gemini.thy ===== *)
theory Gemini
  imports OpenAI
begin

text \<open>
  \<open>internal/provider/gemini.go\<close>: the adapter that translates to and from Gemini's format. The
  HTTP exchange and the JSON decoders are parameters as in the OpenAI adapter; \<open>new_id\<close> and
  \<open>created\<close> are what \<open>NewID\<close> and the clock yield.
\<close>

section \<open>Wire types\<close>

record gemini_content =
  gc_Role :: string
  gc_Parts :: "string list"

record gemini_gen_config =
  gg_Temperature :: "float64 option"
  gg_TopP :: "float64 option"
  gg_MaxOutputTokens :: "int option"
  gg_StopSequences :: "string list"
  gg_CandidateCount :: int

record gemini_request =
  gr_Contents :: "gemini_content list"
  gr_SystemInstruction :: "gemini_content option"
  gr_GenerationConfig :: gemini_gen_config

record gemini_candidate =
  gd_Content :: gemini_content
  gd_FinishReason :: string
  gd_Index :: int

record gemini_usage =
  gu_PromptTokenCount :: int
  gu_CandidatesTokenCount :: int
  gu_TotalTokenCount :: int

record gemini_response =
  gp_Candidates :: "gemini_candidate list"
  gp_UsageMetadata :: gemini_usage
  gp_BlockReason :: "string option"

record gemini_error =
  ge_Message :: string
  ge_Status :: string

section \<open>Translation\<close>

definition gemini_role :: "message \<Rightarrow> string" where
  "gemini_role m = (if msg_Role m = ''assistant'' then ''model'' else ''user'')"

text \<open>One message appended to the turns so far: merged into the last turn when its role repeats.\<close>

definition add_turn :: "gemini_content list \<Rightarrow> message \<Rightarrow> gemini_content list" where
  "add_turn contents m =
     (let role = gemini_role m in
      if contents \<noteq> [] \<and> gc_Role (last contents) = role
      then butlast contents @ [(last contents)\<lparr>gc_Parts := gc_Parts (last contents) @ [msg_Content m]\<rparr>]
      else contents @ [\<lparr>gc_Role = role, gc_Parts = [msg_Content m]\<rparr>])"

fun gemini_turns :: "message list \<Rightarrow> gemini_content list \<Rightarrow> string list \<Rightarrow> gemini_content list \<times> string list" where
  "gemini_turns [] contents systemParts = (contents, systemParts)"
| "gemini_turns (m # ms) contents systemParts =
     (if msg_Role m = ''system'' then gemini_turns ms contents (systemParts @ [msg_Content m])
      else gemini_turns ms (add_turn contents m) systemParts)"

definition toGemini :: "chat_request \<Rightarrow> gemini_request" where
  "toGemini req =
     (let (contents, systemParts) = gemini_turns (cr_Messages req) [] [] in
      \<lparr>gr_Contents = contents,
       gr_SystemInstruction =
         (if systemParts \<noteq> []
          then Some \<lparr>gc_Role = '''', gc_Parts = [Join [CHR 0x0A, CHR 0x0A] systemParts]\<rparr> else None),
       gr_GenerationConfig =
         \<lparr>gg_Temperature = cr_Temperature req, gg_TopP = cr_TopP req,
          gg_MaxOutputTokens = cr_MaxTokens req, gg_StopSequences = cr_Stop req, gg_CandidateCount = 0\<rparr>\<rparr>)"

definition finishReason :: "string \<Rightarrow> string" where
  "finishReason g =
     (if g = ''STOP'' then ''stop''
      else if g = ''MAX_TOKENS'' then ''length''
      else if g = ''SAFETY'' \<or> g = ''BLOCKLIST'' \<or> g = ''PROHIBITED_CONTENT'' then ''content_filter''
      else if g = '''' then ''''
      else ToLower g)"

definition gemini_text :: "gemini_response \<Rightarrow> string" where
  "gemini_text r = (case gp_Candidates r of [] \<Rightarrow> '''' | c # _ \<Rightarrow> concat (gc_Parts (gd_Content c)))"

definition toUsage :: "gemini_usage \<Rightarrow> usage" where
  "toUsage u =
     \<lparr>us_PromptTokens = gu_PromptTokenCount u, us_CompletionTokens = gu_CandidatesTokenCount u,
      us_TotalTokens = gu_TotalTokenCount u\<rparr>"

section \<open>Requests and errors\<close>

datatype gemini_body =
    GenerateBody gemini_request
  | BatchEmbedBody "(string \<times> gemini_content) list"

definition gemini_newRequest ::
  "gemini_body http_env \<Rightarrow> adapter \<Rightarrow> string \<Rightarrow> string \<Rightarrow> string \<Rightarrow> gemini_body
    \<Rightarrow> go_error + gemini_body http_request" where
  "gemini_newRequest h p model mthd query body =
     (let url = ad_baseURL p @ ''/models/'' @ model @ '':'' @ mthd
                @ (if query \<noteq> '''' then ''?'' @ query else '''') in
      case he_url_err h url of
        Some e \<Rightarrow> Inl (ProviderError (Wrap KindInternal (ad_name p) e ''build request''))
      | None \<Rightarrow> Inr
          \<lparr>hq_URL = url,
           hq_Headers = [(''Content-Type'', ''application/json''), (''x-goog-api-key'', ad_apiKey p)],
           hq_Body = body\<rparr>)"

definition gemini_kind :: "string \<Rightarrow> string \<Rightarrow> kind \<Rightarrow> kind" where
  "gemini_kind status msg kind =
     (if status = ''RESOURCE_EXHAUSTED'' then KindRateLimit
      else if status = ''UNAUTHENTICATED'' \<or> status = ''PERMISSION_DENIED'' then KindAuth
      else if status = ''UNAVAILABLE'' \<or> status = ''INTERNAL'' then KindUnavailable
      else if status = ''DEADLINE_EXCEEDED'' then KindTimeout
      else if status = ''INVALID_ARGUMENT''
      then (if Contains (ToLower msg) ''token'' then KindContextLength else KindInvalidRequest)
      else kind)"

definition gemini_errorFromResponse ::
  "'b http_env \<Rightarrow> (string \<Rightarrow> gemini_error option) \<Rightarrow> adapter \<Rightarrow> http_response \<Rightarrow> prov_error" where
  "gemini_errorFromResponse h decode_err p resp =
     (let body = take (32 * 1024) (hs_Body resp);
          kind0 = ClassifyStatus (hs_StatusCode resp);
          msg0 = TrimSpace body;
          (kind, msg1) = (case decode_err body of
             Some ge \<Rightarrow> if ge_Message ge \<noteq> ''''
                        then (gemini_kind (ge_Status ge) (ge_Message ge) kind0, ge_Message ge) else (kind0, msg0)
           | None \<Rightarrow> (kind0, msg0));
          msg = (if msg1 = '''' then he_status_text h (hs_StatusCode resp) else msg1)
      in PError kind (ad_name p) (hs_StatusCode resp) (go_truncate msg 512) (retry_after h resp) None)"

definition gemini_transportError :: "adapter \<Rightarrow> sentinel option \<Rightarrow> go_error \<Rightarrow> prov_error" where
  "gemini_transportError p ctx_err err =
     (if ctx_err = Some ContextCanceled then Wrap KindInternal (ad_name p) err ''request canceled''
      else if ctx_err = Some ContextDeadlineExceeded
      then Wrap KindTimeout (ad_name p) err ''request timed out''
      else Wrap KindUnavailable (ad_name p) err ''transport error'')"

definition prompt_blocked :: "adapter \<Rightarrow> gemini_response \<Rightarrow> go_error option" where
  "prompt_blocked p gr =
     (case gp_BlockReason gr of
        Some reason \<Rightarrow>
          if reason \<noteq> ''''
          then Some (ProviderError (Errorf KindContentFilter (ad_name p) (''prompt blocked: '' @ reason)))
          else None
      | None \<Rightarrow> None)"

section \<open>Chat\<close>

record gemini_decoders =
  gx_response :: "http_response \<Rightarrow> go_error + gemini_response"
  gx_chunk :: "string \<Rightarrow> go_error + gemini_response"
  gx_embed :: "http_response \<Rightarrow> go_error + float64 list list"
  gx_error :: "string \<Rightarrow> gemini_error option"

definition gemini_Chat ::
  "gemini_body http_env \<Rightarrow> gemini_decoders \<Rightarrow> string \<Rightarrow> instant \<Rightarrow> adapter \<Rightarrow> chat_request
    \<Rightarrow> go_error + chat_response" where
  "gemini_Chat h d new_id created p req =
     (case gemini_newRequest h p (upstreamModel req) ''generateContent'' '''' (GenerateBody (toGemini req)) of
        Inl e \<Rightarrow> Inl e
      | Inr httpReq \<Rightarrow>
          (case he_do h httpReq of
             Inl err \<Rightarrow> Inl (ProviderError (gemini_transportError p (he_ctx_err h) err))
           | Inr resp \<Rightarrow>
               if hs_StatusCode resp \<noteq> 200
               then Inl (ProviderError (gemini_errorFromResponse h (gx_error d) p resp))
               else case gx_response d resp of
                 Inl err \<Rightarrow> Inl (ProviderError (Wrap KindUnavailable (ad_name p) err ''decode response''))
               | Inr gr \<Rightarrow>
                   (case prompt_blocked p gr of
                      Some e \<Rightarrow> Inl e
                    | None \<Rightarrow>
                        (case gp_Candidates gr of
                           [] \<Rightarrow> Inl (ProviderError (Errorf KindUnavailable (ad_name p) ''upstream returned no candidates''))
                         | cand # _ \<Rightarrow> Inr
                             \<lparr>resp_ID = ''chatcmpl-'' @ new_id, resp_Object = ''chat.completion'',
                              resp_Created = created, resp_Model = cr_Model req,
                              resp_Choices =
                                [\<lparr>ch_Index = 0,
                                  ch_Message = \<lparr>msg_Role = ''assistant'', msg_Content = gemini_text gr, msg_Name = ''''\<rparr>,
                                  ch_FinishReason = finishReason (gd_FinishReason cand)\<rparr>],
                              resp_Usage = toUsage (gp_UsageMetadata gr)\<rparr>))))"

section \<open>Streaming\<close>

definition gemini_chunk ::
  "string \<Rightarrow> instant \<Rightarrow> chat_request \<Rightarrow> bool \<Rightarrow> gemini_response \<Rightarrow> gemini_candidate \<Rightarrow> chat_chunk" where
  "gemini_chunk ident created req is_first gr cand =
     (let r = finishReason (gd_FinishReason cand);
          fr = (if r \<noteq> '''' then Some r else None) in
      \<lparr>ck_ID = ident, ck_Object = ''chat.completion.chunk'', ck_Created = created, ck_Model = cr_Model req,
       ck_Choices =
         [\<lparr>sc_Index = 0,
           sc_Delta = \<lparr>sd_Role = (if is_first then ''assistant'' else ''''), sd_Content = gemini_text gr\<rparr>,
           sc_FinishReason = fr\<rparr>],
       ck_Usage = (if fr \<noteq> None \<and> gu_TotalTokenCount (gp_UsageMetadata gr) > 0
                   then Some (toUsage (gp_UsageMetadata gr)) else None)\<rparr>)"

text \<open>What one line means: a decoding failure, a blocked prompt, nothing, or a response.\<close>

definition gemini_classify ::
  "(string \<Rightarrow> go_error + gemini_response) \<Rightarrow> adapter \<Rightarrow> string \<Rightarrow> (gemini_response \<times> gemini_candidate) sse_line" where
  "gemini_classify decode p raw =
     (case CutPrefix (TrimSpace (dropCR raw)) ''data:'' of
        None \<Rightarrow> Skip
      | Some payload \<Rightarrow>
          (case decode (TrimSpace payload) of
             Inl e \<Rightarrow> Bad (ProviderError (Wrap KindUnavailable (ad_name p) e ''decode stream chunk''))
           | Inr gr \<Rightarrow>
               (case prompt_blocked p gr of
                  Some e \<Rightarrow> Bad e
                | None \<Rightarrow> (case gp_Candidates gr of [] \<Rightarrow> Skip | cand # _ \<Rightarrow> Payload (gr, cand)))))"

fun gemini_loop ::
  "(string \<Rightarrow> go_error + gemini_response) \<Rightarrow> adapter \<Rightarrow> (bool \<Rightarrow> gemini_response \<Rightarrow> gemini_candidate \<Rightarrow> chat_chunk)
    \<Rightarrow> sentinel option \<Rightarrow> go_error option \<Rightarrow> (chat_chunk \<Rightarrow> 'w \<Rightarrow> go_error option \<times> 'w)
    \<Rightarrow> bool \<Rightarrow> string list \<Rightarrow> 'w \<Rightarrow> go_error option \<times> 'w" where
  "gemini_loop decode p mk ctx_err read_err onChunk is_first [] w =
     (case read_err of
        Some e \<Rightarrow> (Some (ProviderError (gemini_transportError p ctx_err e)), w)
      | None \<Rightarrow> (None, w))"
| "gemini_loop decode p mk ctx_err read_err onChunk is_first (l # ls) w =
     (if too_long l then (Some (ProviderError (gemini_transportError p ctx_err ErrTooLong)), w)
      else case gemini_classify decode p l of
        Skip \<Rightarrow> gemini_loop decode p mk ctx_err read_err onChunk is_first ls w
      | Done \<Rightarrow> gemini_loop decode p mk ctx_err read_err onChunk is_first ls w
      | Bad e \<Rightarrow> (Some e, w)
      | Payload (gr, cand) \<Rightarrow>
          (case onChunk (mk is_first gr cand) w of
             (Some e, w') \<Rightarrow> (Some e, w')
           | (None, w') \<Rightarrow> gemini_loop decode p mk ctx_err read_err onChunk False ls w'))"

definition gemini_ChatStream ::
  "gemini_body http_env \<Rightarrow> gemini_decoders \<Rightarrow> string \<Rightarrow> instant \<Rightarrow> adapter \<Rightarrow> chat_request
    \<Rightarrow> (chat_chunk \<Rightarrow> 'w \<Rightarrow> go_error option \<times> 'w) \<Rightarrow> 'w \<Rightarrow> go_error option \<times> 'w" where
  "gemini_ChatStream h d new_id created p req onChunk w =
     (case gemini_newRequest h p (upstreamModel req) ''streamGenerateContent'' ''alt=sse'' (GenerateBody (toGemini req)) of
        Inl e \<Rightarrow> (Some e, w)
      | Inr httpReq \<Rightarrow>
          (case he_do h (httpReq\<lparr>hq_Headers := hq_Headers httpReq @ [(''Accept'', ''text/event-stream'')]\<rparr>) of
             Inl err \<Rightarrow> (Some (ProviderError (gemini_transportError p (he_ctx_err h) err)), w)
           | Inr resp \<Rightarrow>
               if hs_StatusCode resp \<noteq> 200
               then (Some (ProviderError (gemini_errorFromResponse h (gx_error d) p resp)), w)
               else gemini_loop (gx_chunk d) p (gemini_chunk (''chatcmpl-'' @ new_id) created req)
                      (he_ctx_err h) (hs_ReadErr resp) onChunk True (raw_lines (hs_Body resp)) w))"

section \<open>Embeddings\<close>

definition qualified_model :: "string \<Rightarrow> string" where
  "qualified_model model = (if HasPrefix model ''models/'' then model else ''models/'' @ model)"

definition gemini_Embed ::
  "gemini_body http_env \<Rightarrow> gemini_decoders \<Rightarrow> adapter \<Rightarrow> embedding_request \<Rightarrow> go_error + embedding_response" where
  "gemini_Embed h d p req =
     (let body = BatchEmbedBody (map (\<lambda>inp. (qualified_model (er_Model req), \<lparr>gc_Role = '''', gc_Parts = [inp]\<rparr>))
                                   (er_Input req)) in
      case gemini_newRequest h p (er_Model req) ''batchEmbedContents'' '''' body of
        Inl e \<Rightarrow> Inl e
      | Inr httpReq \<Rightarrow>
          (case he_do h httpReq of
             Inl err \<Rightarrow> Inl (ProviderError (gemini_transportError p (he_ctx_err h) err))
           | Inr resp \<Rightarrow>
               if hs_StatusCode resp \<noteq> 200
               then Inl (ProviderError (gemini_errorFromResponse h (gx_error d) p resp))
               else case gx_embed d resp of
                 Inl err \<Rightarrow> Inl (ProviderError (Wrap KindUnavailable (ad_name p) err ''decode embeddings response''))
               | Inr vecs \<Rightarrow> Inr
                   \<lparr>ers_Object = ''list'',
                    ers_Data = map (\<lambda>(i, v). \<lparr>ed_Object = ''embedding'', ed_Index = int i, ed_Embedding = v\<rparr>)
                                 (zip [0..<length vecs] vecs),
                    ers_Model = er_Model req, ers_Usage = zero_usage\<rparr>))"

section \<open>The stream contract\<close>

fun gemini_data ::
  "(string \<Rightarrow> go_error + gemini_response) \<Rightarrow> adapter \<Rightarrow> (bool \<Rightarrow> gemini_response \<Rightarrow> gemini_candidate \<Rightarrow> chat_chunk)
    \<Rightarrow> sentinel option \<Rightarrow> go_error option \<Rightarrow> bool \<Rightarrow> string list \<Rightarrow> chat_chunk list \<times> go_error option" where
  "gemini_data decode p mk ctx_err read_err is_first [] =
     ([], map_option (\<lambda>e. ProviderError (gemini_transportError p ctx_err e)) read_err)"
| "gemini_data decode p mk ctx_err read_err is_first (l # ls) =
     (if too_long l then ([], Some (ProviderError (gemini_transportError p ctx_err ErrTooLong)))
      else case gemini_classify decode p l of
        Skip \<Rightarrow> gemini_data decode p mk ctx_err read_err is_first ls
      | Done \<Rightarrow> gemini_data decode p mk ctx_err read_err is_first ls
      | Bad e \<Rightarrow> ([], Some e)
      | Payload (gr, cand) \<Rightarrow>
          (let (cs, fin) = gemini_data decode p mk ctx_err read_err False ls
           in (mk is_first gr cand # cs, fin)))"

definition gemini_stream ::
  "gemini_body http_env \<Rightarrow> gemini_decoders \<Rightarrow> string \<Rightarrow> instant \<Rightarrow> adapter \<Rightarrow> chat_request
    \<Rightarrow> chat_chunk list \<times> go_error option" where
  "gemini_stream h d new_id created p req =
     (case gemini_newRequest h p (upstreamModel req) ''streamGenerateContent'' ''alt=sse'' (GenerateBody (toGemini req)) of
        Inl e \<Rightarrow> ([], Some e)
      | Inr httpReq \<Rightarrow>
          (case he_do h (httpReq\<lparr>hq_Headers := hq_Headers httpReq @ [(''Accept'', ''text/event-stream'')]\<rparr>) of
             Inl err \<Rightarrow> ([], Some (ProviderError (gemini_transportError p (he_ctx_err h) err)))
           | Inr resp \<Rightarrow>
               if hs_StatusCode resp \<noteq> 200
               then ([], Some (ProviderError (gemini_errorFromResponse h (gx_error d) p resp)))
               else gemini_data (gx_chunk d) p (gemini_chunk (''chatcmpl-'' @ new_id) created req)
                      (he_ctx_err h) (hs_ReadErr resp) True (raw_lines (hs_Body resp))))"

lemma gemini_loop_feed:
  "gemini_loop decode p mk ctx_err read_err onChunk is_first ls w =
     feed onChunk (fst (gemini_data decode p mk ctx_err read_err is_first ls))
       (snd (gemini_data decode p mk ctx_err read_err is_first ls)) w"
  by (induction ls arbitrary: w is_first)
     (auto simp: Let_def split_beta split: option.splits sse_line.splits prod.splits)

interpretation gemini_ps: provider_stream
  "\<lambda>(h, d, i, t, p, req). gemini_ChatStream h d i t p req"
  "\<lambda>(h, d, i, t, p, req). fst (gemini_stream h d i t p req)"
  "\<lambda>(h, d, i, t, p, req). snd (gemini_stream h d i t p req)"
  by unfold_locales
     (auto simp: gemini_ChatStream_def gemini_stream_def gemini_loop_feed split: sum.splits)

section \<open>Turns\<close>

text \<open>A list of turns read back as the messages it was merged from.\<close>

definition unmerge :: "gemini_content list \<Rightarrow> (string \<times> string) list" where
  "unmerge cs = concat (map (\<lambda>c. map (\<lambda>t. (gc_Role c, t)) (gc_Parts c)) cs)"

fun alternating :: "gemini_content list \<Rightarrow> bool" where
  "alternating [] = True"
| "alternating [c] = True"
| "alternating (c # d # cs) = (gc_Role c \<noteq> gc_Role d \<and> alternating (d # cs))"

lemma alternating_snoc:
  "alternating (cs @ [c]) \<longleftrightarrow> alternating cs \<and> (cs \<noteq> [] \<longrightarrow> gc_Role (last cs) \<noteq> gc_Role c)"
  by (induction cs rule: alternating.induct) auto

lemma add_turn_cases:
  "(\<exists>cs c. contents = cs @ [c] \<and> gc_Role c = gemini_role m \<and>
      add_turn contents m = cs @ [c\<lparr>gc_Parts := gc_Parts c @ [msg_Content m]\<rparr>])
   \<or> ((contents = [] \<or> gc_Role (last contents) \<noteq> gemini_role m) \<and>
      add_turn contents m = contents @ [\<lparr>gc_Role = gemini_role m, gc_Parts = [msg_Content m]\<rparr>])"
  by (cases contents rule: rev_cases) (auto simp: add_turn_def Let_def)

lemma add_turn_unmerge:
  "unmerge (add_turn contents m) = unmerge contents @ [(gemini_role m, msg_Content m)]"
  using add_turn_cases[of contents m] by (auto simp: unmerge_def)

lemma add_turn_alternating: "alternating contents \<Longrightarrow> alternating (add_turn contents m)"
  using add_turn_cases[of contents m] by (auto simp: alternating_snoc)

lemma add_turn_filled:
  "\<forall>c \<in> set contents. gc_Parts c \<noteq> [] \<Longrightarrow> \<forall>c \<in> set (add_turn contents m). gc_Parts c \<noteq> []"
  using add_turn_cases[of contents m] by auto

lemma gemini_turns_spec:
  assumes "alternating contents" "\<forall>c \<in> set contents. gc_Parts c \<noteq> []"
  shows "alternating (fst (gemini_turns ms contents sys))
    \<and> (\<forall>c \<in> set (fst (gemini_turns ms contents sys)). gc_Parts c \<noteq> [])
    \<and> unmerge (fst (gemini_turns ms contents sys)) = unmerge contents @
        map (\<lambda>m. (gemini_role m, msg_Content m)) (filter (\<lambda>m. msg_Role m \<noteq> ''system'') ms)
    \<and> snd (gemini_turns ms contents sys) = sys @ map msg_Content (filter (\<lambda>m. msg_Role m = ''system'') ms)"
  using assms
  by (induction ms contents sys rule: gemini_turns.induct)
     (auto simp: add_turn_unmerge add_turn_alternating add_turn_filled)

section \<open>Properties\<close>

text \<open>
  C35. The translation to Gemini keeps the conversation: the turns strictly alternate between roles
  and none is empty, as Gemini requires; read back turn by turn they are exactly the non-system
  messages, in order, with their text and their role (assistant as model, every other role as user);
  the system messages are joined, in order, in the instruction, which is absent when there are none; and
  the sampling parameters are unchanged.
\<close>

theorem toGemini_faithful:
  "alternating (gr_Contents (toGemini req))
   \<and> list_all (\<lambda>c. gc_Parts c \<noteq> []) (gr_Contents (toGemini req))
   \<and> unmerge (gr_Contents (toGemini req)) =
       map (\<lambda>m. (if msg_Role m = ''assistant'' then ''model'' else ''user'', msg_Content m))
         (filter (\<lambda>m. msg_Role m \<noteq> ''system'') (cr_Messages req))
   \<and> (let sys = map msg_Content (filter (\<lambda>m. msg_Role m = ''system'') (cr_Messages req)) in
      gr_SystemInstruction (toGemini req) =
        (if sys = [] then None else Some \<lparr>gc_Role = '''', gc_Parts = [Join [CHR 0x0A, CHR 0x0A] sys]\<rparr>))
   \<and> gg_MaxOutputTokens (gr_GenerationConfig (toGemini req)) = cr_MaxTokens req
   \<and> gg_Temperature (gr_GenerationConfig (toGemini req)) = cr_Temperature req
   \<and> gg_StopSequences (gr_GenerationConfig (toGemini req)) = cr_Stop req"
  using gemini_turns_spec[of "[]" "cr_Messages req" "[]"]
  by (auto simp: toGemini_def unmerge_def gemini_role_def list_all_iff Let_def split_beta)

lemma gemini_data_complete:
  assumes "\<forall>l \<in> set ls. \<not> too_long l \<and> (\<forall>e. gemini_classify decode p l \<noteq> Bad e)"
  shows "snd (gemini_data decode p mk ce None is_first ls) = None"
  using assms
  by (induction ls arbitrary: is_first) (auto simp: Let_def split_beta split: sse_line.splits prod.splits)

text \<open>
  A Gemini stream that is cut short is reported complete: when the connection closes cleanly,
  whatever the lines delivered so far, as long as each of them decodes, \<open>ChatStream\<close> delivers their
  chunks and returns no error, with or without a finish reason and even without a single chunk; an
  answer with no candidate is an error of \<open>Chat\<close>, and the OpenAI adapter reports every body without
  a terminator as broken.
\<close>

theorem gemini_truncation_unnoticed:
  assumes "he_url_err h = (\<lambda>u. None)" and "\<And>r. he_do h r = Inr resp" and "hs_StatusCode resp = 200"
    and "hs_ReadErr resp = None"
    and "\<forall>l \<in> set (raw_lines (hs_Body resp)). \<not> too_long l \<and> (\<forall>e. gemini_classify (gx_chunk d) p l \<noteq> Bad e)"
    and "gx_response d resp = Inr gr" "gp_Candidates gr = []" "gp_BlockReason gr = None"
    and "\<forall>l \<in> set (raw_lines (hs_Body resp)). sse_classify dec l = Skip"
  shows "gemini_ChatStream h d i t p req onChunk w = feed onChunk (fst (gemini_stream h d i t p req)) None w
    \<and> gemini_Chat h d i t p req =
        Inl (ProviderError (Errorf KindUnavailable (ad_name p) ''upstream returned no candidates''))
    \<and> parseSSE dec p ce resp onChunk w =
        (Some (ProviderError (Errorf KindUnavailable (ad_name p) ''stream ended without terminator'')), w)"
proof -
  have "sse_loop dec p ce None onChunk ls w =
      (Some (ProviderError (Errorf KindUnavailable (ad_name p) ''stream ended without terminator'')), w)"
    if "\<forall>l \<in> set ls. \<not> too_long l \<and> sse_classify dec l = Skip" for ls
    using that by (induction ls) auto
  then show ?thesis
    using assms gemini_data_complete[OF assms(5)]
    by (simp add: gemini_ChatStream_def gemini_stream_def gemini_Chat_def gemini_newRequest_def
        prompt_blocked_def Let_def parseSSE_def gemini_loop_feed)
qed

definition gemini_demo_http :: "gemini_body http_env" where
  "gemini_demo_http = \<lparr>he_url_err = (\<lambda>u. None), he_do = (\<lambda>r. Inr (demo_response 200 '''')), he_ctx_err = None,
     he_status_text = (\<lambda>n. ''''), he_parse_duration = (\<lambda>s. None), he_parse_time = (\<lambda>s. None), he_now = 0\<rparr>"

definition gemini_demo_answer :: gemini_response where
  "gemini_demo_answer = \<lparr>gp_Candidates = [],
     gp_UsageMetadata = \<lparr>gu_PromptTokenCount = 0, gu_CandidatesTokenCount = 0, gu_TotalTokenCount = 0\<rparr>,
     gp_BlockReason = None\<rparr>"

definition gemini_demo_decoders :: gemini_decoders where
  "gemini_demo_decoders = \<lparr>gx_response = (\<lambda>r. Inr gemini_demo_answer),
     gx_chunk = (\<lambda>s. Inl ErrTooLong), gx_embed = (\<lambda>r. Inl ErrTooLong), gx_error = (\<lambda>s. None)\<rparr>"

theorem gemini_truncation_unnoticed_witness:
  "gemini_Chat gemini_demo_http gemini_demo_decoders ''1'' 0 demo_adapter demo_request
   = Inl (ProviderError (Errorf KindUnavailable ''openai'' ''upstream returned no candidates''))"
proof -
  have "gemini_Chat gemini_demo_http gemini_demo_decoders ''1'' 0 demo_adapter demo_request
     = Inl (ProviderError (Errorf KindUnavailable (ad_name demo_adapter) ''upstream returned no candidates''))"
    by (rule conjunct1[OF conjunct2[OF gemini_truncation_unnoticed[of gemini_demo_http "demo_response 200 ''''"
          gemini_demo_decoders demo_adapter gemini_demo_answer demo_decode "''1''" 0 demo_request
          "\<lambda>c w. (None, w)" "()" None]]])
       (simp_all add: gemini_demo_http_def demo_response_def gemini_demo_decoders_def gemini_demo_answer_def)
  then show ?thesis by (simp add: demo_adapter_def new_adapter_def orDefault_def)
qed

end
