(* ===== verification/MockProvider.thy ===== *)
theory MockProvider
  imports OpenAI
begin

text \<open>
  \<open>internal/provider/mock.go\<close>: the scriptable provider the tests and the benchmark drive the
  gateway with. Its state, the call counter and the failures still to come, is passed through. The context is what
  \<open>ctx.Err()\<close> yields, and \<open>wait_err\<close> whether it is done before the configured latency has passed.
  The float32 normalisation of an embedding is the function \<open>scale\<close> of the sum of squares.
\<close>

definition NewMock :: "string \<Rightarrow> string \<Rightarrow> mock" where
  "NewMock name reply = (mock_of name [] 384)\<lparr>mk_Reply := reply\<rparr>"

definition mock_Name :: "mock \<Rightarrow> string" where
  "mock_Name m = provider_Name (Mock m)"

definition mock_next :: "sentinel option \<Rightarrow> sentinel option \<Rightarrow> mock \<Rightarrow> go_error option \<times> mock" where
  "mock_next wait_err ctx_err m0 =
     (let m = m0\<lparr>mk_calls := mk_calls m0 + 1\<rparr> in
      if mk_Latency m > 0 \<and> wait_err \<noteq> None
      then (Some (ProviderError (Wrap KindTimeout (mock_Name m) (Sentinel (the wait_err)) ''mock timed out'')), m)
      else case ctx_err of
        Some e \<Rightarrow> (Some (ProviderError (Wrap KindTimeout (mock_Name m) (Sentinel e) ''context expired'')), m)
      | None \<Rightarrow>
          (case mk_FailWith m of
             Some e \<Rightarrow> (Some e, m)
           | None \<Rightarrow>
               if mk_FailFirst m > 0
               then (Some (ProviderError (Errorf KindUnavailable (mock_Name m) ''mock transient failure'')),
                     m\<lparr>mk_FailFirst := mk_FailFirst m - 1\<rparr>)
               else (None, m)))"

text \<open>The echo of the last user message.\<close>

definition last_user :: "message list \<Rightarrow> string" where
  "last_user ms = (case filter (\<lambda>m. msg_Role m = ''user'') (rev ms) of [] \<Rightarrow> '''' | m # _ \<Rightarrow> msg_Content m)"

definition mock_reply :: "mock \<Rightarrow> chat_request \<Rightarrow> string" where
  "mock_reply m req =
     (if mk_Reply m \<noteq> '''' then mk_Reply m else ''mock reply to: '' @ last_user (cr_Messages req))"

definition mockUsage :: "chat_request \<Rightarrow> string \<Rightarrow> usage" where
  "mockUsage req reply =
     (let inp = sum_list (map (\<lambda>m. int (length (msg_Content m) div 4)) (cr_Messages req));
          out = int (length reply div 4)
      in \<lparr>us_PromptTokens = inp, us_CompletionTokens = out, us_TotalTokens = inp + out\<rparr>)"

definition mock_Chat ::
  "sentinel option \<Rightarrow> sentinel option \<Rightarrow> string \<Rightarrow> instant \<Rightarrow> mock \<Rightarrow> chat_request
    \<Rightarrow> (go_error + chat_response) \<times> mock" where
  "mock_Chat wait_err ctx_err new_id created m req =
     (case mock_next wait_err ctx_err m of
        (Some e, m') \<Rightarrow> (Inl e, m')
      | (None, m') \<Rightarrow>
          (let reply = mock_reply m' req in
           (Inr \<lparr>resp_ID = ''chatcmpl-mock-'' @ new_id, resp_Object = ''chat.completion'',
                 resp_Created = created, resp_Model = cr_Model req,
                 resp_Choices =
                   [\<lparr>ch_Index = 0,
                     ch_Message = \<lparr>msg_Role = ''assistant'', msg_Content = reply, msg_Name = ''''\<rparr>,
                     ch_FinishReason = ''stop''\<rparr>],
                 resp_Usage = mockUsage req reply\<rparr>, m')))"

text \<open>The chunks of a streamed reply: one per word, and a final one with the usage.\<close>

definition mock_word_chunk :: "string \<Rightarrow> instant \<Rightarrow> chat_request \<Rightarrow> nat \<Rightarrow> string \<Rightarrow> chat_chunk" where
  "mock_word_chunk ident created req i word =
     \<lparr>ck_ID = ident, ck_Object = ''chat.completion.chunk'', ck_Created = created, ck_Model = cr_Model req,
      ck_Choices =
        [\<lparr>sc_Index = 0,
          sc_Delta = (if i > 0 then \<lparr>sd_Role = '''', sd_Content = '' '' @ word\<rparr>
                      else \<lparr>sd_Role = ''assistant'', sd_Content = word\<rparr>),
          sc_FinishReason = None\<rparr>],
      ck_Usage = None\<rparr>"

definition mock_final_chunk :: "string \<Rightarrow> instant \<Rightarrow> chat_request \<Rightarrow> string \<Rightarrow> chat_chunk" where
  "mock_final_chunk ident created req reply =
     \<lparr>ck_ID = ident, ck_Object = ''chat.completion.chunk'', ck_Created = created, ck_Model = cr_Model req,
      ck_Choices = [\<lparr>sc_Index = 0, sc_Delta = \<lparr>sd_Role = '''', sd_Content = ''''\<rparr>, sc_FinishReason = Some ''stop''\<rparr>],
      ck_Usage = Some (mockUsage req reply)\<rparr>"

fun mock_words ::
  "('w \<Rightarrow> sentinel option) \<Rightarrow> string \<Rightarrow> (nat \<Rightarrow> string \<Rightarrow> chat_chunk)
    \<Rightarrow> (chat_chunk \<Rightarrow> 'w \<Rightarrow> go_error option \<times> 'w) \<Rightarrow> chat_chunk \<Rightarrow> nat \<Rightarrow> string list \<Rightarrow> 'w \<Rightarrow> go_error option \<times> 'w" where
  "mock_words ctx_err name mk onChunk final i [] w = onChunk final w"
| "mock_words ctx_err name mk onChunk final i (x # xs) w =
     (case ctx_err w of
        Some e \<Rightarrow> (Some (ProviderError (Wrap KindTimeout name (Sentinel e) ''context expired mid-stream'')), w)
      | None \<Rightarrow>
          (case onChunk (mk i x) w of
             (Some e, w') \<Rightarrow> (Some e, w')
           | (None, w') \<Rightarrow> mock_words ctx_err name mk onChunk final (Suc i) xs w'))"

definition mock_ChatStream ::
  "sentinel option \<Rightarrow> ('w \<Rightarrow> sentinel option) \<Rightarrow> string \<Rightarrow> instant \<Rightarrow> mock \<Rightarrow> chat_request
    \<Rightarrow> (chat_chunk \<Rightarrow> 'w \<Rightarrow> go_error option \<times> 'w) \<Rightarrow> 'w \<Rightarrow> (go_error option \<times> 'w) \<times> mock" where
  "mock_ChatStream wait_err ctx_err new_id created m req onChunk w =
     (case mock_next wait_err (ctx_err w) m of
        (Some e, m') \<Rightarrow> ((Some e, w), m')
      | (None, m') \<Rightarrow>
          (let reply = mock_reply m' req; ident = ''chatcmpl-mock-'' @ new_id in
           (mock_words ctx_err (mock_Name m') (mock_word_chunk ident created req) onChunk
              (mock_final_chunk ident created req reply) 0 (Fields reply) w, m')))"

text \<open>FNV-1a on 32 bits, and the vector it spreads a text into.\<close>

definition fnv32a :: "string \<Rightarrow> 32 word" where
  "fnv32a s = foldl (\<lambda>h c. (xor h (word_of_int (of_char c))) * 16777619) 2166136261 s"

definition raw_component :: "string \<Rightarrow> nat \<Rightarrow> float64" where
  "raw_component text i =
     of_int (uint (fnv32a (text @ ''|'' @ Itoa (int i)) mod 2000)) / 1000 - 1"

definition DeterministicVector :: "(float64 \<Rightarrow> float64) \<Rightarrow> string \<Rightarrow> nat \<Rightarrow> float64 list" where
  "DeterministicVector scale text vsize =
     (let v = map (raw_component text) [0..<vsize];
          total_sq = sum_list (map (\<lambda>f. f * f) v);
          norm = (if total_sq > 0 then scale total_sq else 1)
      in map (\<lambda>f. f * norm) v)"

definition mock_Embed ::
  "(float64 \<Rightarrow> float64) \<Rightarrow> sentinel option \<Rightarrow> sentinel option \<Rightarrow> mock \<Rightarrow> embedding_request
    \<Rightarrow> (go_error + embedding_response) \<times> mock" where
  "mock_Embed scale wait_err ctx_err m req =
     (case mock_next wait_err ctx_err m of
        (Some e, m') \<Rightarrow> (Inl e, m')
      | (None, m') \<Rightarrow>
          (let vsize = (if mk_VectorSize m' \<le> 0 then 384 else nat (mk_VectorSize m')) in
           (Inr \<lparr>ers_Object = ''list'',
                 ers_Data = map (\<lambda>(i, inp). \<lparr>ed_Object = ''embedding'', ed_Index = int i,
                                   ed_Embedding = DeterministicVector scale inp vsize\<rparr>)
                              (zip [0..<length (er_Input req)] (er_Input req)),
                 ers_Model = er_Model req, ers_Usage = zero_usage\<rparr>, m')))"

section \<open>The stream contract\<close>

definition mock_chunks :: "string \<Rightarrow> instant \<Rightarrow> mock \<Rightarrow> chat_request \<Rightarrow> chat_chunk list" where
  "mock_chunks new_id created m req =
     (let reply = mock_reply m req; ident = ''chatcmpl-mock-'' @ new_id; ws = Fields reply in
      map (\<lambda>(i, x). mock_word_chunk ident created req i x) (zip [0..<length ws] ws) @
      [mock_final_chunk ident created req reply])"

definition mock_stream ::
  "sentinel option \<Rightarrow> string \<Rightarrow> instant \<Rightarrow> mock \<Rightarrow> chat_request \<Rightarrow> chat_chunk list \<times> go_error option" where
  "mock_stream wait_err new_id created m req =
     (case mock_next wait_err None m of
        (Some e, m') \<Rightarrow> ([], Some e)
      | (None, m') \<Rightarrow> (mock_chunks new_id created m' req, None))"

lemma mock_words_feed:
  "mock_words (\<lambda>w. None) name mk onChunk final i xs w =
     feed onChunk (map (\<lambda>(j, x). mk j x) (zip [i..<i + length xs] xs) @ [final]) None w"
proof (induction xs arbitrary: i w)
  case Nil
  then show ?case by (auto split: prod.splits option.splits)
next
  case (Cons x xs)
  have "[i..<i + length (x # xs)] = i # [Suc i..<Suc i + length xs]" by (simp add: upt_rec)
  then show ?case using Cons.IH by (auto split: prod.splits option.splits)
qed

text \<open>While the request's context lives, the mock keeps the contract of a provider.\<close>

interpretation mock_ps: provider_stream
  "\<lambda>(wait_err, i, t, m, req) onChunk w. fst (mock_ChatStream wait_err (\<lambda>w. None) i t m req onChunk w)"
  "\<lambda>(wait_err, i, t, m, req). fst (mock_stream wait_err i t m req)"
  "\<lambda>(wait_err, i, t, m, req). snd (mock_stream wait_err i t m req)"
  by unfold_locales
     (auto simp: mock_ChatStream_def mock_stream_def mock_chunks_def mock_words_feed Let_def
       split: prod.splits option.splits)

section \<open>Properties\<close>

text \<open>\<open>n\<close> unary calls in a row, with a live context; the outcomes in order.\<close>

fun mock_calls_in_row :: "nat \<Rightarrow> string \<Rightarrow> instant \<Rightarrow> mock \<Rightarrow> chat_request \<Rightarrow> (go_error + chat_response) list \<times> mock" where
  "mock_calls_in_row 0 i t m req = ([], m)"
| "mock_calls_in_row (Suc n) i t m req =
     (let (r, m') = mock_Chat None None i t m req; (rs, m'') = mock_calls_in_row n i t m' req in (r # rs, m''))"

lemma mock_Chat_failing:
  assumes "mk_FailWith m = None" "0 < mk_FailFirst m"
  shows "mock_Chat None None i t m req =
    (Inl (ProviderError (Errorf KindUnavailable (mock_Name m) ''mock transient failure'')),
     m\<lparr>mk_calls := mk_calls m + 1, mk_FailFirst := mk_FailFirst m - 1\<rparr>)"
  using assms by (simp add: mock_Chat_def mock_next_def Let_def mock_Name_def)

lemma mock_Chat_serving:
  assumes "mk_FailWith m = None" "mk_FailFirst m \<le> 0"
  shows "\<exists>r. mock_Chat None None i t m req = (Inr r, m\<lparr>mk_calls := mk_calls m + 1\<rparr>) \<and> Text r = mock_reply m req"
  using assms by (simp add: mock_Chat_def mock_next_def Let_def Text_def mock_reply_def)

lemma mock_row_serving:
  assumes "mk_FailWith m = None" "mk_FailFirst m \<le> 0"
  shows "mk_calls (snd (mock_calls_in_row n i t m req)) = mk_calls m + int n
    \<and> length (fst (mock_calls_in_row n i t m req)) = n
    \<and> (\<forall>r \<in> set (fst (mock_calls_in_row n i t m req)). \<exists>x. r = Inr x \<and> Text x = mock_reply m req)"
  using assms
proof (induction n arbitrary: m)
  case (Suc n)
  obtain r where r: "mock_Chat None None i t m req = (Inr r, m\<lparr>mk_calls := mk_calls m + 1\<rparr>)"
    "Text r = mock_reply m req" using mock_Chat_serving[OF Suc.prems] by blast
  have "mock_reply (m\<lparr>mk_calls := mk_calls m + 1\<rparr>) req = mock_reply m req" by (simp add: mock_reply_def)
  then show ?case using Suc.IH[of "m\<lparr>mk_calls := mk_calls m + 1\<rparr>"] Suc.prems r
    by (auto simp: split_beta)
qed simp

text \<open>
  The mock fails exactly as scripted: of any number of calls in a row with a live context, the first
  \<open>FailFirst\<close> fail, every one with a retryable unavailability in the mock's own name, all later ones
  answer with the configured reply or the echo of the last user message, and the call counter counts
  them all.
\<close>

theorem mock_fail_first:
  assumes "mk_FailWith m = None" "0 \<le> mk_FailFirst m"
  shows "length (fst (mock_calls_in_row n i t m req)) = n
    \<and> mk_calls (snd (mock_calls_in_row n i t m req)) = mk_calls m + int n
    \<and> (\<forall>k < n. case fst (mock_calls_in_row n i t m req) ! k of
         Inl e \<Rightarrow> int k < mk_FailFirst m \<and>
                  e = ProviderError (Errorf KindUnavailable (mock_Name m) ''mock transient failure'')
       | Inr r \<Rightarrow> mk_FailFirst m \<le> int k \<and> Text r = mock_reply m req)"
  using assms
proof (induction n arbitrary: m)
  case (Suc n)
  show ?case
  proof (cases "0 < mk_FailFirst m")
    case True
    let ?m = "m\<lparr>mk_calls := mk_calls m + 1, mk_FailFirst := mk_FailFirst m - 1\<rparr>"
    have same: "mock_reply ?m req = mock_reply m req" "mock_Name ?m = mock_Name m"
      by (simp_all add: mock_reply_def mock_Name_def)
    note ih = Suc.IH[of ?m]
    show ?thesis
      using ih Suc.prems True mock_Chat_failing[of m i t req]
      by (auto simp: split_beta same nth_Cons split: nat.splits sum.splits)
  next
    case False
    note row = mock_row_serving[of m "Suc n" i t req]
    have served: "\<exists>x. fst (mock_calls_in_row (Suc n) i t m req) ! k = Inr x \<and> Text x = mock_reply m req"
      if "k < Suc n" for k
      using row Suc.prems False that by (metis nth_mem not_le)
    have "case fst (mock_calls_in_row (Suc n) i t m req) ! k of
         Inl e \<Rightarrow> int k < mk_FailFirst m \<and>
                  e = ProviderError (Errorf KindUnavailable (mock_Name m) ''mock transient failure'')
       | Inr r \<Rightarrow> mk_FailFirst m \<le> int k \<and> Text r = mock_reply m req" if "k < Suc n" for k
      using served[OF that] Suc.prems False by (auto simp del: mock_calls_in_row.simps)
    then show ?thesis using row Suc.prems False by (simp del: mock_calls_in_row.simps)
  qed
qed simp

theorem mock_fail_first_witness:
  "case fst (mock_calls_in_row 3 ''1'' 0 ((NewMock ''m'' ''ok'')\<lparr>mk_FailFirst := 2\<rparr>) demo_request) ! 2 of
     Inl e \<Rightarrow> False | Inr r \<Rightarrow> Text r = ''ok''"
  using mock_fail_first[of "(NewMock ''m'' ''ok'')\<lparr>mk_FailFirst := 2\<rparr>" 3 "''1''" 0 demo_request]
  by (auto simp: NewMock_def mock_of_def mock_reply_def split: sum.splits dest!: spec[of _ 2])

end
