(* ===== verification/Auth.thy ===== *)
theory Auth
  imports ProviderErrors
begin

text \<open>
  \<open>internal/api/auth.go\<close> and \<open>pg_auth.go\<close>: who is calling. The digest of \<open>HashKey\<close> (SHA-256 in hex) is
  the function \<open>digest\<close>. An authenticator is a function from the token and the state \<open>'w\<close> of whatever
  it consults; the caching authenticator has its own memo beside it. Instants are nanoseconds.
\<close>

record tenant =
  tn_ID :: string
  tn_Name :: string
  tn_KeyID :: string
  tn_RPM :: int

type_synonym 'w authenticator = "string \<Rightarrow> 'w \<Rightarrow> (go_error + tenant) \<times> 'w"

section \<open>Static keys\<close>

definition HashKey :: "(string \<Rightarrow> string) \<Rightarrow> string \<Rightarrow> string" where
  "HashKey digest raw = digest raw"

definition NewStaticAuthenticator :: "(string \<Rightarrow> string) \<Rightarrow> (string \<times> tenant) list \<Rightarrow> (string \<rightharpoonup> tenant)" where
  "NewStaticAuthenticator digest keys =
     foldl (\<lambda>m (raw, t). m(HashKey digest raw \<mapsto> t)) Map.empty keys"

definition static_Authenticate ::
  "(string \<Rightarrow> string) \<Rightarrow> (string \<rightharpoonup> tenant) \<Rightarrow> string \<Rightarrow> go_error + tenant" where
  "static_Authenticate digest byHash token =
     (case byHash (HashKey digest token) of
        None \<Rightarrow> Inl (Sentinel ErrUnauthorized)
      | Some t \<Rightarrow> Inr t)"

definition allow_all_Authenticate :: "string \<Rightarrow> go_error + tenant" where
  "allow_all_Authenticate token =
     Inr \<lparr>tn_ID = ''local'', tn_Name = ''local-dev'', tn_KeyID = ''local'', tn_RPM = 0\<rparr>"

section \<open>Keys in Postgres\<close>

text \<open>The tables of the query, and the query itself on them.\<close>

record api_key_row =
  ak_id :: string
  ak_tenant_id :: string
  ak_key_hash :: string
  ak_rpm :: "int option"
  ak_expires_at :: "instant option"
  ak_revoked_at :: "instant option"

record tenant_row =
  tr_id :: string
  tr_name :: string
  tr_active :: bool

record key_db =
  db_keys :: "api_key_row list"
  db_tenants :: "tenant_row list"
  db_error :: "go_error option"

definition key_live :: "instant \<Rightarrow> api_key_row \<Rightarrow> bool" where
  "key_live now k \<longleftrightarrow>
     ak_revoked_at k = None \<and> (case ak_expires_at k of None \<Rightarrow> True | Some e \<Rightarrow> e > now)"

definition key_query :: "key_db \<Rightarrow> instant \<Rightarrow> string \<Rightarrow> tenant list" where
  "key_query db now hash =
     concat (map (\<lambda>k. concat (map (\<lambda>t.
         if tr_id t = ak_tenant_id k \<and> ak_key_hash k = hash \<and> key_live now k \<and> tr_active t
         then [\<lparr>tn_ID = ak_tenant_id k, tn_Name = tr_name t, tn_KeyID = ak_id k,
                tn_RPM = (case ak_rpm k of None \<Rightarrow> 0 | Some n \<Rightarrow> n)\<rparr>]
         else []) (db_tenants db))) (db_keys db))"

text \<open>\<open>QueryRow\<close> and \<open>Scan\<close>: the first row, \<open>pgx.ErrNoRows\<close> without one.\<close>

definition query_row :: "key_db \<Rightarrow> instant \<Rightarrow> string \<Rightarrow> go_error + tenant" where
  "query_row db now hash =
     (case db_error db of
        Some e \<Rightarrow> Inl e
      | None \<Rightarrow> (case key_query db now hash of [] \<Rightarrow> Inl (Sentinel PgxErrNoRows) | t # _ \<Rightarrow> Inr t))"

definition pg_Authenticate :: "(string \<Rightarrow> string) \<Rightarrow> instant \<Rightarrow> key_db \<Rightarrow> string \<Rightarrow> go_error + tenant" where
  "pg_Authenticate digest now db token =
     (case query_row db now (HashKey digest token) of
        Inl e \<Rightarrow>
          if errors_Is e PgxErrNoRows then Inl (Sentinel ErrUnauthorized)
          else Inl (ErrorText (''authenticate: '' @ error_text e) (Some e))
      | Inr t \<Rightarrow> Inr t)"

section \<open>The memo\<close>

record cached_auth =
  ca_result :: "go_error + tenant"
  ca_expires :: instant

type_synonym auth_memo = "string \<rightharpoonup> cached_auth"

text \<open>
  \<open>now\<close> is read twice, before the lookup and for the expiry of a new entry; \<open>before\<close> and \<open>after\<close> are
  the two readings.
\<close>

definition caching_Authenticate ::
  "(string \<Rightarrow> string) \<Rightarrow> 'w authenticator \<Rightarrow> duration \<Rightarrow> instant \<Rightarrow> instant \<Rightarrow> string \<Rightarrow> 'w \<times> auth_memo
    \<Rightarrow> (go_error + tenant) \<times> ('w \<times> auth_memo)" where
  "caching_Authenticate digest inner ttl before after token = (\<lambda>(w, m).
     (let h = HashKey digest token;
          miss = (let (r, w') = inner token w in
            if (case r of Inl e \<Rightarrow> \<not> errors_Is e ErrUnauthorized | Inr _ \<Rightarrow> False)
            then (r, (w', m))
            else (r, (w', m(h \<mapsto> \<lparr>ca_result = r, ca_expires = after + ttl\<rparr>))))
      in case m h of
           Some e \<Rightarrow> if before < ca_expires e then (ca_result e, (w, m)) else miss
         | None \<Rightarrow> miss))"

definition Invalidate :: "(string \<Rightarrow> string) \<Rightarrow> string \<Rightarrow> auth_memo \<Rightarrow> auth_memo" where
  "Invalidate digest token m = m(HashKey digest token := None)"

section \<open>The token of a request\<close>

text \<open>\<open>get\<close> is \<open>r.Header.Get\<close>.\<close>

definition bearerToken :: "(string \<Rightarrow> string) \<Rightarrow> string" where
  "bearerToken get =
     (let h = get ''Authorization'' in
      if h = '''' then get ''api-key''
      else if length h \<ge> 7 \<and> EqualFold (take 7 h) ''Bearer '' then TrimSpace (drop 7 h)
      else '''')"

section \<open>What a memo may answer\<close>

text \<open>
  What the gateway sees of an authenticator: a request that asks with a token while the consulted
  store is in state \<open>w\<close>, the clock reading \<open>before\<close> and \<open>after\<close> the inner call, or a revocation
  that drops the memo of a token.
\<close>

datatype 'w auth_event = Ask (ae_before: instant) (ae_after: instant) (ae_token: string) (ae_world: 'w) | Drop string

fun memo_run ::
  "(string \<Rightarrow> string) \<Rightarrow> 'w authenticator \<Rightarrow> duration \<Rightarrow> 'w auth_event list \<Rightarrow> auth_memo \<Rightarrow> auth_memo" where
  "memo_run digest inner ttl [] m = m"
| "memo_run digest inner ttl (Ask b a tok w # es) m =
     memo_run digest inner ttl es (snd (snd (caching_Authenticate digest inner ttl b a tok (w, m))))"
| "memo_run digest inner ttl (Drop tok # es) m = memo_run digest inner ttl es (Invalidate digest tok m)"

definition memo_answer ::
  "(string \<Rightarrow> string) \<Rightarrow> 'w authenticator \<Rightarrow> duration \<Rightarrow> 'w auth_event list \<Rightarrow> instant \<Rightarrow> instant \<Rightarrow> string \<Rightarrow> 'w
    \<Rightarrow> go_error + tenant" where
  "memo_answer digest inner ttl es b a tok w =
     fst (caching_Authenticate digest inner ttl b a tok (w, memo_run digest inner ttl es Map.empty))"

definition definite :: "go_error + tenant \<Rightarrow> bool" where
  "definite r = (case r of Inl e \<Rightarrow> errors_Is e ErrUnauthorized | Inr _ \<Rightarrow> True)"

text \<open>
  What may stand in the memo: an answer the inner authenticator gave to an earlier question about the same digest,
  with no revocation of it since.
\<close>

definition answered_at ::
  "(string \<Rightarrow> string) \<Rightarrow> 'w authenticator \<Rightarrow> 'w auth_event list \<Rightarrow> string \<Rightarrow> instant \<Rightarrow> go_error + tenant \<Rightarrow> bool" where
  "answered_at digest inner es h asked r \<longleftrightarrow>
     (\<exists>es1 es2 b tok w. es = es1 @ Ask b asked tok w # es2 \<and> digest tok = h \<and> fst (inner tok w) = r \<and>
        (\<forall>d. Drop d \<in> set es2 \<longrightarrow> digest d \<noteq> h))"

definition memo_ok :: "(string \<Rightarrow> string) \<Rightarrow> 'w authenticator \<Rightarrow> duration \<Rightarrow> 'w auth_event list \<Rightarrow> auth_memo \<Rightarrow> bool" where
  "memo_ok digest inner ttl es m \<longleftrightarrow>
     (\<forall>h e. m h = Some e \<longrightarrow> definite (ca_result e) \<and> answered_at digest inner es h (ca_expires e - ttl) (ca_result e))"

lemma answered_at_snoc:
  assumes "answered_at digest inner es h asked r" "\<And>d. ev = Drop d \<Longrightarrow> digest d \<noteq> h"
  shows "answered_at digest inner (es @ [ev]) h asked r"
proof -
  obtain es1 es2 b tok w where "es = es1 @ Ask b asked tok w # es2" "digest tok = h" "fst (inner tok w) = r"
    "\<forall>d. Drop d \<in> set es2 \<longrightarrow> digest d \<noteq> h" using assms(1) unfolding answered_at_def by blast
  then show ?thesis unfolding answered_at_def using assms(2)
    by (intro exI[of _ es1] exI[of _ "es2 @ [ev]"]) auto
qed

lemma answered_at_now:
  "digest tok = h \<Longrightarrow> fst (inner tok w) = r \<Longrightarrow> answered_at digest inner (es @ [Ask b asked tok w]) h asked r"
  unfolding answered_at_def by (intro exI[of _ es] exI[of _ "[]"]) auto

lemma memo_ok_Ask:
  assumes "memo_ok digest inner ttl es m"
  shows "memo_ok digest inner ttl (es @ [Ask b a tok w]) (snd (snd (caching_Authenticate digest inner ttl b a tok (w, m))))"
proof -
  have old: "memo_ok digest inner ttl (es @ [Ask b a tok w]) m"
    using assms by (auto simp: memo_ok_def intro: answered_at_snoc)
  obtain r w' where i: "inner tok w = (r, w')" by (metis surj_pair)
  have new: "memo_ok digest inner ttl (es @ [Ask b a tok w]) (m(digest tok \<mapsto> \<lparr>ca_result = r, ca_expires = a + ttl\<rparr>))"
    if "definite r"
    using old that answered_at_now[of digest tok "digest tok" inner w r] i by (auto simp: memo_ok_def)
  show ?thesis
    using old new i
    by (auto simp: caching_Authenticate_def HashKey_def definite_def Let_def split: option.splits sum.splits)
qed

lemma memo_ok_Drop:
  assumes "memo_ok digest inner ttl es m"
  shows "memo_ok digest inner ttl (es @ [Drop tok]) (Invalidate digest tok m)"
  using assms by (auto simp: memo_ok_def Invalidate_def HashKey_def intro!: answered_at_snoc split: if_splits)

lemma memo_run_ok:
  "memo_ok digest inner ttl es m \<Longrightarrow> memo_ok digest inner ttl (es @ es') (memo_run digest inner ttl es' m)"
proof (induction es' arbitrary: es m)
  case (Cons ev es')
  show ?case
  proof (cases ev)
    case (Ask b a tok w)
    then show ?thesis using Cons.IH[OF memo_ok_Ask[OF Cons.prems]] by simp
  next
    case (Drop tok)
    then show ?thesis using Cons.IH[OF memo_ok_Drop[OF Cons.prems]] by simp
  qed
qed simp

text \<open>An authenticator that knows a key by its digest alone, which is what the memo relies on.\<close>

locale digest_authenticator =
  fixes digest :: "string \<Rightarrow> string"
    and inner :: "'w authenticator"
  assumes by_digest: "digest a = digest b \<Longrightarrow> fst (inner a w) = fst (inner b w)"
begin

lemma memo_answer_justified:
  assumes "memo_answer digest inner ttl es b a tok w = r"
  shows "r = fst (inner tok w) \<or>
    (\<exists>es1 es2 b' asked tok' w'. es = es1 @ Ask b' asked tok' w' # es2 \<and> b < asked + ttl \<and>
       r = fst (inner tok w') \<and> definite r \<and> (\<forall>d. Drop d \<in> set es2 \<longrightarrow> digest d \<noteq> digest tok))"
proof -
  let ?m = "memo_run digest inner ttl es Map.empty"
  have ok: "memo_ok digest inner ttl es ?m"
    using memo_run_ok[of digest inner ttl "[]" Map.empty es] by (simp add: memo_ok_def)
  show ?thesis
  proof (cases "\<exists>e. ?m (digest tok) = Some e \<and> b < ca_expires e")
    case True
    then obtain e where e: "?m (digest tok) = Some e" "b < ca_expires e" by blast
    then have r: "r = ca_result e"
      using assms by (simp add: memo_answer_def caching_Authenticate_def HashKey_def)
    obtain es1 es2 b' tok' w' where j: "es = es1 @ Ask b' (ca_expires e - ttl) tok' w' # es2" "digest tok' = digest tok"
      "fst (inner tok' w') = ca_result e" "\<forall>d. Drop d \<in> set es2 \<longrightarrow> digest d \<noteq> digest tok" "definite (ca_result e)"
      using ok e(1) unfolding memo_ok_def answered_at_def by blast
    have "r = fst (inner tok w')" using by_digest[of tok' tok w'] j r by simp
    then show ?thesis using j e(2) r by (intro disjI2 exI[of _ es1] exI[of _ es2]) auto
  next
    case False
    then have "r = fst (inner tok w)"
      using assms by (auto simp: memo_answer_def caching_Authenticate_def HashKey_def Let_def
          split: option.splits sum.splits prod.splits)
    then show ?thesis ..
  qed
qed

end

definition static_auth :: "(string \<Rightarrow> string) \<Rightarrow> (string \<rightharpoonup> tenant) authenticator" where
  "static_auth digest token byHash = (static_Authenticate digest byHash token, byHash)"

text \<open>Postgres as the gateway asks it: the state is the server's clock and its tables.\<close>

definition pg_auth :: "(string \<Rightarrow> string) \<Rightarrow> (instant \<times> key_db) authenticator" where
  "pg_auth digest token = (\<lambda>(now, db). (pg_Authenticate digest now db token, (now, db)))"

interpretation static_keys: digest_authenticator digest "static_auth digest" for digest :: "string \<Rightarrow> string"
  by unfold_locales (simp add: static_auth_def static_Authenticate_def HashKey_def)

interpretation postgres_keys: digest_authenticator digest "pg_auth digest" for digest :: "string \<Rightarrow> string"
  by unfold_locales (simp add: pg_auth_def pg_Authenticate_def HashKey_def split: prod.splits)

section \<open>Which keys open the gateway\<close>

lemma key_query_mem:
  "t \<in> set (key_query db now hash) \<longleftrightarrow>
     (\<exists>k \<in> set (db_keys db). \<exists>tr \<in> set (db_tenants db).
        tr_id tr = ak_tenant_id k \<and> ak_key_hash k = hash \<and> key_live now k \<and> tr_active tr \<and>
        t = \<lparr>tn_ID = ak_tenant_id k, tn_Name = tr_name tr, tn_KeyID = ak_id k,
             tn_RPM = (case ak_rpm k of None \<Rightarrow> 0 | Some n \<Rightarrow> n)\<rparr>)"
  by (auto simp: key_query_def split: if_splits)

lemma key_live_iff:
  "key_live now k \<longleftrightarrow> ak_revoked_at k = None \<and> (\<forall>e. ak_expires_at k = Some e \<longrightarrow> now < e)"
  by (auto simp: key_live_def split: option.splits)

lemma pg_accepted:
  "pg_Authenticate digest now db token = Inr t \<Longrightarrow> t \<in> set (key_query db now (digest token))"
  by (auto simp: pg_Authenticate_def query_row_def HashKey_def split: option.splits list.splits sum.splits if_splits)

text \<open>
  C26. A key lets a caller in only while it is good: if the gateway accepts a token, then at the moment
  it asked Postgres, now or less than the memo's TTL ago with no revocation notice since, the
  table held that digest as a key not revoked and not expired, of an active tenant, and the caller
  is attributed to that key and tenant.
\<close>

theorem revocation_delay:
  assumes "memo_answer digest (pg_auth digest) ttl es b a tok (now, db) = Inr t"
  shows "\<exists>now' db' k tr.
    ((now', db') = (now, db) \<or> (\<exists>es1 es2 b' asked tok'. es = es1 @ Ask b' asked tok' (now', db') # es2 \<and>
        b < asked + ttl \<and> (\<forall>d. Drop d \<in> set es2 \<longrightarrow> digest d \<noteq> digest tok))) \<and>
    k \<in> set (db_keys db') \<and> tr \<in> set (db_tenants db') \<and> ak_key_hash k = digest tok \<and> ak_revoked_at k = None \<and>
    (\<forall>e. ak_expires_at k = Some e \<longrightarrow> now' < e) \<and> tr_id tr = ak_tenant_id k \<and> tr_active tr \<and>
    tn_ID t = ak_tenant_id k \<and> tn_KeyID t = ak_id k"
proof -
  have live: "\<exists>k tr. k \<in> set (db_keys db') \<and> tr \<in> set (db_tenants db') \<and> ak_key_hash k = digest tok \<and>
      ak_revoked_at k = None \<and> (\<forall>e. ak_expires_at k = Some e \<longrightarrow> now' < e) \<and> tr_id tr = ak_tenant_id k \<and>
      tr_active tr \<and> tn_ID t = ak_tenant_id k \<and> tn_KeyID t = ak_id k"
    if "Inr t = fst (pg_auth digest tok (now', db'))" for now' db'
  proof -
    have "pg_Authenticate digest now' db' tok = Inr t" using that by (simp add: pg_auth_def)
    then obtain k tr where "k \<in> set (db_keys db')" "tr \<in> set (db_tenants db')" "tr_id tr = ak_tenant_id k"
      "ak_key_hash k = digest tok" "key_live now' k" "tr_active tr" "tn_ID t = ak_tenant_id k" "tn_KeyID t = ak_id k"
      using pg_accepted[of digest now' db' tok t] unfolding key_query_mem by auto
    then show ?thesis unfolding key_live_iff by (intro exI[of _ k] exI[of _ tr]) simp
  qed
  show ?thesis
    using postgres_keys.memo_answer_justified[OF assms]
  proof (elim disjE exE conjE)
    assume "Inr t = fst (pg_auth digest tok (now, db))"
    then show ?thesis using live[of now db] by (intro exI[of _ now] exI[of _ db]) simp
  next
    fix es1 es2 b' asked tok' w'
    assume h: "es = es1 @ Ask b' asked tok' w' # es2" "b < asked + ttl" "Inr t = fst (pg_auth digest tok w')"
      "\<forall>d. Drop d \<in> set es2 \<longrightarrow> digest d \<noteq> digest tok"
    obtain now' db' where w: "w' = (now', db')" by (cases w')
    have "\<exists>es1 es2 b' asked tok'. es = es1 @ Ask b' asked tok' (now', db') # es2 \<and>
        b < asked + ttl \<and> (\<forall>d. Drop d \<in> set es2 \<longrightarrow> digest d \<noteq> digest tok)"
      by (intro exI conjI) (use h w in auto)
    then show ?thesis using live[OF h(3)[unfolded w]] by (intro exI[of _ now'] exI[of _ db']) simp
  qed
qed

definition demo_key :: "instant option \<Rightarrow> api_key_row" where
  "demo_key revoked = \<lparr>ak_id = ''k1'', ak_tenant_id = ''acme'', ak_key_hash = ''secret'', ak_rpm = None,
     ak_expires_at = Some 1000, ak_revoked_at = revoked\<rparr>"

definition demo_db :: "instant option \<Rightarrow> key_db" where
  "demo_db revoked = \<lparr>db_keys = [demo_key revoked], db_tenants = [\<lparr>tr_id = ''acme'', tr_name = ''Acme'', tr_active = True\<rparr>],
     db_error = None\<rparr>"

text \<open>A key revoked at 40 still opens the gateway at 50, from the answer given at 20 with a TTL of 60.\<close>

theorem revocation_delay_witness:
  "\<exists>now' db' k tr.
    ((now', db') = (50, demo_db (Some 40)) \<or>
      (\<exists>es1 es2 b' asked tok'. [Ask 10 20 ''secret'' (15, demo_db None)] = es1 @ Ask b' asked tok' (now', db') # es2 \<and>
        50 < asked + 60 \<and> (\<forall>d. Drop d \<in> set es2 \<longrightarrow> id d \<noteq> id ''secret''))) \<and>
    k \<in> set (db_keys db') \<and> tr \<in> set (db_tenants db') \<and> ak_key_hash k = id ''secret'' \<and> ak_revoked_at k = None \<and>
    (\<forall>e. ak_expires_at k = Some e \<longrightarrow> now' < e) \<and> tr_id tr = ak_tenant_id k \<and> tr_active tr \<and>
    tn_ID \<lparr>tn_ID = ''acme'', tn_Name = ''Acme'', tn_KeyID = ''k1'', tn_RPM = 0\<rparr> = ak_tenant_id k \<and>
    tn_KeyID \<lparr>tn_ID = ''acme'', tn_Name = ''Acme'', tn_KeyID = ''k1'', tn_RPM = 0\<rparr> = ak_id k"
  by (rule revocation_delay[where a = 50])
    (simp add: memo_answer_def caching_Authenticate_def pg_auth_def pg_Authenticate_def query_row_def key_query_def
      key_live_def HashKey_def demo_db_def demo_key_def Let_def)

text \<open>
  An outage of the key store never reads as a rejected key and is never remembered: when the
  database fails, a caller that is not in the memo gets an error that is not \<open>ErrUnauthorized\<close>, and the memo is
  left as it was, so the next request asks again.
\<close>

theorem outage_is_not_rejection:
  assumes "db_error db = Some e" "\<not> errors_Is e PgxErrNoRows" "\<not> errors_Is e ErrUnauthorized" "m (digest tok) = None"
  shows "\<exists>err. caching_Authenticate digest (pg_auth digest) ttl b a tok ((now, db), m) = (Inl err, ((now, db), m))
     \<and> \<not> errors_Is err ErrUnauthorized"
  using assms
  by (simp add: caching_Authenticate_def pg_auth_def pg_Authenticate_def query_row_def HashKey_def)

theorem outage_is_not_rejection_witness:
  "\<exists>err. caching_Authenticate id (pg_auth id) 60 1 2 ''secret''
      ((0, (demo_db None)\<lparr>db_error := Some (Sentinel ContextDeadlineExceeded)\<rparr>), Map.empty)
     = (Inl err, ((0, (demo_db None)\<lparr>db_error := Some (Sentinel ContextDeadlineExceeded)\<rparr>), Map.empty))
     \<and> \<not> errors_Is err ErrUnauthorized"
  by (rule outage_is_not_rejection[where e = "Sentinel ContextDeadlineExceeded"]) simp_all

end
