(* ===== verification/RateLimit.thy ===== *)
theory RateLimit
  imports Auth GoStrings
begin

text \<open>
  \<open>internal/api/ratelimit.go\<close> and \<open>redis_limiter.go\<close>: the token buckets, in memory and as a Lua script in
  Redis, and the headers a verdict is sent with. In-memory instants are nanoseconds, those of the
  script milliseconds. A token count is a rational; the rounding of float64 arithmetic is not
  modelled, the six decimals the rate is sent to Redis with are.
\<close>

record limit_result =
  lr_Allowed :: bool
  lr_Limit :: int
  lr_Remaining :: int
  lr_RetryAfter :: duration

definition retry_seconds :: "duration \<Rightarrow> int" where
  "retry_seconds d =
     (let secs = go_div d Second; secs' = (if go_mod d Second \<noteq> 0 then secs + 1 else secs) in max 1 secs')"

definition writeHeaders :: "limit_result \<Rightarrow> (string \<times> string) list" where
  "writeHeaders r =
     [(''X-RateLimit-Limit'', Itoa (lr_Limit r)),
      (''X-RateLimit-Remaining'', Itoa (max 0 (lr_Remaining r)))] @
     (if \<not> lr_Allowed r \<and> lr_RetryAfter r > 0
      then [(''Retry-After'', Itoa (retry_seconds (lr_RetryAfter r)))] else [])"

definition limit_key :: "tenant \<Rightarrow> string" where
  "limit_key t = (if tn_KeyID t = '''' then tn_ID t else tn_KeyID t)"

section \<open>In memory\<close>

record bucket =
  bk_tokens :: float64
  bk_last :: instant

record local_limiter =
  ll_defaultRPM :: int
  ll_burst :: int
  ll_buckets :: "string \<rightharpoonup> bucket"

definition NewLocalLimiter :: "int \<Rightarrow> int \<Rightarrow> local_limiter" where
  "NewLocalLimiter defaultRPM burst =
     \<lparr>ll_defaultRPM = defaultRPM, ll_burst = (if burst \<le> 0 then defaultRPM else burst), ll_buckets = Map.empty\<rparr>"

definition limitFor :: "int \<Rightarrow> tenant \<Rightarrow> int" where
  "limitFor defaultRPM t = (if tn_RPM t > 0 then tn_RPM t else defaultRPM)"

definition capacity_for :: "int \<Rightarrow> tenant \<Rightarrow> int" where
  "capacity_for burst t = (if tn_RPM t > 0 then tn_RPM t else burst)"

definition minF :: "float64 \<Rightarrow> float64 \<Rightarrow> float64" where
  "minF a b = (if a < b then a else b)"

text \<open>What \<open>Allow\<close> does to the bucket of its key, for a positive rate.\<close>

definition local_step ::
  "float64 \<Rightarrow> float64 \<Rightarrow> instant \<Rightarrow> bucket option \<Rightarrow> (bool \<times> float64 \<times> duration) \<times> bucket option" where
  "local_step cap rate now ob =
     (let b = (case ob of None \<Rightarrow> \<lparr>bk_tokens = cap, bk_last = now\<rparr> | Some b \<Rightarrow> b);
          elapsed = of_int (now - bk_last b) / of_int Second;
          b' = (if elapsed > 0
                then \<lparr>bk_tokens = minF cap (bk_tokens b + elapsed * rate), bk_last = now\<rparr> else b)
      in if bk_tokens b' < 1
         then ((False, 0, trunc_rat ((1 - bk_tokens b') / rate * of_int Second)), Some b')
         else ((True, bk_tokens b' - 1, 0), Some (b'\<lparr>bk_tokens := bk_tokens b' - 1\<rparr>)))"

definition local_Allow :: "instant \<Rightarrow> tenant \<Rightarrow> local_limiter \<Rightarrow> limit_result \<times> local_limiter" where
  "local_Allow now t l =
     (let rpm = limitFor (ll_defaultRPM l) t in
      if rpm \<le> 0 then (\<lparr>lr_Allowed = True, lr_Limit = 0, lr_Remaining = 0, lr_RetryAfter = 0\<rparr>, l)
      else
        (let key = limit_key t;
             ((ok, tokens, retry), b) =
               local_step (of_int (capacity_for (ll_burst l) t)) (of_int rpm / 60) now (ll_buckets l key)
         in (\<lparr>lr_Allowed = ok, lr_Limit = rpm, lr_Remaining = trunc_rat tokens, lr_RetryAfter = retry\<rparr>,
             l\<lparr>ll_buckets := (ll_buckets l)(key := b)\<rparr>)))"

section \<open>In Redis\<close>

text \<open>
  The hash of a bucket with its expiry. A missing or expired hash is one that reads as absent in
  every \<open>HGET\<close>; both fields are always written together.
\<close>

record redis_bucket =
  rb_tokens :: float64
  rb_last :: int
  rb_expires :: int

definition live_bucket :: "int \<Rightarrow> redis_bucket option \<Rightarrow> redis_bucket option" where
  "live_bucket now ob =
     (case ob of Some b \<Rightarrow> if now < rb_expires b then Some b else None | None \<Rightarrow> None)"

definition limiterScript ::
  "float64 \<Rightarrow> int \<Rightarrow> int \<Rightarrow> int \<Rightarrow> redis_bucket option \<Rightarrow> (int \<times> int \<times> int) \<times> redis_bucket" where
  "limiterScript rate capacity now ttl ob =
     (let tokens = (case ob of Some b \<Rightarrow> rb_tokens b | None \<Rightarrow> of_int capacity);
          last_ms = (case ob of Some b \<Rightarrow> rb_last b | None \<Rightarrow> now);
          elapsed = of_int (max 0 (now - last_ms)) / 1000;
          tokens1 = min (of_int capacity) (tokens + elapsed * rate);
          (allowed, tokens2, retry_after) =
            (if tokens1 \<ge> 1 then (1, tokens1 - 1, 0) else (0, tokens1, \<lceil>(1 - tokens1) / rate * 1000\<rceil>))
      in ((allowed, \<lfloor>tokens2\<rfloor>, retry_after),
          \<lparr>rb_tokens = tokens2, rb_last = now, rb_expires = now + ttl\<rparr>))"

definition limiterKey :: "string \<Rightarrow> string" where
  "limiterKey keyID = ''glm:v1:rl:'' @ keyID"

text \<open>\<open>strconv.FormatFloat(float64(rpm)/60, 'f', 6, 64)\<close>, as the number the script reads.\<close>

definition sent_rate :: "int \<Rightarrow> float64" where
  "sent_rate rpm = of_int (round_half_even (of_int rpm / 60 * 1000000)) / 1000000"

definition limiter_ttl :: "int \<Rightarrow> int \<Rightarrow> duration" where
  "limiter_ttl capacity rpm = wrap64 (go_div (wrap64 (capacity * Minute)) rpm + Minute)"

definition limiter_ttl_ms :: "int \<Rightarrow> int \<Rightarrow> int" where
  "limiter_ttl_ms capacity rpm = go_div (limiter_ttl capacity rpm) Millisecond"

type_synonym limiter_server = "string \<rightharpoonup> redis_bucket"

definition script_run ::
  "int \<Rightarrow> int \<Rightarrow> int \<Rightarrow> string \<Rightarrow> limiter_server \<Rightarrow> (int \<times> int \<times> int) \<times> limiter_server" where
  "script_run rpm capacity now key srv =
     (let (res, b) = limiterScript (sent_rate rpm) capacity now (limiter_ttl_ms capacity rpm) (live_bucket now (srv key))
      in (res, srv(key \<mapsto> b)))"

record redis_limiter =
  rl_default :: int
  rl_burst :: int

definition NewRedisLimiter :: "int \<Rightarrow> int \<Rightarrow> redis_limiter" where
  "NewRedisLimiter defaultRPM burst =
     \<lparr>rl_default = defaultRPM, rl_burst = (if burst \<le> 0 then defaultRPM else burst)\<rparr>"

text \<open>\<open>fault\<close> is the error of a script run that failed; the server is then unchanged.\<close>

definition redis_Allow ::
  "redis_limiter \<Rightarrow> go_error option \<Rightarrow> int \<Rightarrow> tenant \<Rightarrow> limiter_server \<Rightarrow> (go_error + limit_result) \<times> limiter_server" where
  "redis_Allow l err now t srv =
     (let rpm = limitFor (rl_default l) t; capacity = capacity_for (rl_burst l) t in
      if rpm \<le> 0
      then (Inr \<lparr>lr_Allowed = True, lr_Limit = 0, lr_Remaining = 0, lr_RetryAfter = 0\<rparr>, srv)
      else case err of
        Some e \<Rightarrow> (Inl (ErrorText (''rate limit script: '' @ error_text e) (Some e)), srv)
      | None \<Rightarrow>
          (let ((allowed, remaining, retryMS), srv') = script_run rpm capacity now (limiterKey (limit_key t)) srv
           in (Inr \<lparr>lr_Allowed = (allowed = 1), lr_Limit = rpm, lr_Remaining = remaining,
                    lr_RetryAfter = retryMS * Millisecond\<rparr>, srv')))"

section \<open>The token bucket contract\<close>

text \<open>
  A bucket that takes requests at instants: \<open>level\<close> is what it holds at its last update, an instant
  \<open>secs\<close> reads in seconds. A step refills for the time elapsed, at most to the capacity, and a grant takes one
  token.
\<close>

fun grants :: "('t \<Rightarrow> 's \<Rightarrow> bool \<times> 's) \<Rightarrow> 't list \<Rightarrow> 's \<Rightarrow> nat" where
  "grants step [] s = 0"
| "grants step (t # ts) s = (let (ok, s') = step t s in (if ok then 1 else 0) + grants step ts s')"

fun exec_steps :: "('t \<Rightarrow> 's \<Rightarrow> bool \<times> 's) \<Rightarrow> 't list \<Rightarrow> 's \<Rightarrow> 's" where
  "exec_steps step [] s = s"
| "exec_steps step (t # ts) s = exec_steps step ts (snd (step t s))"

locale token_bucket =
  fixes step :: "int \<Rightarrow> 's \<Rightarrow> bool \<times> 's"
    and level :: "'s \<Rightarrow> rat"
    and updated :: "'s \<Rightarrow> int"
    and wf :: "'s \<Rightarrow> bool"
    and ready :: "int \<Rightarrow> 's \<Rightarrow> bool"
    and secs :: "int \<Rightarrow> rat"
    and rate :: rat and cap :: rat
  assumes step_first: "step now s = (ok, s') \<Longrightarrow> ready now s \<Longrightarrow>
      wf s' \<and> updated s' = now \<and> 0 \<le> level s' \<and> level s' + (if ok then 1 else 0) \<le> cap"
    and wf_ready: "wf s \<Longrightarrow> updated s \<le> now \<Longrightarrow> ready now s"
    and step_refill: "step now s = (ok, s') \<Longrightarrow> wf s \<Longrightarrow> updated s \<le> now \<Longrightarrow>
      level s' + (if ok then 1 else 0) \<le> level s + secs (now - updated s) * rate"
    and secs_add: "secs (a + b) = secs a + secs b"
begin

lemma secs_split: "secs (c - a) = secs (c - b) + secs (b - a)"
  using secs_add[of "c - b" "b - a"] by simp

lemma grants_bound:
  assumes "wf s" "sorted (updated s # ts)" "0 \<le> level s"
  shows "rat_of_nat (grants step ts s) \<le> level s + secs (last (updated s # ts) - updated s) * rate"
  using assms
proof (induction ts arbitrary: s)
  case Nil
  have "secs 0 = 0" using secs_add[of 0 0] by simp
  then show ?case using Nil by simp
next
  case (Cons t ts)
  obtain ok s' where st: "step t s = (ok, s')" by (metis surj_pair)
  have a: "updated s \<le> t" using Cons.prems by simp
  note first = step_first[OF st wf_ready[OF Cons.prems(1) a]] and refill = step_refill[OF st Cons.prems(1) a]
  have "sorted (updated s' # ts)" using first Cons.prems by simp
  with Cons.IH[of s'] first have
    "rat_of_nat (grants step ts s') \<le> level s' + secs (last (t # ts) - t) * rate" by simp
  moreover have "secs (last (t # ts) - updated s) * rate = secs (last (t # ts) - t) * rate + secs (t - updated s) * rate"
    by (simp only: secs_split[of "last (t # ts)" "updated s" t] distrib_right)
  ultimately show ?case using refill by (simp add: st split: if_splits)
qed

text \<open>In any window that starts with a request: at most the capacity and what flows in meanwhile.\<close>

lemma window_bound:
  assumes "ready t s" "sorted (t # ts)"
  shows "rat_of_nat (grants step (t # ts) s) \<le> cap + secs (last (t # ts) - t) * rate"
proof -
  obtain ok s' where st: "step t s = (ok, s')" by (metis surj_pair)
  note first = step_first[OF st assms(1)]
  have "rat_of_nat (grants step ts s') \<le> level s' + secs (last (t # ts) - t) * rate"
    using grants_bound[of s' ts] first assms(2) by simp
  then show ?thesis using first by (simp add: st split: if_splits)
qed

lemma ready_after:
  assumes "sorted (ts @ [t])" "\<And>now. ready now s"
  shows "ready t (exec_steps step ts s)"
proof -
  have later: "ready t (exec_steps step us v)" if "wf v" "sorted (updated v # us @ [t])" for us v
    using that
  proof (induction us arbitrary: v)
    case Nil
    then show ?case by (simp add: wf_ready)
  next
    case (Cons u us)
    obtain ok v' where st: "step u v = (ok, v')" by (metis surj_pair)
    have "updated v \<le> u" using Cons.prems by simp
    note first = step_first[OF st wf_ready[OF Cons.prems(1) this]]
    then show ?case using Cons.IH[of v'] Cons.prems by (simp add: st)
  qed
  show ?thesis
  proof (cases ts)
    case (Cons u us)
    obtain ok v where st: "step u s = (ok, v)" by (metis surj_pair)
    have "ready t (exec_steps step us v)"
      using later[of v us] step_first[OF st assms(2)] assms(1) by (simp add: Cons)
    then show ?thesis by (simp add: Cons st)
  qed (simp add: assms(2))
qed

end

text \<open>
  A limiter over many buckets: requests of the tenants that share the bucket under watch act on it as
  steps, those of other tenants leave it alone.
\<close>

fun limiter_grants :: "(int \<Rightarrow> tenant \<Rightarrow> 'st \<Rightarrow> bool \<times> 'st) \<Rightarrow> (tenant \<Rightarrow> bool) \<Rightarrow> (int \<times> tenant) list \<Rightarrow> 'st \<Rightarrow> nat" where
  "limiter_grants allow own [] st = 0"
| "limiter_grants allow own ((now, t) # ops) st =
     (let (ok, st') = allow now t st in (if ok \<and> own t then 1 else 0) + limiter_grants allow own ops st')"

fun limiter_run :: "(int \<Rightarrow> tenant \<Rightarrow> 'st \<Rightarrow> bool \<times> 'st) \<Rightarrow> (int \<times> tenant) list \<Rightarrow> 'st \<Rightarrow> 'st" where
  "limiter_run allow [] st = st"
| "limiter_run allow ((now, t) # ops) st = limiter_run allow ops (snd (allow now t st))"

definition own_times :: "(tenant \<Rightarrow> bool) \<Rightarrow> (int \<times> tenant) list \<Rightarrow> int list" where
  "own_times own ops = map fst (filter (\<lambda>(now, t). own t) ops)"

lemma own_times_simps [simp]:
  "own_times own [] = []"
  "own_times own ((now, t) # ops) = (if own t then now # own_times own ops else own_times own ops)"
  "own_times own (a @ b) = own_times own a @ own_times own b"
  by (simp_all add: own_times_def)

locale limiter = token_bucket step level updated wf ready secs rate cap
  for step :: "int \<Rightarrow> 's \<Rightarrow> bool \<times> 's" and level updated wf ready secs rate cap +
  fixes allow :: "int \<Rightarrow> tenant \<Rightarrow> 'st \<Rightarrow> bool \<times> 'st"
    and view :: "'st \<Rightarrow> 's"
    and own :: "tenant \<Rightarrow> bool"
    and legal :: "tenant \<Rightarrow> bool"
  assumes allow_own: "own t \<Longrightarrow> legal t \<Longrightarrow> step now (view st) = (fst (allow now t st), view (snd (allow now t st)))"
    and allow_other: "\<not> own t \<Longrightarrow> legal t \<Longrightarrow> view (snd (allow now t st)) = view st"
begin

lemma limiter_grants_steps:
  "\<forall>(now, t) \<in> set ops. legal t \<Longrightarrow> limiter_grants allow own ops st = grants step (own_times own ops) (view st)"
proof (induction ops arbitrary: st)
  case (Cons op ops)
  obtain now t where op: "op = (now, t)" by (cases op)
  then show ?case
    using Cons allow_own[of t now st] allow_other[of t now st] by (auto simp: split_beta)
qed simp

lemma limiter_run_steps:
  "\<forall>(now, t) \<in> set ops. legal t \<Longrightarrow> view (limiter_run allow ops st) = exec_steps step (own_times own ops) (view st)"
proof (induction ops arbitrary: st)
  case (Cons op ops)
  obtain now t where op: "op = (now, t)" by (cases op)
  then show ?case
    using Cons allow_own[of t now st] allow_other[of t now st] by (auto simp: split_beta)
qed simp

text \<open>Any window of any history, requests of other tenants in between.\<close>

lemma history_window:
  assumes "\<forall>(now, t) \<in> set (before @ window). legal t" "\<And>now. ready now (view st)"
    and "sorted (own_times own (before @ window))" "own_times own window = t0 # ts"
  shows "rat_of_nat (limiter_grants allow own window (limiter_run allow before st))
     \<le> cap + secs (last (t0 # ts) - t0) * rate"
proof -
  have "ready t0 (view (limiter_run allow before st))"
    using assms ready_after[of "own_times own before" t0 "view st"] limiter_run_steps[of before st]
    by (auto simp: sorted_append)
  then show ?thesis
    using window_bound[of t0 "view (limiter_run allow before st)" ts] assms limiter_grants_steps[of window]
    by (auto simp: sorted_append)
qed

end

section \<open>The in-memory limiter meets it\<close>

definition local_allow :: "int \<Rightarrow> int \<Rightarrow> instant \<Rightarrow> tenant \<Rightarrow> (string \<rightharpoonup> bucket) \<Rightarrow> bool \<times> (string \<rightharpoonup> bucket)" where
  "local_allow d b now t m =
     (let (r, l) = local_Allow now t \<lparr>ll_defaultRPM = d, ll_burst = b, ll_buckets = m\<rparr>
      in (lr_Allowed r, ll_buckets l))"

definition local_bucket_step :: "int \<Rightarrow> int \<Rightarrow> instant \<Rightarrow> bucket option \<Rightarrow> bool \<times> bucket option" where
  "local_bucket_step rpm c now ob =
     (let ((ok, _, _), ob') = local_step (of_int c) (of_int rpm / 60) now ob in (ok, ob'))"

definition bucket_level :: "bucket option \<Rightarrow> float64" where
  "bucket_level ob = (case ob of None \<Rightarrow> 0 | Some b \<Rightarrow> bk_tokens b)"

definition bucket_updated :: "bucket option \<Rightarrow> instant" where
  "bucket_updated ob = (case ob of None \<Rightarrow> 0 | Some b \<Rightarrow> bk_last b)"

definition bucket_wf :: "int \<Rightarrow> int \<Rightarrow> bucket option \<Rightarrow> bool" where
  "bucket_wf rpm c ob \<longleftrightarrow> 0 < rpm \<and> 1 \<le> c \<and>
     (case ob of None \<Rightarrow> False | Some b \<Rightarrow> 0 \<le> bk_tokens b \<and> bk_tokens b \<le> of_int c)"

definition bucket_ready :: "int \<Rightarrow> int \<Rightarrow> instant \<Rightarrow> bucket option \<Rightarrow> bool" where
  "bucket_ready rpm c now ob \<longleftrightarrow> 0 < rpm \<and> 1 \<le> c \<and>
     (ob = None \<or> bucket_wf rpm c ob \<and> bucket_updated ob \<le> now)"

definition ns_seconds :: "duration \<Rightarrow> rat" where
  "ns_seconds d = of_int d / of_int Second"

text \<open>The tenants of a bucket agree on its rate and capacity.\<close>

definition same_limit :: "int \<Rightarrow> int \<Rightarrow> int \<Rightarrow> int \<Rightarrow> string \<Rightarrow> tenant \<Rightarrow> bool" where
  "same_limit d b rpm c key t \<longleftrightarrow>
     0 < rpm \<and> (limit_key t = key \<longrightarrow> limitFor d t = rpm \<and> capacity_for b t = c)"

lemmas bucket_defs = bucket_level_def bucket_updated_def bucket_wf_def bucket_ready_def ns_seconds_def

lemma local_bucket_step_first:
  assumes "local_bucket_step rpm c now ob = (ok, ob')" "bucket_ready rpm c now ob"
  shows "bucket_wf rpm c ob' \<and> bucket_updated ob' = now \<and> 0 \<le> bucket_level ob'
     \<and> bucket_level ob' + (if ok then 1 else 0) \<le> of_int c"
proof -
  have c: "1 \<le> (of_int c :: rat)" "0 < rpm" "1 \<le> c" using assms(2) by (auto simp: bucket_defs)
  show ?thesis
  proof (cases ob)
    case None
    then show ?thesis using assms c by (auto simp: local_bucket_step_def local_step_def bucket_defs)
  next
    case (Some b)
    have b: "0 \<le> bk_tokens b" "bk_tokens b \<le> of_int c" "bk_last b \<le> now"
      using assms(2) Some by (auto simp: bucket_defs)
    have "0 \<le> bk_tokens b + of_int (now - bk_last b) / of_int Second * (of_int rpm / 60)"
      using b c by (simp add: Second_def)
    then show ?thesis
      using assms(1) Some b c
      by (auto simp: local_bucket_step_def local_step_def bucket_defs Let_def minF_def Second_def
          split: if_splits)
  qed
qed

lemma local_bucket_step_refill:
  assumes "local_bucket_step rpm c now ob = (ok, ob')" "bucket_wf rpm c ob" "bucket_updated ob \<le> now"
  shows "bucket_level ob' + (if ok then 1 else 0)
     \<le> bucket_level ob + ns_seconds (now - bucket_updated ob) * (of_int rpm / 60)"
proof -
  obtain b where ob: "ob = Some b" using assms(2) by (cases ob) (auto simp: bucket_defs)
  have "0 \<le> of_int (now - bk_last b) / of_int Second * (of_int rpm / (60 :: rat))"
    using assms(2,3) by (simp add: ob bucket_defs Second_def)
  then show ?thesis
    using assms(1) by (auto simp: ob local_bucket_step_def local_step_def bucket_defs Let_def minF_def
        split: if_splits)
qed

lemma ns_seconds_add: "ns_seconds (x + y) = ns_seconds x + ns_seconds y"
  by (simp add: ns_seconds_def add_divide_distrib)

lemma local_allow_own:
  assumes "limit_key t = key" "same_limit d b rpm c key t"
  shows "local_bucket_step rpm c now (m key) = (fst (local_allow d b now t m), snd (local_allow d b now t m) key)"
  using assms
  by (auto simp: same_limit_def local_allow_def local_Allow_def local_bucket_step_def Let_def split: prod.splits)

lemma local_allow_other:
  assumes "limit_key t \<noteq> key"
  shows "snd (local_allow d b now t m) key = m key"
  using assms by (auto simp: local_allow_def local_Allow_def Let_def split: prod.splits)

interpretation local_bucket: limiter "local_bucket_step rpm c" bucket_level bucket_updated
    "bucket_wf rpm c" "bucket_ready rpm c" ns_seconds "of_int rpm / 60" "of_int c"
    "local_allow d b" "\<lambda>m. m key" "\<lambda>t. limit_key t = key" "same_limit d b rpm c key"
  for rpm c d b :: int and key :: string
proof unfold_locales
  fix now s ok s'
  assume "local_bucket_step rpm c now s = (ok, s')" "bucket_ready rpm c now s"
  then show "bucket_wf rpm c s' \<and> bucket_updated s' = now \<and> 0 \<le> bucket_level s'
      \<and> bucket_level s' + (if ok then 1 else 0) \<le> of_int c"
    by (rule local_bucket_step_first)
next
  fix now s ok s'
  assume "local_bucket_step rpm c now s = (ok, s')" "bucket_wf rpm c s" "bucket_updated s \<le> now"
  then show "bucket_level s' + (if ok then 1 else 0)
      \<le> bucket_level s + ns_seconds (now - bucket_updated s) * (of_int rpm / 60)"
    by (rule local_bucket_step_refill)
qed (auto simp: ns_seconds_add local_allow_own local_allow_other, auto simp: bucket_wf_def bucket_ready_def)

text \<open>
  The in-memory limiter bounds what a key is granted: in any window of any history with a
  monotone clock, whatever other keys do meanwhile, the requests granted on the key are at most its
  capacity plus its rate times the length of the window.
\<close>

theorem local_limiter_window:
  assumes "\<forall>(now, t) \<in> set (before @ window). same_limit d b rpm c key t" "1 \<le> c" "0 < rpm"
    and "sorted (own_times (\<lambda>t. limit_key t = key) (before @ window))"
    and "own_times (\<lambda>t. limit_key t = key) window = t0 # ts"
  shows "rat_of_nat (limiter_grants (local_allow d b) (\<lambda>t. limit_key t = key) window
       (limiter_run (local_allow d b) before Map.empty))
     \<le> of_int c + of_int (last (t0 # ts) - t0) / of_int Second * (of_int rpm / 60)"
  using local_bucket.history_window[of before window d b rpm c key Map.empty t0 ts] assms
  by (simp add: bucket_ready_def ns_seconds_def)

definition demo_tenant :: tenant where
  "demo_tenant = \<lparr>tn_ID = ''acme'', tn_Name = ''Acme'', tn_KeyID = ''k1'', tn_RPM = 2\<rparr>"

theorem local_limiter_window_witness:
  "rat_of_nat (limiter_grants (local_allow 60 10) (\<lambda>t. limit_key t = ''k1'')
      [(0, demo_tenant), (1, demo_tenant), (2, demo_tenant), (30 * Second, demo_tenant)]
      (limiter_run (local_allow 60 10) [] Map.empty))
     \<le> of_int 2 + of_int (last [0, 1, 2, 30 * Second] - 0) / of_int Second * (of_int 2 / 60)"
  using local_limiter_window[of "[]" "[(0, demo_tenant), (1, demo_tenant), (2, demo_tenant), (30 * Second, demo_tenant)]"
      60 10 2 2 "''k1''" 0 "[1, 2, 30 * Second]"]
  by (simp add: demo_tenant_def same_limit_def limitFor_def capacity_for_def limit_key_def Second_def)

section \<open>The script meets it too\<close>

definition redis_allow :: "redis_limiter \<Rightarrow> int \<Rightarrow> tenant \<Rightarrow> limiter_server \<Rightarrow> bool \<times> limiter_server" where
  "redis_allow l now t srv =
     (case redis_Allow l None now t srv of
        (Inl _, srv') \<Rightarrow> (False, srv')
      | (Inr r, srv') \<Rightarrow> (lr_Allowed r, srv'))"

definition redis_bucket_step :: "int \<Rightarrow> int \<Rightarrow> int \<Rightarrow> redis_bucket option \<Rightarrow> bool \<times> redis_bucket option" where
  "redis_bucket_step rpm c now ob =
     (let ((a, _, _), b) = limiterScript (sent_rate rpm) c now (limiter_ttl_ms c rpm) (live_bucket now ob)
      in (a = 1, Some b))"

definition rb_level :: "redis_bucket option \<Rightarrow> float64" where
  "rb_level ob = (case ob of None \<Rightarrow> 0 | Some b \<Rightarrow> rb_tokens b)"

definition rb_updated :: "redis_bucket option \<Rightarrow> int" where
  "rb_updated ob = (case ob of None \<Rightarrow> 0 | Some b \<Rightarrow> rb_last b)"

text \<open>Capacities for which the expiry outlives a full refill, which is every sensible setting.\<close>

definition sane_limit :: "int \<Rightarrow> int \<Rightarrow> bool" where
  "sane_limit rpm c \<longleftrightarrow> 0 < rpm \<and> 1 \<le> c \<and> c \<le> 100000000 \<and> c \<le> 10000 * rpm"

definition rb_wf :: "int \<Rightarrow> int \<Rightarrow> redis_bucket option \<Rightarrow> bool" where
  "rb_wf rpm c ob \<longleftrightarrow> sane_limit rpm c \<and>
     (case ob of None \<Rightarrow> False
      | Some b \<Rightarrow> 0 \<le> rb_tokens b \<and> rb_tokens b \<le> of_int c \<and> rb_expires b = rb_last b + limiter_ttl_ms c rpm)"

definition rb_ready :: "int \<Rightarrow> int \<Rightarrow> int \<Rightarrow> redis_bucket option \<Rightarrow> bool" where
  "rb_ready rpm c now ob \<longleftrightarrow> sane_limit rpm c \<and> (ob = None \<or> rb_wf rpm c ob \<and> rb_updated ob \<le> now)"

definition ms_seconds :: "int \<Rightarrow> rat" where
  "ms_seconds d = of_int d / 1000"

lemmas rb_defs = rb_level_def rb_updated_def rb_wf_def rb_ready_def ms_seconds_def

lemma sent_rate_bounds:
  assumes "0 < rpm"
  shows "of_int rpm / 60 - 1 / 2000000 \<le> sent_rate rpm" "0 < sent_rate rpm"
proof -
  have "of_int rpm / 60 * 1000000 - 1 / 2 \<le> (of_int (round_half_even (of_int rpm / 60 * 1000000)) :: rat)"
    by (rule round_half_even_bounds)
  then show a: "of_int rpm / 60 - 1 / 2000000 \<le> sent_rate rpm" by (simp add: sent_rate_def)
  have "1 \<le> (of_int rpm :: rat)" using assms by simp
  then show "0 < sent_rate rpm" using a by linarith
qed

lemma div_lower: "0 < (b :: int) \<Longrightarrow> of_int a / of_int b - 1 \<le> (of_int (a div b) :: rat)"
  using floor_divide_of_int_eq[of a b, where 'a = rat] by linarith

lemma ttl_ms_bound:
  assumes "sane_limit rpm c"
  shows "of_int c / of_int rpm * 60000 + 59990 \<le> (of_int (limiter_ttl_ms c rpm) :: rat)"
proof -
  have r: "0 < rpm" "1 \<le> c" "c \<le> 100000000" using assms by (auto simp: sane_limit_def)
  have w: "wrap64 (c * Minute) = c * Minute" by (rule wrap64_id) (use r in \<open>auto simp: Minute_def\<close>)
  have "c * Minute div rpm \<le> c * Minute" using zdiv_mono2[of "c * Minute" 1 rpm] r by (simp add: Minute_def)
  moreover have p: "0 \<le> c * Minute div rpm" using r by (simp add: Minute_def pos_imp_zdiv_nonneg_iff)
  ultimately have "wrap64 (c * Minute div rpm + Minute) = c * Minute div rpm + Minute"
    by (intro wrap64_id) (use r in \<open>auto simp: Minute_def\<close>)
  then have e: "limiter_ttl_ms c rpm = (c * Minute div rpm + Minute) div 1000000"
    using r w p by (simp add: limiter_ttl_ms_def limiter_ttl_def Minute_def Millisecond_def)
  define x :: rat where "x = of_int c / of_int rpm"
  have "of_int (c * Minute) / of_int rpm = x * 60000000000" by (simp add: x_def Minute_def)
  then have a: "x * 60000000000 - 1 \<le> of_int (c * Minute div rpm)"
    using div_lower[of rpm "c * Minute"] r by linarith
  have "of_int (c * Minute div rpm + Minute) / of_int 1000000 - 1 \<le> (of_int (limiter_ttl_ms c rpm) :: rat)"
    unfolding e by (rule div_lower) simp
  then have "(of_int (c * Minute div rpm) + 60000000000) / 1000000 - 1 \<le> (of_int (limiter_ttl_ms c rpm) :: rat)"
    by (simp add: Minute_def)
  with a have "x * 60000 + 59990 \<le> of_int (limiter_ttl_ms c rpm)" by (simp add: field_simps)
  then show ?thesis by (simp only: x_def)
qed

lemma ttl_covers_refill:
  assumes "sane_limit rpm c"
  shows "of_int c \<le> ms_seconds (limiter_ttl_ms c rpm) * sent_rate rpm"
proof -
  let ?x = "of_int c / of_int rpm :: rat" and ?r = "of_int rpm :: rat"
  have s: "1 \<le> rpm" "0 \<le> c" "c \<le> 10000 * rpm" using assms by (auto simp: sane_limit_def)
  have "(of_int c :: rat) \<le> of_int (10000 * rpm)" using s(3) by (simp only: of_int_le_iff)
  then have c: "(of_int c :: rat) \<le> 10000 * ?r" by simp
  have r: "1 \<le> ?r" "0 < rpm" and c0: "0 \<le> (of_int c :: rat)" using s by simp_all
  have x: "0 \<le> ?x" "?x \<le> 10000" "?x * ?r = of_int c"
    using r(1) c c0 by (simp_all add: pos_divide_le_eq)
  have scale: "x * 60 + 5999 / 100 \<le> t / 1000" if "x * 60000 + 59990 \<le> t" for x t :: rat
    using that by linarith
  have t: "?x * 60 + 5999 / 100 \<le> ms_seconds (limiter_ttl_ms c rpm)"
    unfolding ms_seconds_def by (rule scale[OF ttl_ms_bound[OF assms]])
  have "of_int c \<le> (?x * 60 + 5999 / 100) * (?r / 60 - 1 / 2000000)"
    using x r by (simp add: algebra_simps)
  also have "\<dots> \<le> ms_seconds (limiter_ttl_ms c rpm) * sent_rate rpm"
    by (rule mult_mono[OF t sent_rate_bounds(1)]) (use x r t in auto)
  finally show ?thesis .
qed

lemma redis_bucket_step_first:
  assumes "redis_bucket_step rpm c now ob = (ok, ob')" "rb_ready rpm c now ob"
  shows "rb_wf rpm c ob' \<and> rb_updated ob' = now \<and> 0 \<le> rb_level ob'
     \<and> rb_level ob' + (if ok then 1 else 0) \<le> of_int c"
proof -
  have s: "sane_limit rpm c" using assms(2) by (simp add: rb_defs)
  have c: "1 \<le> (of_int c :: rat)" "0 < rpm" using s by (auto simp: sane_limit_def)
  have rate: "0 < sent_rate rpm" by (rule sent_rate_bounds[OF c(2)])
  show ?thesis
  proof (cases "live_bucket now ob")
    case None
    then show ?thesis using assms c s
      by (auto simp: redis_bucket_step_def limiterScript_def rb_defs Let_def split: if_splits)
  next
    case (Some b)
    then have ob: "ob = Some b" by (auto simp: live_bucket_def split: option.splits if_splits)
    have b: "0 \<le> rb_tokens b" "rb_tokens b \<le> of_int c" "rb_last b \<le> now"
      using assms(2) ob by (auto simp: rb_defs)
    have "0 \<le> rb_tokens b + of_int (now - rb_last b) / 1000 * sent_rate rpm" using b rate by simp
    then show ?thesis
      using assms(1) Some b c s
      by (auto simp: redis_bucket_step_def limiterScript_def rb_defs Let_def split: if_splits)
  qed
qed

lemma redis_bucket_step_refill:
  assumes "redis_bucket_step rpm c now ob = (ok, ob')" "rb_wf rpm c ob" "rb_updated ob \<le> now"
  shows "rb_level ob' + (if ok then 1 else 0)
     \<le> rb_level ob + ms_seconds (now - rb_updated ob) * sent_rate rpm"
proof -
  obtain b where ob: "ob = Some b" using assms(2) by (cases ob) (auto simp: rb_defs)
  have b: "0 \<le> rb_tokens b" "rb_last b \<le> now" "rb_expires b = rb_last b + limiter_ttl_ms c rpm"
    and s: "sane_limit rpm c"
    using assms(2,3) by (auto simp: ob rb_defs)
  have c: "1 \<le> (of_int c :: rat)" and rate: "0 < sent_rate rpm"
    using s by (auto simp: sane_limit_def sent_rate_bounds)
  show ?thesis
  proof (cases "now < rb_expires b")
    case True
    then show ?thesis using assms(1) b
      by (auto simp: ob live_bucket_def redis_bucket_step_def limiterScript_def rb_defs Let_def split: if_splits)
  next
    case False
    have "ms_seconds (limiter_ttl_ms c rpm) * sent_rate rpm \<le> ms_seconds (now - rb_last b) * sent_rate rpm"
      using False b rate by (intro mult_right_mono) (auto simp: ms_seconds_def simp del: of_int_diff)
    then have "of_int c \<le> ms_seconds (now - rb_last b) * sent_rate rpm"
      using ttl_covers_refill[OF s] by linarith
    then show ?thesis using assms(1) b c False
      by (auto simp: ob live_bucket_def redis_bucket_step_def limiterScript_def rb_level_def rb_updated_def
          Let_def split: if_splits)
  qed
qed

lemma ms_seconds_add: "ms_seconds (x + y) = ms_seconds x + ms_seconds y"
  by (simp add: ms_seconds_def add_divide_distrib)

lemma redis_allow_own:
  assumes "limit_key t = key" "same_limit (rl_default l) (rl_burst l) rpm c key t"
  shows "redis_bucket_step rpm c now (srv (limiterKey key)) =
    (fst (redis_allow l now t srv), snd (redis_allow l now t srv) (limiterKey key))"
  using assms
  by (auto simp: same_limit_def redis_allow_def redis_Allow_def redis_bucket_step_def script_run_def Let_def
      split: prod.splits)

lemma redis_allow_other:
  assumes "limit_key t \<noteq> key"
  shows "snd (redis_allow l now t srv) (limiterKey key) = srv (limiterKey key)"
  using assms
  by (auto simp: redis_allow_def redis_Allow_def script_run_def limiterKey_def Let_def split: prod.splits)

interpretation redis_bucket: limiter "redis_bucket_step rpm c" rb_level rb_updated
    "rb_wf rpm c" "rb_ready rpm c" ms_seconds "sent_rate rpm" "of_int c"
    "redis_allow l" "\<lambda>srv. srv (limiterKey key)" "\<lambda>t. limit_key t = key"
    "same_limit (rl_default l) (rl_burst l) rpm c key"
  for rpm c :: int and l :: redis_limiter and key :: string
proof unfold_locales
  fix now s ok s'
  assume "redis_bucket_step rpm c now s = (ok, s')" "rb_ready rpm c now s"
  then show "rb_wf rpm c s' \<and> rb_updated s' = now \<and> 0 \<le> rb_level s'
      \<and> rb_level s' + (if ok then 1 else 0) \<le> of_int c"
    by (rule redis_bucket_step_first)
next
  fix now s ok s'
  assume "redis_bucket_step rpm c now s = (ok, s')" "rb_wf rpm c s" "rb_updated s \<le> now"
  then show "rb_level s' + (if ok then 1 else 0)
      \<le> rb_level s + ms_seconds (now - rb_updated s) * sent_rate rpm"
    by (rule redis_bucket_step_refill)
qed (auto simp: ms_seconds_add redis_allow_own redis_allow_other, auto simp: rb_wf_def rb_ready_def)


definition demo_limiter :: redis_limiter where
  "demo_limiter = NewRedisLimiter 60 0"


section \<open>The advised wait\<close>

text \<open>The header rounds up: whole seconds that cover the wait, the fewest ones above one.\<close>

lemma retry_seconds_covers:
  assumes "0 \<le> d"
  shows "d \<le> retry_seconds d * Second" "1 < retry_seconds d \<Longrightarrow> (retry_seconds d - 1) * Second < d"
proof -
  have "d = d div 1000000000 * 1000000000 + d mod 1000000000" "0 \<le> d mod 1000000000" "d mod 1000000000 < 1000000000"
    "0 \<le> d div 1000000000" using assms by simp_all
  moreover have "d div 1000000000 * 1000000000 < d" if "d mod 1000000000 \<noteq> 0" using calculation that by linarith
  ultimately show "d \<le> retry_seconds d * Second" "1 < retry_seconds d \<Longrightarrow> (retry_seconds d - 1) * Second < d"
    using assms by (auto simp: retry_seconds_def Let_def Second_def max_def split: if_splits)
qed

text \<open>A refused key holds less than one token, and the script says when it will hold one.\<close>

lemma limiterScript_refused:
  assumes "limiterScript rate c now ttl ob = ((a, rem, wait), b)" "a \<noteq> 1" "0 < rate"
  shows "rb_tokens b < 1" "wait = \<lceil>(1 - rb_tokens b) / rate * 1000\<rceil>" "rb_last b = now" "0 < wait"
proof -
  show *: "rb_tokens b < 1" "wait = \<lceil>(1 - rb_tokens b) / rate * 1000\<rceil>" "rb_last b = now"
    using assms by (auto simp: limiterScript_def Let_def split: if_splits)
  show "0 < wait" using * assms(3) by simp
qed

lemma limiterScript_granted:
  assumes "1 \<le> c" "0 < rate" "\<And>b. ob = Some b \<Longrightarrow> 1 \<le> rb_tokens b + of_int (max 0 (now - rb_last b)) / 1000 * rate"
  shows "fst (fst (limiterScript rate c now ttl ob)) = 1"
proof -
  have c: "1 \<le> (of_int c :: rat)" using assms(1) by simp
  show ?thesis using c assms(3) by (cases ob) (simp_all add: limiterScript_def Let_def del: of_int_max)
qed

text \<open>
  C36. The wait the Redis limiter advises is honest: a refusal carries a \<open>Retry-After\<close> header, and a
  client that waits that many seconds is granted its request when nothing else used the key meanwhile.
\<close>

theorem redis_retry_after_honest:
  assumes "redis_Allow l None now t srv = (Inr r, srv')" "\<not> lr_Allowed r"
    and "1 \<le> capacity_for (rl_burst l) t" "now + 1000 * retry_seconds (lr_RetryAfter r) \<le> later"
  shows "(''Retry-After'', Itoa (retry_seconds (lr_RetryAfter r))) \<in> set (writeHeaders r) \<and>
    (\<exists>r'. fst (redis_Allow l None later t srv') = Inr r' \<and> lr_Allowed r')"
proof -
  let ?rpm = "limitFor (rl_default l) t" and ?c = "capacity_for (rl_burst l) t"
  have rpm: "0 < ?rpm" using assms(1,2) by (auto simp: redis_Allow_def Let_def split: if_splits)
  have rate: "0 < sent_rate ?rpm" by (rule sent_rate_bounds(2)[OF rpm])
  obtain a m w b where sc: "limiterScript (sent_rate ?rpm) ?c now (limiter_ttl_ms ?c ?rpm)
      (live_bucket now (srv (limiterKey (limit_key t)))) = ((a, m, w), b)" by (metis surj_pair)
  have r: "a \<noteq> 1" "lr_RetryAfter r = w * Millisecond" "\<not> lr_Allowed r" "srv' (limiterKey (limit_key t)) = Some b"
    using assms(1,2) rpm sc by (auto simp: redis_Allow_def script_run_def Let_def)
  note ref = limiterScript_refused[OF sc r(1) rate]
  have header: "0 < lr_RetryAfter r" using r(2) ref(4) by (simp add: Millisecond_def)
  have "w \<le> 1000 * retry_seconds (lr_RetryAfter r)"
    using retry_seconds_covers(1)[of "lr_RetryAfter r"] header by (simp add: r(2) Millisecond_def Second_def)
  then have "(1 - rb_tokens b) / sent_rate ?rpm * 1000 \<le> of_int (later - now)"
    using ref(2) assms(4) by linarith
  then have "1 - rb_tokens b \<le> of_int (later - now) / 1000 * sent_rate ?rpm"
    using rate by (simp add: field_simps)
  then have "1 \<le> rb_tokens b + of_int (max 0 (later - rb_last b)) / 1000 * sent_rate ?rpm"
    using ref(3,4) \<open>w \<le> _\<close> assms(4) by (simp add: max_absorb2)
  then have "fst (fst (limiterScript (sent_rate ?rpm) ?c later (limiter_ttl_ms ?c ?rpm)
      (live_bucket later (Some b)))) = 1"
    using limiterScript_granted[OF assms(3) rate, of "live_bucket later (Some b)"]
    by (auto simp: live_bucket_def split: if_splits)
  then show ?thesis
    using rpm r header by (auto simp: redis_Allow_def script_run_def writeHeaders_def Let_def split: prod.splits)
qed

definition demo_guest :: tenant where
  "demo_guest = \<lparr>tn_ID = ''acme'', tn_Name = ''Acme'', tn_KeyID = ''k1'', tn_RPM = 0\<rparr>"

lemma demo_script_numbers:
  "sent_rate 60 = 1" "limiter_ttl_ms 60 60 = 120000"
  by (simp_all add: sent_rate_def round_half_even_def limiter_ttl_ms_def limiter_ttl_def Minute_def Millisecond_def)

definition demo_refusal :: limit_result where
  "demo_refusal = \<lparr>lr_Allowed = False, lr_Limit = 60, lr_Remaining = 0, lr_RetryAfter = 1000 * Millisecond\<rparr>"

theorem redis_retry_after_honest_witness:
  "(''Retry-After'', Itoa (retry_seconds (lr_RetryAfter demo_refusal))) \<in> set (writeHeaders demo_refusal)
   \<and> (\<exists>r'. fst (redis_Allow demo_limiter None 1001 demo_guest
        [''glm:v1:rl:k1'' \<mapsto> \<lparr>rb_tokens = 0, rb_last = 1, rb_expires = 120001\<rparr>]) = Inr r' \<and> lr_Allowed r')"
  by (rule redis_retry_after_honest[where now = 1 and
        srv = "[''glm:v1:rl:k1'' \<mapsto> \<lparr>rb_tokens = 0, rb_last = 1, rb_expires = 2\<rparr>]"])
    (simp_all add: redis_Allow_def demo_limiter_def NewRedisLimiter_def demo_guest_def limitFor_def capacity_for_def
      limit_key_def limiterKey_def script_run_def live_bucket_def limiterScript_def demo_script_numbers demo_refusal_def
      retry_seconds_def Millisecond_def Second_def)

section \<open>Clocks that disagree\<close>

text \<open>
  The script moves the stamp of a bucket to the caller's clock even when that lies in the past, so an
  interval can be refilled more than once. Two replicas one second apart that take turns on a key
  limited to one request per second:
\<close>

definition skewed_history :: "nat \<Rightarrow> tenant \<Rightarrow> (int \<times> tenant) list" where
  "skewed_history n t = concat (replicate n [(0, t), (1000, t)])"

lemma skewed_round:
  assumes "srv ''glm:v1:rl:k1'' = Some b" "rb_tokens b = 0" "1000 < rb_expires b" "0 \<le> rb_last b"
  shows "fst (redis_allow demo_limiter 1000 demo_guest (snd (redis_allow demo_limiter 0 demo_guest srv)))"
    and "snd (redis_allow demo_limiter 1000 demo_guest (snd (redis_allow demo_limiter 0 demo_guest srv))) ''glm:v1:rl:k1''
      = Some \<lparr>rb_tokens = 0, rb_last = 1000, rb_expires = 121000\<rparr>"
  using assms
  by (simp_all add: redis_allow_def redis_Allow_def demo_limiter_def NewRedisLimiter_def demo_guest_def limitFor_def
      capacity_for_def limit_key_def limiterKey_def script_run_def live_bucket_def limiterScript_def demo_script_numbers)

lemma skewed_grants:
  assumes "srv ''glm:v1:rl:k1'' = Some b" "rb_tokens b = 0" "1000 < rb_expires b" "0 \<le> rb_last b"
  shows "n \<le> limiter_grants (redis_allow demo_limiter) (\<lambda>t. limit_key t = ''k1'') (skewed_history n demo_guest) srv"
  using assms
proof (induction n arbitrary: srv b)
  case (Suc n)
  note r = skewed_round(1)[where srv = srv and b = b, OF Suc.prems]
    and s = skewed_round(2)[where srv = srv and b = b, OF Suc.prems]
  have "limit_key demo_guest = ''k1''" by (simp add: limit_key_def demo_guest_def)
  then show ?case
    using Suc.IH[of "snd (redis_allow demo_limiter 1000 demo_guest (snd (redis_allow demo_limiter 0 demo_guest srv)))"] r s
    by (simp add: skewed_history_def split_beta)
qed simp

text \<open>
  Clock skew between replicas defeats the Redis limit: on a key limited to sixty requests per
  minute that has used its burst, replicas one second apart grant one request per turn for ever, with every time
  stamp within the same second.
\<close>

theorem redis_clock_skew:
  "n \<le> limiter_grants (redis_allow demo_limiter) (\<lambda>t. limit_key t = ''k1'') (skewed_history n demo_guest)
     [''glm:v1:rl:k1'' \<mapsto> \<lparr>rb_tokens = 0, rb_last = 1000, rb_expires = 121000\<rparr>]
   \<and> fst ` set (skewed_history n demo_guest) \<subseteq> {0, 1000}"
proof -
  have "fst ` set (skewed_history n demo_guest) \<subseteq> {0, 1000}" by (auto simp: skewed_history_def)
  then show ?thesis using skewed_grants by simp
qed

end
