(* ===== verification/Stores.thy ===== *)
theory Stores
  imports OpenAI
begin

text \<open>
  \<open>internal/store/qdrant.go\<close>, \<open>internal/store/postgres.go\<close> (the migrations) and \<open>internal/embed\<close>: the
  client of the vector store and the two embedders. The HTTP round trip and the JSON decoders are
  parameters; a JSON body is a value of \<open>json\<close>. The state of the sidecar embedder is the result of
  its one probe.
\<close>

section \<open>Errors made of text\<close>

definition errorf :: "string \<Rightarrow> go_error" where
  "errorf msg = ErrorText msg None"

text \<open>\<open>fmt.Errorf("prefix: %w", err)\<close> and \<open>fmt.Errorf("%w: suffix", sentinel)\<close>\<close>

definition wrapf :: "string \<Rightarrow> go_error \<Rightarrow> go_error" where
  "wrapf prefix err = ErrorText (prefix @ '': '' @ error_text err) (Some err)"

text \<open>\<open>%q\<close> of a text without characters to escape\<close>

definition quoted :: "string \<Rightarrow> string" where
  "quoted s = CHR 0x22 # s @ [CHR 0x22]"

definition unavailable :: "string \<Rightarrow> go_error" where
  "unavailable detail =
     ErrorText (sentinel_text ErrEmbedderUnavailable @ '': '' @ detail) (Some (Sentinel ErrEmbedderUnavailable))"

section \<open>The Qdrant client\<close>

record qdrant =
  qd_baseURL :: string
  qd_apiKey :: string

definition NewQdrant :: "string \<Rightarrow> string \<Rightarrow> qdrant" where
  "NewQdrant baseURL apiKey = \<lparr>qd_baseURL = TrimRight baseURL (CHR ''/''), qd_apiKey = apiKey\<rparr>"

record store_request =
  sq_Method :: string
  sq_URL :: string
  sq_Headers :: "(string \<times> string) list"
  sq_Body :: "json option"

record store_env =
  se_url_err :: "string \<Rightarrow> go_error option"
  se_do :: "store_request \<Rightarrow> go_error + http_response"

definition qdrant_do ::
  "store_env \<Rightarrow> qdrant \<Rightarrow> string \<Rightarrow> string \<Rightarrow> json option \<Rightarrow> (http_response \<Rightarrow> go_error + 'a)
    \<Rightarrow> go_error + 'a" where
  "qdrant_do h q mthd path body decode =
     (case se_url_err h (qd_baseURL q @ path) of
        Some e \<Rightarrow> Inl (wrapf ''qdrant: build request'' e)
      | None \<Rightarrow>
          (case se_do h
                  \<lparr>sq_Method = mthd, sq_URL = qd_baseURL q @ path,
                   sq_Headers = (''Content-Type'', ''application/json'') #
                     (if qd_apiKey q \<noteq> '''' then [(''api-key'', qd_apiKey q)] else []),
                   sq_Body = body\<rparr> of
             Inl e \<Rightarrow> Inl (wrapf (''qdrant: '' @ mthd @ '' '' @ path) e)
           | Inr resp \<Rightarrow>
               if hs_StatusCode resp < 200 \<or> hs_StatusCode resp \<ge> 300
               then Inl (errorf (''qdrant: '' @ mthd @ '' '' @ path @ '': status '' @ Itoa (hs_StatusCode resp)
                                 @ '': '' @ TrimSpace (take 2048 (hs_Body resp))))
               else case decode resp of
                 Inl e \<Rightarrow> Inl (wrapf (''qdrant: decode '' @ path) e)
               | Inr x \<Rightarrow> Inr x))"

text \<open>A call without an \<open>out\<close> argument decodes nothing.\<close>

definition no_out :: "http_response \<Rightarrow> go_error + unit" where
  "no_out resp = Inr ()"

definition dimension_error :: "string \<Rightarrow> int \<Rightarrow> int \<Rightarrow> go_error" where
  "dimension_error name got want =
     errorf (''qdrant: collection '' @ quoted name @ '' has vector size '' @ Itoa got @ '' but the embedder produces ''
             @ Itoa want @ '': recreate the collection or switch the embedding model'')"

definition EnsureCollection ::
  "store_env \<Rightarrow> (http_response \<Rightarrow> go_error + int) \<Rightarrow> qdrant \<Rightarrow> string \<Rightarrow> int \<Rightarrow> string \<Rightarrow> go_error option" where
  "EnsureCollection h decode_size q name vsize metric =
     (case qdrant_do h q ''GET'' (''/collections/'' @ name) None decode_size of
        Inr got \<Rightarrow>
          if got \<noteq> 0 \<and> got \<noteq> vsize then Some (dimension_error name got vsize) else None
      | Inl err \<Rightarrow>
          if \<not> Contains (error_text err) ''status 404'' then Some err
          else
            (case qdrant_do h q ''PUT'' (''/collections/'' @ name)
                    (Some (JObject [(''vectors'', JObject [(''size'', JNum (of_int vsize)), (''distance'', JString metric)])]))
                    no_out of
               Inl err' \<Rightarrow> if Contains (error_text err') ''already exists'' then None else Some err'
             | Inr _ \<Rightarrow> None))"

record point =
  pt_ID :: string
  pt_Vector :: "float64 list"
  pt_Payload :: "(string \<times> json) list"

record scored_point =
  sp_ID :: string
  sp_Score :: float64
  sp_Payload :: "(string \<times> json) list"

record search_request =
  sr_Vector :: "float64 list"
  sr_Limit :: int
  sr_ScoreThreshold :: float64
  sr_WithPayload :: bool
  sr_Filter :: json

definition point_json :: "point \<Rightarrow> json" where
  "point_json p = JObject
     ([(''id'', JString (pt_ID p)), (''vector'', JArray (map JNum (pt_Vector p)))] @
      (if pt_Payload p \<noteq> [] then [(''payload'', JObject (pt_Payload p))] else []))"

definition search_json :: "search_request \<Rightarrow> json" where
  "search_json r = JObject
     ([(''vector'', JArray (map JNum (sr_Vector r))), (''limit'', JNum (of_int (sr_Limit r)))] @
      (if sr_ScoreThreshold r \<noteq> 0 then [(''score_threshold'', JNum (sr_ScoreThreshold r))] else []) @
      [(''with_payload'', JBool (sr_WithPayload r)), (''filter'', sr_Filter r)])"

definition qdrant_Upsert :: "store_env \<Rightarrow> qdrant \<Rightarrow> string \<Rightarrow> point list \<Rightarrow> go_error option" where
  "qdrant_Upsert h q collection points =
     (if points = [] then None
      else case qdrant_do h q ''PUT'' (''/collections/'' @ collection @ ''/points?wait=false'')
                  (Some (JObject [(''points'', JArray (map point_json points))])) no_out of
        Inl e \<Rightarrow> Some e
      | Inr _ \<Rightarrow> None)"

definition qdrant_Search ::
  "store_env \<Rightarrow> (http_response \<Rightarrow> go_error + scored_point list) \<Rightarrow> qdrant \<Rightarrow> string \<Rightarrow> search_request
    \<Rightarrow> go_error + scored_point list" where
  "qdrant_Search h decode q collection req =
     qdrant_do h q ''POST'' (''/collections/'' @ collection @ ''/points/search'')
       (Some (search_json (req\<lparr>sr_WithPayload := True\<rparr>))) decode"

definition qdrant_Delete :: "store_env \<Rightarrow> qdrant \<Rightarrow> string \<Rightarrow> string list \<Rightarrow> go_error option" where
  "qdrant_Delete h q collection ids =
     (if ids = [] then None
      else case qdrant_do h q ''POST'' (''/collections/'' @ collection @ ''/points/delete?wait=false'')
                  (Some (JObject [(''points'', JArray (map JString ids))])) no_out of
        Inl e \<Rightarrow> Some e
      | Inr _ \<Rightarrow> None)"

definition qdrant_Ping :: "store_env \<Rightarrow> qdrant \<Rightarrow> go_error option" where
  "qdrant_Ping h q =
     (case qdrant_do h q ''GET'' ''/healthz'' None no_out of Inl e \<Rightarrow> Some e | Inr _ \<Rightarrow> None)"

section \<open>Migrations\<close>

text \<open>
  The files of the embedded directory in name order; a file that cannot be read or applied stops the
  run. \<open>exec\<close> runs one script against the database.
\<close>

fun apply_migrations ::
  "(string \<Rightarrow> go_error + string) \<Rightarrow> (string \<Rightarrow> 'd \<Rightarrow> go_error option \<times> 'd) \<Rightarrow> string list \<Rightarrow> 'd \<Rightarrow> go_error option \<times> 'd" where
  "apply_migrations read exec [] db = (None, db)"
| "apply_migrations read exec (name # names) db =
     (case read name of
        Inl e \<Rightarrow> (Some (wrapf (''migrate: read '' @ name) e), db)
      | Inr sql \<Rightarrow>
          (case exec sql db of
             (Some e, db') \<Rightarrow> (Some (wrapf (''migrate: apply '' @ name) e), db')
           | (None, db') \<Rightarrow> apply_migrations read exec names db'))"

section \<open>The hosted embedder\<close>

record api_embedder =
  ae_baseURL :: string
  ae_model :: string
  ae_apiKey :: string
  ae_dims :: int

definition knownDims :: "string \<Rightarrow> int" where
  "knownDims model =
     (if model = ''text-embedding-3-small'' then 1536
      else if model = ''text-embedding-3-large'' then 3072
      else if model = ''text-embedding-ada-002'' then 1536 else 0)"

definition NewAPI :: "string \<Rightarrow> string \<Rightarrow> string \<Rightarrow> int \<Rightarrow> api_embedder" where
  "NewAPI baseURL model apiKey dimensions =
     \<lparr>ae_baseURL = TrimRight (if baseURL = '''' then ''https://api.openai.com/v1'' else baseURL) (CHR ''/''),
      ae_model = model, ae_apiKey = apiKey,
      ae_dims = (if dimensions = 0 then knownDims model else dimensions)\<rparr>"

definition api_Name :: "api_embedder \<Rightarrow> string" where
  "api_Name a = ''api:'' @ ae_model a"

text \<open>An embedding is \<open>None\<close> where the decoded slice is nil.\<close>

record api_datum =
  da_Index :: int
  da_Embedding :: "float64 list option"

fun place_vectors ::
  "api_datum list \<Rightarrow> float64 list option list \<Rightarrow> go_error + float64 list option list" where
  "place_vectors [] vecs = Inr vecs"
| "place_vectors (d # ds) vecs =
     (if da_Index d < 0 \<or> da_Index d \<ge> int (length vecs)
      then Inl (errorf (''embed api: vector index '' @ Itoa (da_Index d) @ '' out of range''))
      else place_vectors ds (vecs[nat (da_Index d) := da_Embedding d]))"

fun check_vectors :: "nat \<Rightarrow> float64 list option list \<Rightarrow> go_error + float64 list list" where
  "check_vectors i [] = Inr []"
| "check_vectors i (None # vs) = Inl (errorf (''embed api: missing vector for input '' @ Itoa (int i)))"
| "check_vectors i (Some v # vs) =
     (case check_vectors (Suc i) vs of Inl e \<Rightarrow> Inl e | Inr ws \<Rightarrow> Inr (v # ws))"

definition api_request :: "api_embedder \<Rightarrow> string list \<Rightarrow> json" where
  "api_request a texts = JObject
     ([(''model'', JString (ae_model a)), (''input'', JArray (map JString texts))] @
      (if ae_dims a > 0 \<and> HasPrefix (ae_model a) ''text-embedding-3''
       then [(''dimensions'', JNum (of_int (ae_dims a)))] else []))"

definition embed_status_error :: "http_response \<Rightarrow> go_error" where
  "embed_status_error resp =
     unavailable (''status '' @ Itoa (hs_StatusCode resp) @ '': '' @ TrimSpace (take 2048 (hs_Body resp)))"

definition api_Embed ::
  "store_env \<Rightarrow> (http_response \<Rightarrow> go_error + api_datum list) \<Rightarrow> api_embedder \<Rightarrow> string list
    \<Rightarrow> go_error + float64 list list" where
  "api_Embed h decode a texts =
     (if texts = [] then Inr []
      else case se_url_err h (ae_baseURL a @ ''/embeddings'') of
        Some e \<Rightarrow> Inl (wrapf ''embed api: build request'' e)
      | None \<Rightarrow>
          (case se_do h
                  \<lparr>sq_Method = ''POST'', sq_URL = ae_baseURL a @ ''/embeddings'',
                   sq_Headers = [(''Content-Type'', ''application/json''), (''Authorization'', ''Bearer '' @ ae_apiKey a)],
                   sq_Body = Some (api_request a texts)\<rparr> of
             Inl e \<Rightarrow> Inl (unavailable (error_text e))
           | Inr resp \<Rightarrow>
               if hs_StatusCode resp \<noteq> 200 then Inl (embed_status_error resp)
               else case decode resp of
                 Inl e \<Rightarrow> Inl (wrapf ''embed api: decode'' e)
               | Inr data \<Rightarrow>
                   if length data \<noteq> length texts
                   then Inl (errorf (''embed api: got '' @ Itoa (int (length data)) @ '' vectors for ''
                                     @ Itoa (int (length texts)) @ '' texts''))
                   else case place_vectors data (replicate (length texts) None) of
                     Inl e \<Rightarrow> Inl e
                   | Inr vecs \<Rightarrow> check_vectors 0 vecs))"

section \<open>The sidecar embedder\<close>

record sidecar =
  sd_baseURL :: string
  sd_model :: string
  sd_configuredDims :: int
  sd_probed :: "int option"

definition NewSidecar :: "string \<Rightarrow> string \<Rightarrow> int \<Rightarrow> sidecar" where
  "NewSidecar baseURL model dimensions =
     \<lparr>sd_baseURL = TrimRight baseURL (CHR ''/''), sd_model = model, sd_configuredDims = dimensions,
      sd_probed = None\<rparr>"

definition sidecar_Embed ::
  "store_env \<Rightarrow> (http_response \<Rightarrow> go_error + float64 list list) \<Rightarrow> sidecar \<Rightarrow> string list
    \<Rightarrow> go_error + float64 list list" where
  "sidecar_Embed h decode s texts =
     (if texts = [] then Inr []
      else case se_url_err h (sd_baseURL s @ ''/embed'') of
        Some e \<Rightarrow> Inl (wrapf ''embed sidecar: build request'' e)
      | None \<Rightarrow>
          (case se_do h
                  \<lparr>sq_Method = ''POST'', sq_URL = sd_baseURL s @ ''/embed'',
                   sq_Headers = [(''Content-Type'', ''application/json'')],
                   sq_Body = Some (JObject
                     ((''texts'', JArray (map JString texts)) #
                      (if sd_model s \<noteq> '''' then [(''model'', JString (sd_model s))] else [])))\<rparr> of
             Inl e \<Rightarrow> Inl (unavailable (error_text e))
           | Inr resp \<Rightarrow>
               if hs_StatusCode resp \<noteq> 200 then Inl (embed_status_error resp)
               else case decode resp of
                 Inl e \<Rightarrow> Inl (wrapf ''embed sidecar: decode'' e)
               | Inr vecs \<Rightarrow>
                   if length vecs \<noteq> length texts
                   then Inl (errorf (''embed sidecar: got '' @ Itoa (int (length vecs)) @ '' vectors for ''
                                     @ Itoa (int (length texts)) @ '' texts''))
                   else Inr vecs))"

definition sidecar_info ::
  "store_env \<Rightarrow> (http_response \<Rightarrow> go_error + int) \<Rightarrow> sidecar \<Rightarrow> go_error + int" where
  "sidecar_info h decode_dims s =
     (case se_url_err h (sd_baseURL s @ ''/info'') of
        Some e \<Rightarrow> Inl e
      | None \<Rightarrow>
          (case se_do h \<lparr>sq_Method = ''GET'', sq_URL = sd_baseURL s @ ''/info'', sq_Headers = [], sq_Body = None\<rparr> of
             Inl e \<Rightarrow> Inl (unavailable (error_text e))
           | Inr resp \<Rightarrow>
               if hs_StatusCode resp \<noteq> 200
               then Inl (unavailable (''info status '' @ Itoa (hs_StatusCode resp)))
               else decode_dims resp))"

text \<open>\<open>Dimensions\<close>: the \<open>sync.Once\<close> probes at most once; a failed probe leaves 0 for good.\<close>

definition sidecar_Dimensions ::
  "store_env \<Rightarrow> (http_response \<Rightarrow> go_error + int) \<Rightarrow> sidecar \<Rightarrow> int \<times> sidecar" where
  "sidecar_Dimensions h decode_dims s =
     (if sd_configuredDims s > 0 then (sd_configuredDims s, s)
      else case sd_probed s of
        Some n \<Rightarrow> (n, s)
      | None \<Rightarrow>
          (let n = (case sidecar_info h decode_dims s of Inl e \<Rightarrow> 0 | Inr d \<Rightarrow> d) in
           (n, s\<lparr>sd_probed := Some n\<rparr>)))"

section \<open>The interface and its factory\<close>

datatype embedder = SidecarEmbedder sidecar | APIEmbedder api_embedder

definition embed_Build :: "embed_cfg \<Rightarrow> int \<Rightarrow> go_error + embedder" where
  "embed_Build cfg dims =
     (if em_Kind cfg = ''sidecar''
      then Inr (SidecarEmbedder (NewSidecar (em_BaseURL cfg) (em_Model cfg) dims))
      else if em_Kind cfg = ''api''
      then (let e = NewAPI (em_BaseURL cfg) (em_Model cfg) (em_APIKey cfg) dims in
            if ae_dims e = 0
            then Inl (errorf (''embed: dimensions unknown for model '' @ quoted (em_Model cfg) @ ''; set cache.semantic.vector_size''))
            else Inr (APIEmbedder e))
      else Inl (errorf (''embed: unknown kind '' @ quoted (em_Kind cfg) @ '' (want sidecar or api)'')))"

definition EmbedOne :: "(string list \<Rightarrow> go_error + float64 list list) \<Rightarrow> string \<Rightarrow> go_error + float64 list" where
  "EmbedOne embed_fn txt =
     (case embed_fn [txt] of
        Inl e \<Rightarrow> Inl e
      | Inr vecs \<Rightarrow>
          (case vecs of
             [v] \<Rightarrow> Inr v
           | _ \<Rightarrow> Inl (errorf (''embed: expected 1 vector, got '' @ Itoa (int (length vecs))))))"

section \<open>Placement by index\<close>

lemma place_vectors_spec:
  assumes "place_vectors ds vecs = Inr ws"
  shows "length ws = length vecs \<and> (\<forall>d \<in> set ds. 0 \<le> da_Index d \<and> da_Index d < int (length vecs)) \<and>
    (\<forall>i < length vecs. ws ! i = vecs ! i \<or> (\<exists>d \<in> set ds. da_Index d = int i \<and> da_Embedding d = ws ! i))"
  using assms
proof (induction ds vecs rule: place_vectors.induct)
  case (2 d ds vecs)
  then have ok: "0 \<le> da_Index d" "da_Index d < int (length vecs)"
    and go: "place_vectors ds (vecs[nat (da_Index d) := da_Embedding d]) = Inr ws"
    by (auto split: if_splits)
  note ih = 2(1)[OF _ go]
  have upd: "vecs[nat (da_Index d) := da_Embedding d] ! i = vecs ! i \<or>
      da_Index d = int i \<and> vecs[nat (da_Index d) := da_Embedding d] ! i = da_Embedding d" if "i < length vecs" for i
    using ok that by (auto simp: nth_list_update)
  have "ws ! i = vecs ! i \<or> (\<exists>d' \<in> set (d # ds). da_Index d' = int i \<and> da_Embedding d' = ws ! i)"
    if "i < length vecs" for i
    using ih ok upd[OF that] that by fastforce
  then show ?case using ih ok by auto
qed auto

lemma check_vectors_spec: "check_vectors i vs = Inr ws \<Longrightarrow> vs = map Some ws"
  by (induction i vs arbitrary: ws rule: check_vectors.induct) (auto split: sum.splits)

text \<open>
  No vector is paired with the wrong prompt: when the hosted embedder succeeds it returns one
  vector per text, and the indices of the answer's data are a permutation of the positions, each position
  holding the embedding of the one datum that carries its index, whatever the order of the array; a
  missing, repeated or out-of-range index makes the call fail.
\<close>

theorem api_embed_aligned:
  assumes "texts \<noteq> []" "api_Embed h decode a texts = Inr vecs"
  shows "length vecs = length texts \<and>
    (\<exists>resp data. decode resp = Inr data \<and>
       mset (map da_Index data) = mset (map int [0..<length texts]) \<and>
       (\<forall>d \<in> set data. da_Embedding d = Some (vecs ! nat (da_Index d))))"
proof -
  let ?n = "length texts"
  obtain resp data ws where d: "decode resp = Inr data" "length data = ?n"
    and pl: "place_vectors data (replicate ?n None) = Inr ws" and ck: "check_vectors 0 ws = Inr vecs"
    using assms by (auto simp: api_Embed_def split: option.splits sum.splits if_splits)
  have ws: "ws = map Some vecs" by (rule check_vectors_spec[OF ck])
  note spec = place_vectors_spec[OF pl]
  have len: "length vecs = ?n" using spec ws by simp
  have cover: "\<exists>d \<in> set data. da_Index d = int i \<and> da_Embedding d = Some (vecs ! i)" if "i < ?n" for i
    using spec that ws len by fastforce
  have sub: "set (map int [0..<?n]) \<subseteq> set (map da_Index data)"
    using cover by force
  have range: "\<forall>d \<in> set data. 0 \<le> da_Index d \<and> da_Index d < int ?n" using spec by simp
  have eqset: "set (map da_Index data) = set (map int [0..<?n])"
  proof
    show "set (map da_Index data) \<subseteq> set (map int [0..<?n])"
    proof
      fix k assume "k \<in> set (map da_Index data)"
      then have "0 \<le> k" "k < int ?n" using range by auto
      then show "k \<in> set (map int [0..<?n])" by (auto intro!: image_eqI[of _ _ "nat k"])
    qed
  qed (rule sub)
  have "card (set (map da_Index data)) = ?n"
    unfolding eqset by (simp add: card_image)
  then have dist: "distinct (map da_Index data)" using d(2) by (intro card_distinct) simp
  have perm: "mset (map da_Index data) = mset (map int [0..<?n])"
    using dist eqset set_eq_iff_mset_eq_distinct[of "map da_Index data" "map int [0..<?n]"]
    by (simp add: distinct_map)
  have "da_Embedding d = Some (vecs ! nat (da_Index d))" if "d \<in> set data" for d
  proof -
    have "nat (da_Index d) < ?n" using range that by (simp add: nat_less_iff)
    moreover have "int (nat (da_Index d)) = da_Index d" using range that by simp
    ultimately obtain d' where "d' \<in> set data" "da_Index d' = da_Index d"
      "da_Embedding d' = Some (vecs ! nat (da_Index d))" using cover by metis
    moreover have "d' = d" using dist that calculation(1,2) by (auto simp: distinct_map dest: inj_onD)
    ultimately show ?thesis by simp
  qed
  then show ?thesis using len d(1) perm by blast
qed

definition embed_demo_env :: store_env where
  "embed_demo_env = \<lparr>se_url_err = (\<lambda>u. None), se_do = (\<lambda>r. Inr (demo_response 200 ''{}''))\<rparr>"

definition embed_demo_data :: "api_datum list" where
  "embed_demo_data = [\<lparr>da_Index = 1, da_Embedding = Some [2]\<rparr>, \<lparr>da_Index = 0, da_Embedding = Some [1]\<rparr>]"

theorem api_embed_aligned_witness:
  "\<exists>vecs. api_Embed embed_demo_env (\<lambda>r. Inr embed_demo_data) (NewAPI '''' ''m'' ''k'' 3) [''a'', ''b''] = Inr vecs
     \<and> vecs ! 0 = [1] \<and> vecs ! 1 = [2] \<and> length vecs = 2"
proof -
  obtain vecs where v: "api_Embed embed_demo_env (\<lambda>r. Inr embed_demo_data) (NewAPI '''' ''m'' ''k'' 3) [''a'', ''b''] = Inr vecs"
    by (simp add: api_Embed_def embed_demo_env_def demo_response_def embed_demo_data_def)
  from api_embed_aligned[OF _ v] show ?thesis using v by (auto simp: embed_demo_data_def)
qed

text \<open>
  The collection check cannot be fooled by a mismatch: when \<open>EnsureCollection\<close> reports success, the
  collection was read and has the wanted vector size (or reports none), or it was absent and has been
  created with that size in this call, or the creation was refused because another replica had just
  created it; a collection read with another size is always an error.
\<close>

theorem ensure_collection_sound:
  assumes "EnsureCollection h decode_size q name vsize metric = None"
  shows "(\<exists>got. qdrant_do h q ''GET'' (''/collections/'' @ name) None decode_size = Inr got \<and> (got = 0 \<or> got = vsize))
    \<or> (\<exists>err. qdrant_do h q ''GET'' (''/collections/'' @ name) None decode_size = Inl err \<and>
          Contains (error_text err) ''status 404'' \<and>
          (case qdrant_do h q ''PUT'' (''/collections/'' @ name)
             (Some (JObject [(''vectors'', JObject [(''size'', JNum (of_int vsize)), (''distance'', JString metric)])])) no_out of
             Inr _ \<Rightarrow> True | Inl e \<Rightarrow> Contains (error_text e) ''already exists''))"
  using assms by (auto simp: EnsureCollection_def split: sum.splits if_splits)

theorem ensure_collection_sound_witness:
  "EnsureCollection embed_demo_env (\<lambda>r. Inr 384) (NewQdrant ''u'' '''') ''c'' 384 ''Cosine'' = None
   \<and> qdrant_do embed_demo_env (NewQdrant ''u'' '''') ''GET'' ''/collections/c'' None (\<lambda>r. Inr (384::int)) = Inr 384"
proof -
  have e: "EnsureCollection embed_demo_env (\<lambda>r. Inr 384) (NewQdrant ''u'' '''') ''c'' 384 ''Cosine'' = None"
    by (simp add: EnsureCollection_def qdrant_do_def embed_demo_env_def demo_response_def)
  from ensure_collection_sound[OF e] e show ?thesis
    by (auto simp: qdrant_do_def embed_demo_env_def demo_response_def)
qed

end
