(* ===== verification/Meter.thy ===== *)
theory Meter
  imports Stores
begin

text \<open>
  \<open>internal/meter\<close>: the usage ledger. \<open>Record\<close> puts a row into a bounded channel or drops it, a writer
  goroutine collects rows into batches and hands them to a sink, \<open>Close\<close> drains what is left. The sink is
  the function \<open>sink\<close> on the state \<open>'w\<close> of the store behind it. Also the SQL sink and the price table.
\<close>

section \<open>State\<close>

record usage_row =
  ur_RequestID :: string
  ur_TenantID :: string
  ur_KeyID :: string
  ur_Provider :: string
  ur_Model :: string
  ur_ModelAlias :: string
  ur_PromptTokens :: int
  ur_CompletionTokens :: int
  ur_CostUSD :: float64
  ur_SavedUSD :: float64
  ur_CacheStatus :: string
  ur_Streamed :: bool
  ur_StatusCode :: int
  ur_LatencyMS :: int
  ur_Attempts :: int
  ur_ErrorKind :: string
  ur_CreatedAt :: "instant option"

record meter_stats =
  ms_Enqueued :: int
  ms_Dropped :: int
  ms_Written :: int
  ms_Failed :: int

record meter_options =
  mo_BufferSize :: int
  mo_BatchSize :: int
  mo_FlushInterval :: duration

text \<open>
  \<open>mr_ch\<close> is the content of the channel, \<open>mr_closed\<close> whether it is closed; \<open>mr_buf\<close> is the local buffer of
  the writer and \<open>mr_done\<close> whether the writer has returned. \<open>mr_warnings\<close> are the drop counts logged.
\<close>

record meter =
  mr_ch :: "usage_row list"
  mr_capacity :: nat
  mr_closed :: bool
  mr_buf :: "usage_row list"
  mr_done :: bool
  mr_batch :: nat
  mr_flush :: duration
  mr_closing :: bool
  mr_stats :: meter_stats
  mr_warnings :: "int list"

definition meter_New :: "meter_options \<Rightarrow> meter" where
  "meter_New o' =
     \<lparr>mr_ch = [], mr_capacity = nat (if mo_BufferSize o' \<le> 0 then 4096 else mo_BufferSize o'), mr_closed = False,
      mr_buf = [], mr_done = False, mr_batch = nat (if mo_BatchSize o' \<le> 0 then 128 else mo_BatchSize o'),
      mr_flush = (if mo_FlushInterval o' \<le> 0 then 2 * Second else mo_FlushInterval o'), mr_closing = False,
      mr_stats = \<lparr>ms_Enqueued = 0, ms_Dropped = 0, ms_Written = 0, ms_Failed = 0\<rparr>, mr_warnings = []\<rparr>"

section \<open>Operations\<close>

text \<open>
  \<open>Record\<close> reads \<open>closing\<close> and then selects on the channel; another goroutine may run in between, so the two are
  separate steps. The send is \<open>None\<close> where Go panics: on a closed channel.
\<close>

definition stamp_row :: "instant \<Rightarrow> usage_row \<Rightarrow> usage_row" where
  "stamp_row now r = (if ur_CreatedAt r = None then r\<lparr>ur_CreatedAt := Some now\<rparr> else r)"

definition record_send :: "usage_row \<Rightarrow> meter \<Rightarrow> meter option" where
  "record_send r m =
     (if mr_closed m then None
      else if length (mr_ch m) < mr_capacity m
      then Some (m\<lparr>mr_ch := mr_ch m @ [r], mr_stats := (mr_stats m)\<lparr>ms_Enqueued := ms_Enqueued (mr_stats m) + 1\<rparr>\<rparr>)
      else
        (let n = ms_Dropped (mr_stats m) + 1 in
         Some (m\<lparr>mr_stats := (mr_stats m)\<lparr>ms_Dropped := n\<rparr>,
                 mr_warnings := (if n = 1 \<or> n mod 1000 = 0 then mr_warnings m @ [n] else mr_warnings m)\<rparr>)))"

definition meter_Record :: "instant \<Rightarrow> usage_row \<Rightarrow> meter \<Rightarrow> meter option" where
  "meter_Record now r m = (if mr_closing m then Some m else record_send (stamp_row now r) m)"

type_synonym 'w sink = "usage_row list \<Rightarrow> 'w \<Rightarrow> go_error option \<times> 'w"

definition writeBatch :: "'w sink \<Rightarrow> usage_row list \<Rightarrow> meter \<times> 'w \<Rightarrow> meter \<times> 'w" where
  "writeBatch sink rows = (\<lambda>(m, w).
     (if rows = [] then (m, w)
      else
        (let st = mr_stats m; n = int (length rows) in
         case sink rows w of
           (Some e, w') \<Rightarrow> (m\<lparr>mr_stats := st\<lparr>ms_Failed := ms_Failed st + n\<rparr>\<rparr>, w')
         | (None, w') \<Rightarrow> (m\<lparr>mr_stats := st\<lparr>ms_Written := ms_Written st + n\<rparr>\<rparr>, w'))))"

text \<open>Writing out the buffer, which is empty afterwards, and the three cases of the writer's select.\<close>

definition flush_buf :: "'w sink \<Rightarrow> meter \<times> 'w \<Rightarrow> meter \<times> 'w" where
  "flush_buf sink = (\<lambda>(m, w). (let (m', w') = writeBatch sink (mr_buf m) (m, w) in (m'\<lparr>mr_buf := []\<rparr>, w')))"

definition writer_recv :: "'w sink \<Rightarrow> usage_row \<Rightarrow> meter \<times> 'w \<Rightarrow> meter \<times> 'w" where
  "writer_recv sink r = (\<lambda>(m, w).
     (let m' = m\<lparr>mr_buf := mr_buf m @ [r]\<rparr> in
      if length (mr_buf m') \<ge> mr_batch m' then flush_buf sink (m', w) else (m', w)))"

definition writer_tick :: "'w sink \<Rightarrow> meter \<times> 'w \<Rightarrow> meter \<times> 'w" where
  "writer_tick sink = (\<lambda>(m, w). (if mr_buf m \<noteq> [] then flush_buf sink (m, w) else (m, w)))"

definition writer_end :: "'w sink \<Rightarrow> meter \<times> 'w \<Rightarrow> meter \<times> 'w" where
  "writer_end sink = (\<lambda>(m, w). (let (m', w') = flush_buf sink (m, w) in (m'\<lparr>mr_done := True\<rparr>, w')))"

text \<open>The writer on a closed channel: it receives what is left, then the final drain.\<close>

lemma writer_recv_ch: "mr_ch (fst (writer_recv sink r s)) = mr_ch (fst s)"
  by (cases s) (auto simp: writer_recv_def flush_buf_def writeBatch_def Let_def split: prod.split option.split)

function writer_drain :: "'w sink \<Rightarrow> meter \<times> 'w \<Rightarrow> meter \<times> 'w" where
  "writer_drain sink (m, w) =
     (case mr_ch m of
        [] \<Rightarrow> writer_end sink (m, w)
      | r # rs \<Rightarrow> writer_drain sink (writer_recv sink r (m\<lparr>mr_ch := rs\<rparr>, w)))"
  by pat_completeness auto

termination writer_drain
  by (relation "measure (\<lambda>(sink, m, w). length (mr_ch m))")
    (simp_all add: split_beta writer_recv_ch)

declare writer_drain.simps [simp del]

definition meter_Close :: "'w sink \<Rightarrow> meter \<times> 'w \<Rightarrow> meter \<times> 'w" where
  "meter_Close sink = (\<lambda>(m, w).
     (if mr_closing m then (m, w)
      else writer_drain sink (m\<lparr>mr_closing := True, mr_closed := True\<rparr>, w)))"

section \<open>The meter with its callers\<close>

text \<open>
  The interleavings: callers that have passed the check and not yet sent (\<open>sy_pending\<close>), the writer, the ticker
  and one caller of \<open>Close\<close> between its two steps. The last two fields record the rows the channel accepted and the
  batches the sink was given, in order; \<open>sy_panic\<close> is a send on a closed channel, a panic of the handler that
  \<open>withRecovery\<close> catches: the row is lost and the request answered with 500, the process goes on.
\<close>

record meter_sys =
  sy_meter :: meter
  sy_pending :: "usage_row list"
  sy_panic :: bool
  sy_accepted :: "usage_row list"
  sy_batches :: "usage_row list list"

datatype meter_step =
    Check usage_row
  | Send nat
  | Recv
  | Tick
  | CloseFlag
  | CloseChan
  | End

text \<open>A sink that only records, beside one that answers: \<open>fails\<close> says which batches are lost.\<close>

definition log_sink :: "(usage_row list \<Rightarrow> bool) \<Rightarrow> usage_row list list sink" where
  "log_sink fails rows seen = ((if fails rows then Some (Sentinel ContextDeadlineExceeded) else None), seen @ [rows])"

definition run_writer ::
  "(usage_row list \<Rightarrow> bool) \<Rightarrow> (usage_row list list sink \<Rightarrow> meter \<times> usage_row list list \<Rightarrow> meter \<times> usage_row list list)
    \<Rightarrow> meter_sys \<Rightarrow> meter_sys" where
  "run_writer fails f s =
     (let (m, seen) = f (log_sink fails) (sy_meter s, sy_batches s) in s\<lparr>sy_meter := m, sy_batches := seen\<rparr>)"

definition sys_step :: "(usage_row list \<Rightarrow> bool) \<Rightarrow> meter_step \<Rightarrow> meter_sys \<Rightarrow> meter_sys option" where
  "sys_step fails ev s =
     (let m = sy_meter s in
      case ev of
        Check r \<Rightarrow> if mr_closing m then Some s else Some (s\<lparr>sy_pending := sy_pending s @ [r]\<rparr>)
      | Send i \<Rightarrow>
          if i < length (sy_pending s) then
            (let r = sy_pending s ! i; s' = s\<lparr>sy_pending := remove_at i (sy_pending s)\<rparr> in
             case record_send r m of
               None \<Rightarrow> Some (s'\<lparr>sy_panic := True\<rparr>)
             | Some m' \<Rightarrow> Some (s'\<lparr>sy_meter := m',
                 sy_accepted := (if mr_ch m' = mr_ch m then sy_accepted s else sy_accepted s @ [r])\<rparr>))
          else None
      | Recv \<Rightarrow>
          (case mr_ch m of
             r # rs \<Rightarrow> if mr_done m then None
               else Some (run_writer fails (\<lambda>k. writer_recv k r) (s\<lparr>sy_meter := m\<lparr>mr_ch := rs\<rparr>\<rparr>))
           | [] \<Rightarrow> None)
      | Tick \<Rightarrow> if mr_done m then None else Some (run_writer fails writer_tick s)
      | CloseFlag \<Rightarrow> if mr_closing m then None else Some (s\<lparr>sy_meter := m\<lparr>mr_closing := True\<rparr>\<rparr>)
      | CloseChan \<Rightarrow> if mr_closing m \<and> \<not> mr_closed m then Some (s\<lparr>sy_meter := m\<lparr>mr_closed := True\<rparr>\<rparr>) else None
      | End \<Rightarrow> if mr_closed m \<and> mr_ch m = [] \<and> \<not> mr_done m then Some (run_writer fails writer_end s) else None)"

definition sys_init :: "meter_options \<Rightarrow> meter_sys" where
  "sys_init o' = \<lparr>sy_meter = meter_New o', sy_pending = [], sy_panic = False, sy_accepted = [], sy_batches = []\<rparr>"

inductive meter_reachable :: "meter_options \<Rightarrow> (usage_row list \<Rightarrow> bool) \<Rightarrow> meter_sys \<Rightarrow> bool" for o' fails where
  init: "meter_reachable o' fails (sys_init o')"
| step: "meter_reachable o' fails s \<Longrightarrow> sys_step fails ev s = Some s' \<Longrightarrow> meter_reachable o' fails s'"

inductive_cases meter_reachableE: "meter_reachable o' fails s"

section \<open>Conservation\<close>

definition batch_rows :: "usage_row list list \<Rightarrow> int" where
  "batch_rows seen = int (length (concat seen))"

text \<open>
  What holds of a meter whose channel accepted \<open>acc\<close> and whose sink saw \<open>seen\<close>: every accepted row is in a batch, in
  the buffer or in the channel, in order; the counters count the rows; batches and channel keep their bounds.
\<close>

definition meter_ok :: "(usage_row list \<Rightarrow> bool) \<Rightarrow> usage_row list \<Rightarrow> meter \<Rightarrow> usage_row list list \<Rightarrow> bool" where
  "meter_ok fails acc m seen \<longleftrightarrow>
     0 < mr_batch m \<and> length (mr_ch m) \<le> mr_capacity m \<and> length (mr_buf m) < mr_batch m \<and>
     acc = concat seen @ mr_buf m @ mr_ch m \<and>
     ms_Enqueued (mr_stats m) = int (length acc) \<and>
     ms_Written (mr_stats m) = batch_rows (filter (\<lambda>b. \<not> fails b) seen) \<and>
     ms_Failed (mr_stats m) = batch_rows (filter fails seen) \<and>
     list_all (\<lambda>b. b \<noteq> [] \<and> length b \<le> mr_batch m) seen \<and>
     (mr_done m \<longrightarrow> mr_closed m \<and> mr_ch m = [] \<and> mr_buf m = []) \<and> (mr_closed m \<longrightarrow> mr_closing m)"

lemma batch_rows_simps [simp]:
  "batch_rows [] = 0" "batch_rows (xs @ ys) = batch_rows xs + batch_rows ys" "batch_rows [b] = int (length b)"
  by (simp_all add: batch_rows_def)

lemma batch_rows_split: "batch_rows (filter (\<lambda>b. \<not> fails b) seen) + batch_rows (filter fails seen) = batch_rows seen"
  by (induction seen) (auto simp: batch_rows_def)

text \<open>One lemma per step of the writer; the channel may lack rows the writer has just taken.\<close>

lemma writer_recv_ok:
  assumes "meter_ok fails acc m seen" "mr_ch m = r # rs" "\<not> mr_done m"
    and "writer_recv (log_sink fails) r (m\<lparr>mr_ch := rs\<rparr>, seen) = (m', seen')"
  shows "meter_ok fails acc m' seen' \<and> mr_ch m' = rs \<and> \<not> mr_done m' \<and> mr_closed m' = mr_closed m"
  using assms
  by (auto simp: writer_recv_def flush_buf_def writeBatch_def log_sink_def meter_ok_def Let_def split: if_splits)

lemma writer_tick_ok:
  assumes "meter_ok fails acc m seen" "\<not> mr_done m" "writer_tick (log_sink fails) (m, seen) = (m', seen')"
  shows "meter_ok fails acc m' seen'"
  using assms
  by (auto simp: writer_tick_def flush_buf_def writeBatch_def log_sink_def meter_ok_def Let_def split: if_splits)

lemma writer_end_ok:
  assumes "meter_ok fails acc m seen" "mr_ch m = []" "mr_closed m" "writer_end (log_sink fails) (m, seen) = (m', seen')"
  shows "meter_ok fails acc m' seen' \<and> mr_done m'"
  using assms
  by (auto simp: writer_end_def flush_buf_def writeBatch_def log_sink_def meter_ok_def Let_def split: if_splits)

lemma record_send_ok:
  assumes "meter_ok fails acc m seen" "record_send r m = Some m'"
  shows "meter_ok fails (if mr_ch m' = mr_ch m then acc else acc @ [r]) m' seen"
  using assms by (auto simp: record_send_def meter_ok_def Let_def split: if_splits)

lemma sys_step_ok:
  assumes "meter_ok fails (sy_accepted s) (sy_meter s) (sy_batches s)" "sys_step fails ev s = Some s'"
  shows "meter_ok fails (sy_accepted s') (sy_meter s') (sy_batches s')"
proof (cases ev)
  case (Send i)
  show ?thesis
  proof (cases "record_send (sy_pending s ! i) (sy_meter s)")
    case (Some m')
    then show ?thesis
      using assms Send record_send_ok[OF assms(1) Some] by (auto simp: sys_step_def Let_def split: if_splits)
  qed (use assms Send in \<open>auto simp: sys_step_def Let_def split: if_splits\<close>)
next
  case Recv
  then obtain r rs where c: "mr_ch (sy_meter s) = r # rs" "\<not> mr_done (sy_meter s)"
    using assms(2) by (auto simp: sys_step_def Let_def split: if_splits list.splits)
  obtain m' seen' where w: "writer_recv (log_sink fails) r ((sy_meter s)\<lparr>mr_ch := rs\<rparr>, sy_batches s) = (m', seen')"
    by (metis surj_pair)
  then show ?thesis
    using assms(2) c Recv writer_recv_ok[OF assms(1) c(1,2) w] by (auto simp: sys_step_def run_writer_def)
next
  case Tick
  obtain m' seen' where w: "writer_tick (log_sink fails) (sy_meter s, sy_batches s) = (m', seen')" by (metis surj_pair)
  then show ?thesis
    using assms(2) Tick writer_tick_ok[OF assms(1) _ w] by (auto simp: sys_step_def run_writer_def Let_def split: if_splits)
next
  case End
  obtain m' seen' where w: "writer_end (log_sink fails) (sy_meter s, sy_batches s) = (m', seen')" by (metis surj_pair)
  then show ?thesis
    using assms(2) End writer_end_ok[OF assms(1) _ _ w] by (auto simp: sys_step_def run_writer_def Let_def split: if_splits)
qed (use assms in \<open>auto simp: sys_step_def meter_ok_def Let_def split: if_splits\<close>)

lemma meter_reachable_ok:
  "meter_reachable o' fails s \<Longrightarrow> meter_ok fails (sy_accepted s) (sy_meter s) (sy_batches s)"
proof (induction rule: meter_reachable.induct)
  case init
  then show ?case by (simp add: sys_init_def meter_New_def meter_ok_def)
qed (rule sys_step_ok)

lemma writer_drain_ok:
  assumes "meter_ok fails acc m seen" "mr_closed m" "\<not> mr_done m"
    and "writer_drain (log_sink fails) (m, seen) = (m', seen')"
  shows "meter_ok fails acc m' seen' \<and> mr_done m'"
  using assms
proof (induction "length (mr_ch m)" arbitrary: m seen)
  case 0
  then show ?case using writer_end_ok[of fails acc m seen m' seen'] by (simp add: writer_drain.simps)
next
  case (Suc n)
  then obtain r rs where c: "mr_ch m = r # rs" by (cases "mr_ch m") auto
  obtain m1 seen1 where w: "writer_recv (log_sink fails) r (m\<lparr>mr_ch := rs\<rparr>, seen) = (m1, seen1)" by (metis surj_pair)
  note ok = writer_recv_ok[OF Suc.prems(1) c Suc.prems(3) w]
  have "writer_drain (log_sink fails) (m1, seen1) = (m', seen')"
    using Suc.prems(4) c w by (simp add: writer_drain.simps[of _ m])
  then show ?case using Suc.hyps ok Suc.prems(2) c by auto
qed


definition demo_row :: "string \<Rightarrow> usage_row" where
  "demo_row rid = \<lparr>ur_RequestID = rid, ur_TenantID = ''acme'', ur_KeyID = ''k1'', ur_Provider = ''dev'', ur_Model = ''m1'',
     ur_ModelAlias = ''fast'', ur_PromptTokens = 1, ur_CompletionTokens = 1, ur_CostUSD = 1, ur_SavedUSD = 0,
     ur_CacheStatus = ''miss'', ur_Streamed = False, ur_StatusCode = 200, ur_LatencyMS = 1, ur_Attempts = 1,
     ur_ErrorKind = '''', ur_CreatedAt = Some 1\<rparr>"

definition demo_options :: meter_options where
  "demo_options = \<lparr>mo_BufferSize = 1, mo_BatchSize = 2, mo_FlushInterval = 0\<rparr>"

text \<open>The state after some steps, \<open>None\<close> when one of them cannot be taken.\<close>

fun sys_steps :: "(usage_row list \<Rightarrow> bool) \<Rightarrow> meter_step list \<Rightarrow> meter_sys \<Rightarrow> meter_sys option" where
  "sys_steps fails [] s = Some s"
| "sys_steps fails (ev # evs) s = (case sys_step fails ev s of None \<Rightarrow> None | Some s' \<Rightarrow> sys_steps fails evs s')"

lemma sys_steps_reachable:
  "meter_reachable o' fails s \<Longrightarrow> sys_steps fails evs s = Some s' \<Longrightarrow> meter_reachable o' fails s'"
  by (induction evs arbitrary: s) (auto split: option.splits intro: meter_reachable.step)

lemmas sys_run_defs = sys_init_def meter_New_def sys_step_def record_send_def remove_at_def run_writer_def writer_recv_def
  writer_tick_def writer_end_def flush_buf_def writeBatch_def log_sink_def demo_options_def demo_row_def Let_def


text \<open>
  C27. \<open>Close\<close> finishes and flushes: on a meter nobody is closing, with no caller between its check and its send, the
  writer returns after the rows left in the channel, and then every accepted row has been handed to the sink,
  in order, and is counted as written or failed.
\<close>

theorem close_flushes_everything:
  assumes "meter_reachable o' fails s" "\<not> mr_closing (sy_meter s)"
  shows "mr_done (fst (meter_Close (log_sink fails) (sy_meter s, sy_batches s))) \<and>
    concat (snd (meter_Close (log_sink fails) (sy_meter s, sy_batches s))) = sy_accepted s \<and>
    ms_Enqueued (mr_stats (fst (meter_Close (log_sink fails) (sy_meter s, sy_batches s)))) =
      ms_Written (mr_stats (fst (meter_Close (log_sink fails) (sy_meter s, sy_batches s))))
      + ms_Failed (mr_stats (fst (meter_Close (log_sink fails) (sy_meter s, sy_batches s))))"
proof -
  let ?m = "(sy_meter s)\<lparr>mr_closing := True, mr_closed := True\<rparr>"
  obtain m' seen' where d: "writer_drain (log_sink fails) (?m, sy_batches s) = (m', seen')" by (metis surj_pair)
  have "meter_ok fails (sy_accepted s) (sy_meter s) (sy_batches s)" by (rule meter_reachable_ok[OF assms(1)])
  then have "meter_ok fails (sy_accepted s) ?m (sy_batches s)" "\<not> mr_done ?m"
    using assms(2) by (auto simp: meter_ok_def)
  then have ok: "meter_ok fails (sy_accepted s) m' seen' \<and> mr_done m'"
    using writer_drain_ok[of fails "sy_accepted s" ?m "sy_batches s" m' seen'] d by simp
  have "meter_Close (log_sink fails) (sy_meter s, sy_batches s) = (m', seen')"
    using assms(2) d by (simp add: meter_Close_def)
  then show ?thesis
    using ok batch_rows_split[of fails seen'] by (auto simp: meter_ok_def batch_rows_def)
qed

theorem close_flushes_everything_witness:
  "mr_done (fst (meter_Close (log_sink (\<lambda>b. False)) (sy_meter (sys_init demo_options), sy_batches (sys_init demo_options))))"
  using close_flushes_everything[OF meter_reachable.init, of demo_options "\<lambda>b. False"]
  by (simp add: sys_init_def meter_New_def)

text \<open>
  \<open>Record\<close> and \<open>Close\<close> race: \<open>closing\<close> is read before the send, so a caller that was past the check when
  \<open>Close\<close> closed the channel sends on a closed channel: the handler panics and its row is lost.
\<close>

theorem record_close_race:
  "\<exists>s. meter_reachable o' fails s \<and> sy_panic s"
proof -
  obtain s where s: "sys_steps fails [Check (demo_row ''a''), CloseFlag, CloseChan, Send 0] (sys_init o') = Some s" "sy_panic s"
    by (simp add: sys_run_defs)
  then show ?thesis using sys_steps_reachable[OF meter_reachable.init s(1)] by blast
qed

section \<open>The SQL sink\<close>

datatype sql_value =
    SqlNull
  | SqlText string
  | SqlInt int
  | SqlFloat float64
  | SqlBool bool
  | SqlTime "instant option"

definition nullable :: "string \<Rightarrow> sql_value" where
  "nullable s = (if s = '''' then SqlNull else SqlText s)"

definition usage_cols :: nat where
  "usage_cols = 17"

definition row_args :: "usage_row \<Rightarrow> sql_value list" where
  "row_args r =
     [SqlText (ur_RequestID r), SqlText (ur_TenantID r), nullable (ur_KeyID r), nullable (ur_Provider r),
      SqlText (ur_Model r), SqlText (ur_ModelAlias r), SqlInt (ur_PromptTokens r), SqlInt (ur_CompletionTokens r),
      SqlFloat (ur_CostUSD r), SqlFloat (ur_SavedUSD r), SqlText (ur_CacheStatus r), SqlBool (ur_Streamed r),
      SqlInt (ur_StatusCode r), SqlInt (ur_LatencyMS r), SqlInt (ur_Attempts r), nullable (ur_ErrorKind r),
      SqlTime (ur_CreatedAt r)]"

text \<open>The inner and the outer loop over the placeholders: commas between, parentheses around a row.\<close>

definition placeholder_row :: "nat \<Rightarrow> string" where
  "placeholder_row i =
     ''('' @ Join '','' (map (\<lambda>c. ''$'' @ Itoa (int (i * usage_cols + c + 1))) [0..<usage_cols]) @ '')''"

definition placeholders :: "nat \<Rightarrow> string" where
  "placeholders n = Join '','' (map placeholder_row [0..<n])"

definition insert_sql :: "usage_row list \<Rightarrow> string" where
  "insert_sql rows = ''INSERT INTO usage_log (request_id, tenant_id, key_id, provider, model, model_alias, prompt_tokens, completion_tokens, cost_usd, saved_usd, cache_status, streamed, status_code, latency_ms, attempts, error_kind, created_at) VALUES ''
     @ placeholders (length rows) @ '' ON CONFLICT (request_id) DO NOTHING''"

definition insert_args :: "usage_row list \<Rightarrow> sql_value list" where
  "insert_args rows = concat (map row_args rows)"

definition pg_WriteBatch :: "(string \<Rightarrow> sql_value list \<Rightarrow> 'w \<Rightarrow> go_error option \<times> 'w) \<Rightarrow> 'w sink" where
  "pg_WriteBatch exec rows w =
     (if rows = [] then (None, w)
      else case exec (insert_sql rows) (insert_args rows) w of
        (Some e, w') \<Rightarrow> (Some (wrapf ''usage_log insert'' e), w')
      | (None, w') \<Rightarrow> (None, w'))"

text \<open>
  The numbers of the placeholders, read off in the order of the text, are 1 to the number of arguments, and the
  argument of row \<open>i\<close>, column \<open>c\<close> is the column of that row.
\<close>

lemma length_row_args [simp]: "length (row_args r) = usage_cols"
  by (simp add: row_args_def usage_cols_def)

lemma length_insert_args: "length (insert_args rows) = length rows * usage_cols"
  by (induction rows) (simp_all add: insert_args_def)

lemma insert_args_nth:
  "i < length rows \<Longrightarrow> c < usage_cols \<Longrightarrow> insert_args rows ! (i * usage_cols + c) = row_args (rows ! i) ! c"
proof (induction rows arbitrary: i)
  case (Cons r rows)
  then show ?case
    by (cases i) (auto simp: insert_args_def nth_append algebra_simps)
qed simp

text \<open>
  The table behind the sink, as its statement uses it. A failing server changes nothing. A statement is all or nothing: one
  value the table cannot hold, a text with a NUL byte or a number the checks of the schema refuse, fails it. Otherwise each row whose
  request id is not in the table is appended, the others are skipped.
\<close>

record usage_server =
  us_up :: bool
  us_log :: "sql_value list list"

function rows_of_args :: "sql_value list \<Rightarrow> sql_value list list" where
  "rows_of_args xs = (if xs = [] then [] else take usage_cols xs # rows_of_args (drop usage_cols xs))"
  by pat_completeness auto

termination rows_of_args
  by (relation "measure length") (auto simp: usage_cols_def)

declare rows_of_args.simps [simp del]

definition insert_new :: "sql_value list list \<Rightarrow> sql_value list \<Rightarrow> sql_value list list" where
  "insert_new tbl r = (if hd r \<in> hd ` set tbl then tbl else tbl @ [r])"

definition sql_storable :: "sql_value \<Rightarrow> bool" where
  "sql_storable v = (case v of SqlText s \<Rightarrow> CHR 0x00 \<notin> set s | _ \<Rightarrow> True)"

definition sql_nonneg :: "sql_value \<Rightarrow> bool" where
  "sql_nonneg v = (case v of SqlInt n \<Rightarrow> 0 \<le> n | SqlFloat x \<Rightarrow> 0 \<le> x | _ \<Rightarrow> True)"

text \<open>Columns 6 to 9 are the tokens and the amounts.\<close>

definition usage_check :: "sql_value list \<Rightarrow> bool" where
  "usage_check r \<longleftrightarrow> list_all sql_storable r \<and> list_all sql_nonneg (take 4 (drop 6 r))"

definition usage_exec :: "string \<Rightarrow> sql_value list \<Rightarrow> usage_server \<Rightarrow> go_error option \<times> usage_server" where
  "usage_exec sql args s =
     (if \<not> us_up s then (Some (Sentinel ContextDeadlineExceeded), s)
      else if \<not> list_all usage_check (rows_of_args args) then (Some (errorf ''invalid value''), s)
      else (None, s\<lparr>us_log := foldl insert_new (us_log s) (rows_of_args args)\<rparr>))"

lemma rows_of_insert_args [simp]: "rows_of_args (insert_args rows) = map row_args rows"
proof (induction rows)
  case Nil
  then show ?case by (simp add: insert_args_def rows_of_args.simps[of "[]"])
next
  case (Cons r rows)
  have "row_args r \<noteq> []" by (simp add: row_args_def)
  then show ?case using Cons by (simp add: insert_args_def rows_of_args.simps[of "row_args r @ _"])
qed

section \<open>What a sink promises\<close>

text \<open>
  A batch is persisted as a whole or not at all: \<open>ids\<close> are the request ids the store holds.
\<close>

definition row_ids :: "usage_row list \<Rightarrow> string set" where
  "row_ids rows = ur_RequestID ` set rows"

lemma row_ids_simps [simp]:
  "row_ids [] = {}" "row_ids (r # rs) = insert (ur_RequestID r) (row_ids rs)" "row_ids (xs @ ys) = row_ids xs \<union> row_ids ys"
  by (auto simp: row_ids_def)

locale ledger_sink =
  fixes sink :: "'w sink"
    and ids :: "'w \<Rightarrow> string set"
  assumes written: "sink rows w = (None, w') \<Longrightarrow> ids w' = ids w \<union> row_ids rows"
    and lost: "sink rows w = (Some e, w') \<Longrightarrow> ids w' = ids w"
begin

text \<open>After a step of the writer: nothing failed and all that left the buffer is stored, or a failure is counted.\<close>

definition kept :: "meter \<times> 'w \<Rightarrow> meter \<times> 'w \<Rightarrow> bool" where
  "kept s s' \<longleftrightarrow> ms_Failed (mr_stats (fst s)) \<le> ms_Failed (mr_stats (fst s')) \<and>
     (ms_Failed (mr_stats (fst s')) = ms_Failed (mr_stats (fst s)) \<longrightarrow>
        ids (snd s') \<union> row_ids (mr_buf (fst s') @ mr_ch (fst s')) = ids (snd s) \<union> row_ids (mr_buf (fst s) @ mr_ch (fst s)))"

lemma kept_trans: "kept s s' \<Longrightarrow> kept s' s'' \<Longrightarrow> kept s s''"
  by (auto simp: kept_def)

lemma writer_recv_kept:
  assumes "mr_ch m = r # rs"
  shows "kept (m, w) (writer_recv sink r (m\<lparr>mr_ch := rs\<rparr>, w))"
proof (cases "sink (mr_buf m @ [r]) w")
  case (Pair res w')
  then show ?thesis using assms written[of "mr_buf m @ [r]" w w']
    by (cases res) (auto simp: kept_def writer_recv_def flush_buf_def writeBatch_def Let_def)
qed

lemma writer_end_kept: "mr_ch m = [] \<Longrightarrow> kept (m, w) (writer_end sink (m, w))"
  using written[of "mr_buf m" w]
  by (cases "sink (mr_buf m) w"; cases "fst (sink (mr_buf m) w)")
    (auto simp: kept_def writer_end_def flush_buf_def writeBatch_def Let_def)

lemma writer_end_empty: "mr_buf (fst (writer_end sink (m, w))) = [] \<and> mr_ch (fst (writer_end sink (m, w))) = mr_ch m"
  by (auto simp: writer_end_def flush_buf_def writeBatch_def Let_def split: prod.split option.split)

lemma writer_drain_kept:
  "kept (m, w) (writer_drain sink (m, w)) \<and> mr_buf (fst (writer_drain sink (m, w))) = []
   \<and> mr_ch (fst (writer_drain sink (m, w))) = []"
proof (induction "length (mr_ch m)" arbitrary: m w)
  case 0
  then show ?case using writer_end_kept[of m w] writer_end_empty[of m w] by (simp add: writer_drain.simps)
next
  case (Suc n)
  then obtain r rs where c: "mr_ch m = r # rs" by (cases "mr_ch m") auto
  obtain m1 w1 where s: "writer_recv sink r (m\<lparr>mr_ch := rs\<rparr>, w) = (m1, w1)" by (metis surj_pair)
  have "n = length (mr_ch m1)" using Suc.hyps(2) c writer_recv_ch[of sink r "(m\<lparr>mr_ch := rs\<rparr>, w)"] s by simp
  from Suc.hyps(1)[OF this, of w1] writer_recv_kept[OF c, of w] show ?case
    using kept_trans[of "(m, w)" "(m1, w1)"] by (simp add: writer_drain.simps[of _ m] c s)
qed

lemma drained_stored:
  assumes "writer_drain sink (m, w) = (m', w')" "ms_Failed (mr_stats m') = ms_Failed (mr_stats m)"
  shows "ids w' = ids w \<union> row_ids (mr_buf m @ mr_ch m)"
  using writer_drain_kept[of m w] assms by (auto simp: kept_def)

end

definition logged_ids :: "usage_server \<Rightarrow> string set" where
  "logged_ids s = {i. SqlText i \<in> hd ` set (us_log s)}"

lemma insert_new_ids: "hd ` set (foldl insert_new tbl rs) = hd ` set tbl \<union> hd ` set rs"
  by (induction rs arbitrary: tbl) (auto simp: insert_new_def)

lemma hd_row_args [simp]: "hd (row_args r) = SqlText (ur_RequestID r)"
  by (simp add: row_args_def)

lemma logged_ids_insert:
  "logged_ids (s\<lparr>us_log := foldl insert_new tbl (map row_args rows)\<rparr>) = {i. SqlText i \<in> hd ` set tbl} \<union> row_ids rows"
proof -
  have "hd ` set (map row_args rows) = SqlText ` row_ids rows" by (simp add: image_image row_ids_def)
  then show ?thesis by (auto simp add: logged_ids_def insert_new_ids simp del: set_map)
qed

interpretation usage_log: ledger_sink "pg_WriteBatch usage_exec" logged_ids
proof unfold_locales
  fix rows w w'
  assume "pg_WriteBatch usage_exec rows w = (None, w')"
  then show "logged_ids w' = logged_ids w \<union> row_ids rows"
    by (auto simp: pg_WriteBatch_def usage_exec_def logged_ids_insert split: if_splits) (auto simp: logged_ids_def)
next
  fix rows w w' e
  assume "pg_WriteBatch usage_exec rows w = (Some e, w')"
  then show "logged_ids w' = logged_ids w" by (auto simp: pg_WriteBatch_def usage_exec_def split: if_splits)
qed

text \<open>
  A clean shutdown persists the ledger: when \<open>Close\<close> runs over the SQL sink and no batch fails, the request id of
  every row that was in the channel or in the writer's buffer is in the usage log, and nothing that was
  there is gone.
\<close>

theorem close_persists:
  assumes "\<not> mr_closing m" "meter_Close (pg_WriteBatch usage_exec) (m, srv) = (m', srv')"
    and "ms_Failed (mr_stats m') = ms_Failed (mr_stats m)"
  shows "logged_ids srv' = logged_ids srv \<union> row_ids (mr_buf m @ mr_ch m)"
  using usage_log.drained_stored[of "m\<lparr>mr_closing := True, mr_closed := True\<rparr>" srv m' srv'] assms
  by (simp add: meter_Close_def)

text \<open>A server that is up loses no batch of rows it can hold.\<close>

definition storable_rows :: "usage_row list \<Rightarrow> bool" where
  "storable_rows rows \<longleftrightarrow> list_all (usage_check \<circ> row_args) rows"

lemma storable_rows_simps [simp]:
  "storable_rows []" "storable_rows (r # rs) \<longleftrightarrow> usage_check (row_args r) \<and> storable_rows rs"
  "storable_rows (xs @ ys) \<longleftrightarrow> storable_rows xs \<and> storable_rows ys"
  by (simp_all add: storable_rows_def)

lemma exec_storable: "storable_rows rows \<Longrightarrow> list_all usage_check (map row_args rows)"
  by (simp add: storable_rows_def list.pred_map)

definition up_kept :: "meter \<times> usage_server \<Rightarrow> meter \<times> usage_server \<Rightarrow> bool" where
  "up_kept s s' \<longleftrightarrow> us_up (snd s') \<and> ms_Failed (mr_stats (fst s')) = ms_Failed (mr_stats (fst s)) \<and>
     storable_rows (mr_buf (fst s') @ mr_ch (fst s'))"

lemma writer_up:
  assumes "us_up w"
  shows "storable_rows (mr_buf m @ r # rs) \<Longrightarrow> up_kept (m, w) (writer_recv (pg_WriteBatch usage_exec) r (m\<lparr>mr_ch := rs\<rparr>, w))"
    and "storable_rows (mr_buf m) \<Longrightarrow> mr_ch m = [] \<Longrightarrow> up_kept (m, w) (writer_end (pg_WriteBatch usage_exec) (m, w))"
  using assms exec_storable[of "mr_buf m @ [r]"] exec_storable[of "mr_buf m"]
  by (auto simp: up_kept_def writer_recv_def writer_end_def flush_buf_def writeBatch_def pg_WriteBatch_def usage_exec_def Let_def)

lemma drain_up:
  "us_up w \<Longrightarrow> storable_rows (mr_buf m @ mr_ch m) \<Longrightarrow> up_kept (m, w) (writer_drain (pg_WriteBatch usage_exec) (m, w))"
proof (induction "length (mr_ch m)" arbitrary: m w)
  case 0
  then show ?case using writer_up(2) by (simp add: writer_drain.simps)
next
  case (Suc n)
  then obtain r rs where c: "mr_ch m = r # rs" by (cases "mr_ch m") auto
  obtain m1 w1 where s: "writer_recv (pg_WriteBatch usage_exec) r (m\<lparr>mr_ch := rs\<rparr>, w) = (m1, w1)" by (metis surj_pair)
  have "n = length (mr_ch m1)"
    using Suc.hyps(2) c writer_recv_ch[of "pg_WriteBatch usage_exec" r "(m\<lparr>mr_ch := rs\<rparr>, w)"] s by simp
  moreover have "up_kept (m, w) (m1, w1)" using writer_up(1)[OF Suc.prems(1), of m r rs] Suc.prems(2) c s by simp
  ultimately show ?case
    using Suc.hyps(1)[of m1 w1] by (simp add: writer_drain.simps[of _ m] c s up_kept_def)
qed

definition demo_meter :: meter where
  "demo_meter = (meter_New demo_options)\<lparr>mr_ch := [demo_row ''b''], mr_buf := [demo_row ''a'']\<rparr>"

definition demo_log :: usage_server where
  "demo_log = \<lparr>us_up = True, us_log = []\<rparr>"

lemma demo_storable: "CHR 0x00 \<notin> set i \<Longrightarrow> usage_check (row_args (demo_row i))"
  by (simp add: usage_check_def row_args_def demo_row_def nullable_def sql_storable_def sql_nonneg_def)

theorem close_persists_witness:
  "logged_ids (snd (meter_Close (pg_WriteBatch usage_exec) (demo_meter, demo_log)))
   = logged_ids demo_log \<union> row_ids [demo_row ''a'', demo_row ''b'']"
proof -
  obtain m' srv' where r: "meter_Close (pg_WriteBatch usage_exec) (demo_meter, demo_log) = (m', srv')" by (metis surj_pair)
  have o': "\<not> mr_closing demo_meter" "us_up demo_log" by (simp_all add: demo_meter_def meter_New_def demo_log_def)
  then have "ms_Failed (mr_stats m') = ms_Failed (mr_stats demo_meter)"
    using drain_up[of demo_log "demo_meter\<lparr>mr_closing := True, mr_closed := True\<rparr>"] r demo_storable
    by (simp add: meter_Close_def up_kept_def demo_meter_def)
  from close_persists[OF o'(1) r this] show ?thesis by (simp add: r) (auto simp: demo_meter_def)
qed

text \<open>
  A repeated request id is billed once: the id comes from the client's header, and rows whose id is already in the
  usage log leave the table as it is while the sink reports success, so the meter counts them as written.
\<close>

theorem duplicate_id_unbilled:
  assumes "us_up srv" "storable_rows rows" "row_ids rows \<subseteq> logged_ids srv" "rows \<noteq> []" "mr_stats m = st"
  shows "writeBatch (pg_WriteBatch usage_exec) rows (m, srv)
    = (m\<lparr>mr_stats := st\<lparr>ms_Written := ms_Written st + int (length rows)\<rparr>\<rparr>, srv)"
proof -
  have "foldl insert_new (us_log srv) (map row_args rows) = us_log srv"
    using assms(3)
  proof (induction rows)
    case (Cons r rows)
    then have "SqlText (ur_RequestID r) \<in> hd ` set (us_log srv)" by (simp add: logged_ids_def)
    then show ?case using Cons by (simp add: insert_new_def)
  qed simp
  then show ?thesis using assms exec_storable[OF assms(2)] by (simp add: writeBatch_def pg_WriteBatch_def usage_exec_def Let_def)
qed

theorem duplicate_id_unbilled_witness:
  "writeBatch (pg_WriteBatch usage_exec) [demo_row ''a''] (meter_New demo_options, \<lparr>us_up = True, us_log = [row_args (demo_row ''a'')]\<rparr>)
    = ((meter_New demo_options)\<lparr>mr_stats := (mr_stats (meter_New demo_options))\<lparr>ms_Written := 0 + int (length [demo_row ''a''])\<rparr>\<rparr>,
       \<lparr>us_up = True, us_log = [row_args (demo_row ''a'')]\<rparr>)"
  using duplicate_id_unbilled[of "\<lparr>us_up = True, us_log = [row_args (demo_row ''a'')]\<rparr>" "[demo_row ''a'']"
      "meter_New demo_options" "mr_stats (meter_New demo_options)"] demo_storable[of "''a''"]
  by (simp add: logged_ids_def meter_New_def)

text \<open>
  One row can void a whole batch. The statement is all or nothing, and the alias of a row is the model name the client sent,
  which JSON allows to hold a NUL byte that Postgres does not: a batch with one such row, or with any other row the table refuses,
  is not stored at all, the rows of the other tenants in it included, and is not tried again.
\<close>

theorem poison_row_loses_batch:
  assumes "us_up srv" "r \<in> set rows" "CHR 0x00 \<in> set (ur_ModelAlias r) \<or> ur_PromptTokens r < 0"
  shows "writeBatch (pg_WriteBatch usage_exec) rows (m, srv)
    = (m\<lparr>mr_stats := (mr_stats m)\<lparr>ms_Failed := ms_Failed (mr_stats m) + int (length rows)\<rparr>\<rparr>, srv)"
proof -
  have "\<not> usage_check (row_args r)"
    using assms(3) by (auto simp: usage_check_def row_args_def sql_storable_def sql_nonneg_def)
  then have "\<not> list_all usage_check (map row_args rows)" "rows \<noteq> []" using assms(2) by (auto simp: list_all_iff)
  then show ?thesis using assms(1) by (simp add: writeBatch_def pg_WriteBatch_def usage_exec_def Let_def)
qed

theorem poison_row_loses_batch_witness:
  "writeBatch (pg_WriteBatch usage_exec) [demo_row ''a'', (demo_row ''b'')\<lparr>ur_ModelAlias := [CHR 0x00]\<rparr>] (meter_New demo_options, demo_log)
    = ((meter_New demo_options)\<lparr>mr_stats := (mr_stats (meter_New demo_options))\<lparr>ms_Failed := 0 + int 2\<rparr>\<rparr>, demo_log)"
  using poison_row_loses_batch[of demo_log "(demo_row ''b'')\<lparr>ur_ModelAlias := [CHR 0x00]\<rparr>"
      "[demo_row ''a'', (demo_row ''b'')\<lparr>ur_ModelAlias := [CHR 0x00]\<rparr>]" "meter_New demo_options"]
  by (simp add: demo_log_def meter_New_def)

section \<open>Pricing\<close>

text \<open>The list is the order in which \<open>range\<close> visits the configured map; a later key wins over an earlier one of the same folding.\<close>

definition NewPricing :: "(string \<times> price) list \<Rightarrow> (string \<rightharpoonup> price)" where
  "NewPricing prices = foldl (\<lambda>p (k, v). p(ToLower k \<mapsto> v)) Map.empty prices"

definition price_lookup :: "(string \<rightharpoonup> price) \<Rightarrow> string \<Rightarrow> string \<Rightarrow> price option" where
  "price_lookup p providerName model =
     (case p (ToLower (providerName @ ''/'' @ model)) of
        Some v \<Rightarrow> Some v
      | None \<Rightarrow> p (ToLower model))"

definition Cost :: "(string \<rightharpoonup> price) \<Rightarrow> string \<Rightarrow> string \<Rightarrow> int \<Rightarrow> int \<Rightarrow> float64 \<times> bool" where
  "Cost p providerName model promptTokens completionTokens =
     (case price_lookup p providerName model of
        None \<Rightarrow> (0, False)
      | Some price \<Rightarrow>
          (of_int promptTokens / 1000000 * pr_InputPerMillion price +
           of_int completionTokens / 1000000 * pr_OutputPerMillion price, True))"

definition pricing_Has :: "(string \<rightharpoonup> price) \<Rightarrow> string \<Rightarrow> string \<Rightarrow> bool" where
  "pricing_Has p providerName model \<longleftrightarrow> price_lookup p providerName model \<noteq> None"

lemma NewPricing_snoc: "NewPricing (ps @ [(k, v)]) = (NewPricing ps)(ToLower k \<mapsto> v)"
  by (simp add: NewPricing_def)

lemma NewPricing_lookup:
  "distinct (map (ToLower \<circ> fst) ps) \<Longrightarrow> (k, v) \<in> set ps \<Longrightarrow> NewPricing ps (ToLower k) = Some v"
  by (induction ps rule: rev_induct) (auto simp: NewPricing_snoc rev_image_eqI)

lemma NewPricing_None: "\<forall>(k', v) \<in> set ps. ToLower k' \<noteq> ToLower k \<Longrightarrow> NewPricing ps (ToLower k) = None"
  by (induction ps rule: rev_induct) (auto simp: NewPricing_snoc, simp add: NewPricing_def)

lemma ToLower_append: "ToLower (a @ b) = ToLower a @ ToLower b"
  by (simp add: ToLower_def)

lemma Cost_casefold:
  assumes "ToLower a = ToLower a'" "ToLower b = ToLower b'"
  shows "Cost p a b i j = Cost p a' b' i j"
  unfolding Cost_def price_lookup_def ToLower_append assms ..

text \<open>
  What a call is billed: the provider's own price for the model when one is configured, whatever the casing of
  either, and then tokens times the price per million; without a price nothing, and the flag says so.
\<close>

theorem cost_of_configured_price:
  assumes "distinct (map (ToLower \<circ> fst) prices)" "(prov @ ''/'' @ model, pr) \<in> set prices"
    and "ToLower prov' = ToLower prov" "ToLower model' = ToLower model"
    and "\<forall>(k, v) \<in> set prices. ToLower k \<noteq> ToLower (other @ ''/'' @ free) \<and> ToLower k \<noteq> ToLower free"
  shows "Cost (NewPricing prices) prov' model' i j =
      (of_int i / 1000000 * pr_InputPerMillion pr + of_int j / 1000000 * pr_OutputPerMillion pr, True)
    \<and> Cost (NewPricing prices) other free i j = (0, False)"
proof -
  have "NewPricing prices (ToLower (prov @ ''/'' @ model)) = Some pr" by (rule NewPricing_lookup[OF assms(1,2)])
  then have "Cost (NewPricing prices) prov model i j =
      (of_int i / 1000000 * pr_InputPerMillion pr + of_int j / 1000000 * pr_OutputPerMillion pr, True)"
    by (simp add: Cost_def price_lookup_def)
  moreover have "Cost (NewPricing prices) prov' model' i j = Cost (NewPricing prices) prov model i j"
    by (rule Cost_casefold[OF assms(3,4)])
  moreover have "NewPricing prices (ToLower (other @ ''/'' @ free)) = None" "NewPricing prices (ToLower free) = None"
    by (rule NewPricing_None; use assms(5) in blast)+
  then have "Cost (NewPricing prices) other free i j = (0, False)" by (simp add: Cost_def price_lookup_def)
  ultimately show ?thesis by simp
qed

definition demo_prices :: "(string \<times> price) list" where
  "demo_prices = [(''GPT-4o'', \<lparr>pr_InputPerMillion = 2, pr_OutputPerMillion = 10\<rparr>),
     (''groq/llama'', \<lparr>pr_InputPerMillion = 1, pr_OutputPerMillion = 2\<rparr>)]"

theorem cost_of_configured_price_witness:
  "Cost (NewPricing demo_prices) ''groq'' ''LLAMA'' 1000000 500000 = (of_int 1000000 / 1000000 * 1 + of_int 500000 / 1000000 * 2, True)
   \<and> Cost (NewPricing demo_prices) ''groq'' ''qwen'' 1000000 500000 = (0, False)"
proof -
  have "distinct (map (ToLower \<circ> fst) demo_prices)" by code_simp
  moreover have "(''groq'' @ ''/'' @ ''llama'', \<lparr>pr_InputPerMillion = 1, pr_OutputPerMillion = 2\<rparr>) \<in> set demo_prices"
    by (simp add: demo_prices_def)
  moreover have "ToLower ''LLAMA'' = ToLower ''llama''" by code_simp
  moreover have "\<forall>(k, v) \<in> set demo_prices. ToLower k \<noteq> ToLower (''groq'' @ ''/'' @ ''qwen'') \<and> ToLower k \<noteq> ToLower ''qwen''"
    by code_simp
  ultimately show ?thesis
    using cost_of_configured_price[of demo_prices "''groq''" "''llama''" "\<lparr>pr_InputPerMillion = 1, pr_OutputPerMillion = 2\<rparr>"
        "''groq''" "''LLAMA''" "''groq''" "''qwen''" 1000000 500000] by simp
qed

end
