(* ===== verification/CacheKey.thy ===== *)
theory CacheKey
  imports ProviderTypes
begin

text \<open>
  \<open>internal/cache/normalize.go\<close>: the key of the exact tier and the text the semantic tier embeds.
  The hex digest of SHA-256 is the function \<open>digest\<close> of the bytes written to the hash; what is
  proved of a key is proved of those bytes. \<open>strconv.FormatFloat(f, 'g', 6, 64)\<close> is modelled on the
  exact value of the float.
\<close>

section \<open>FormatFloat with six significant digits\<close>

definition dec_exp :: "float64 \<Rightarrow> int" where
  "dec_exp x =
     (let (a, b) = quotient_of x;
          d = int (length (nat_digits (nat a))) - int (length (nat_digits (nat b)))
      in if x \<ge> 10 powi d then d else d - 1)"

text \<open>The digits without trailing zeros, and the position of the decimal point.\<close>

definition sig_digits :: "float64 \<Rightarrow> string \<times> int" where
  "sig_digits x =
     (if x = 0 then ('''', 0)
      else
        (let e = dec_exp x; m = round_half_even (x * 10 powi (5 - e));
             (m', e') = (if m = 1000000 then (100000, e + 1) else (m, e))
         in (TrimRight (nat_digits (nat m')) (CHR ''0''), e' + 1)))"

definition fmtE :: "string \<Rightarrow> int \<Rightarrow> string" where
  "fmtE ds dp =
     take 1 ds @ (if length ds > 1 then ''.'' @ drop 1 ds else '''') @ ''e'' @
     (if dp - 1 < 0 then ''-'' else ''+'') @
     (let ex = nat_digits (nat \<bar>dp - 1\<bar>) in if length ex < 2 then ''0'' @ ex else ex)"

definition fmtF :: "string \<Rightarrow> int \<Rightarrow> nat \<Rightarrow> string" where
  "fmtF ds dp prec =
     (if dp > 0 then take (nat dp) ds @ replicate (nat dp - length ds) (CHR ''0'') else ''0'') @
     (if prec > 0
      then ''.'' @ map (\<lambda>i. let j = dp + int i in
                          if 0 \<le> j \<and> j < int (length ds) then ds ! nat j else CHR ''0'') [0..<prec]
      else '''')"

definition formatFloat :: "float64 \<Rightarrow> string" where
  "formatFloat f =
     (let (ds, dp) = sig_digits \<bar>f\<bar>; nd = int (length ds);
          eprec = (if 6 > nd \<and> nd \<ge> dp then nd else 6)
      in (if f < 0 then ''-'' else '''') @
         (if dp - 1 < -4 \<or> dp - 1 \<ge> eprec then fmtE ds dp
          else fmtF ds dp (nat (max ((if 6 > dp then nd else 6) - dp) 0))))"

section \<open>The key\<close>

definition normalizeModel :: "string \<Rightarrow> string" where
  "normalizeModel m = ToLower (TrimSpace m)"

definition normalizeContent :: "string \<Rightarrow> string" where
  "normalizeContent s = Join '' '' (Fields s)"

text \<open>\<open>write\<close>: each part behind its length.\<close>

definition write_part :: "string \<Rightarrow> string" where
  "write_part p = Itoa (int (length p)) @ '':'' @ p @ ''|''"

definition write_parts :: "string list \<Rightarrow> string" where
  "write_parts ps = concat (map write_part ps)"

definition message_parts :: "message \<Rightarrow> string list" where
  "message_parts m =
     [''role'', msg_Role m, ''name'', msg_Name m, ''content'', normalizeContent (msg_Content m)]"

definition key_parts :: "string \<Rightarrow> chat_request \<Rightarrow> string list" where
  "key_parts tenantID req =
     [''tenant'', tenantID, ''model'', normalizeModel (cr_Model req),
      ''messages'', Itoa (int (length (cr_Messages req)))] @
     concat (map message_parts (cr_Messages req)) @
     [''temperature'', formatFloat (Temp req), ''max_tokens'', Itoa (MaxTok req)] @
     (case cr_TopP req of Some p \<Rightarrow> [''top_p'', formatFloat p] | None \<Rightarrow> []) @
     (if cr_Stop req \<noteq> [] then [''stop'', Join [CHR 0x00] (cr_Stop req)] else [])"

definition ExactKey :: "(string \<Rightarrow> string) \<Rightarrow> string \<Rightarrow> chat_request \<Rightarrow> string" where
  "ExactKey digest tenantID req = digest (write_parts (key_parts tenantID req))"

definition key_Redis :: "string \<Rightarrow> string" where
  "key_Redis k = ''glm:v1:exact:'' @ k"

definition prompt_line :: "message \<Rightarrow> string" where
  "prompt_line m = msg_Role m @ '': '' @ normalizeContent (msg_Content m)"

definition PromptText :: "chat_request \<Rightarrow> string" where
  "PromptText req = Join [CHR 0x0A] (map prompt_line (cr_Messages req))"

section \<open>The encoding is injective\<close>

lemma Itoa_nat_digits: "c \<in> set (Itoa (int n)) \<Longrightarrow> c \<noteq> CHR '':''"
  using nat_digits_all_digits[of n] by (auto simp: Itoa_def is_digit_def)

lemma write_part_prefix:
  assumes "write_part p @ s = write_part q @ t"
  shows "p = q \<and> s = t"
proof -
  let ?P = "\<lambda>c. c \<noteq> CHR '':''"
  have tw: "takeWhile ?P (Itoa (int (length x)) @ CHR '':'' # r) = Itoa (int (length x))" for x :: string and r
    using Itoa_nat_digits by (auto simp: takeWhile_append)
  have eq: "Itoa (int (length p)) @ CHR '':'' # p @ CHR ''|'' # s
      = Itoa (int (length q)) @ CHR '':'' # q @ CHR ''|'' # t"
    using assms by (simp add: write_part_def)
  from arg_cong[OF eq, of "takeWhile ?P"] have "length p = length q" by (simp add: tw)
  with eq show ?thesis by simp
qed

lemma write_parts_inject: "write_parts ps = write_parts qs \<longleftrightarrow> ps = qs"
proof
  assume "write_parts ps = write_parts qs"
  then show "ps = qs"
  proof (induction ps arbitrary: qs)
    case Nil
    then show ?case by (cases qs) (auto simp: write_parts_def write_part_def)
  next
    case (Cons p ps)
    then obtain q qs' where "qs = q # qs'"
      by (cases qs) (auto simp: write_parts_def write_part_def)
    then show ?case
      using Cons write_part_prefix[of p "write_parts ps" q "write_parts qs'"] by (simp add: write_parts_def)
  qed
qed simp

lemma message_parts_inject:
  "concat (map message_parts ms) @ xs = concat (map message_parts ns) @ ys \<Longrightarrow> length ms = length ns \<Longrightarrow>
     map (\<lambda>m. (msg_Role m, msg_Name m, normalizeContent (msg_Content m))) ms
       = map (\<lambda>m. (msg_Role m, msg_Name m, normalizeContent (msg_Content m))) ns \<and> xs = ys"
proof (induction ms arbitrary: ns)
  case (Cons m ms)
  then obtain n ns' where "ns = n # ns'" by (cases ns) auto
  then show ?case using Cons by (simp add: message_parts_def)
qed simp

lemma message_parts_cong:
  "map (\<lambda>m. (msg_Role m, msg_Name m, normalizeContent (msg_Content m))) ms
     = map (\<lambda>m. (msg_Role m, msg_Name m, normalizeContent (msg_Content m))) ns \<Longrightarrow>
   concat (map message_parts ms) = concat (map message_parts ns)"
proof (induction ms arbitrary: ns)
  case (Cons m ms)
  then obtain n ns' where "ns = n # ns'" by (cases ns) auto
  then show ?case using Cons by (simp add: message_parts_def)
qed simp

lemma option_tail_inject:
  "(case p of Some v \<Rightarrow> [''top_p'', f v] | None \<Rightarrow> []) @ (if s \<noteq> [] then [''stop'', g s] else [])
     = (case p' of Some v \<Rightarrow> [''top_p'', f v] | None \<Rightarrow> []) @ (if s' \<noteq> [] then [''stop'', g s'] else [])
   \<longleftrightarrow> map_option f p = map_option f p' \<and> (s = [] \<longleftrightarrow> s' = []) \<and> (s \<noteq> [] \<longrightarrow> g s = g s')"
  by (auto split: option.splits)

section \<open>Normalisation\<close>

lemma TrimSpace_idem: "TrimSpace (TrimSpace s) = TrimSpace s"
proof -
  let ?u = "dropWhile is_space s"
  let ?v = "rev (dropWhile is_space (rev ?u))"
  have u: "?u = ?v @ rev (takeWhile is_space (rev ?u))"
    by (metis rev_append rev_rev_ident takeWhile_dropWhile_id)
  have "dropWhile is_space ?v = ?v"
  proof (cases "?v = []")
    case False
    then have "hd ?v = hd ?u" by (subst (2) u) simp
    moreover have "?u \<noteq> []"
    proof
      assume "?u = []"
      then have "?v = []" by (simp only: rev.simps dropWhile.simps)
      then show False using False by simp
    qed
    ultimately have "\<not> is_space (hd ?v)" using hd_dropWhile by metis
    then show ?thesis using dropWhile_eq_self_iff by blast
  next
    case True
    then show ?thesis by (simp only: dropWhile.simps)
  qed
  then show ?thesis by (simp add: TrimSpace_def)
qed

text \<open>Two texts cut at their first occurrence of a byte.\<close>

lemma split_first:
  "c \<notin> set a \<Longrightarrow> c \<notin> set b \<Longrightarrow> a @ c # x = b @ c # y \<longleftrightarrow> a = b \<and> x = y"
proof (induction a arbitrary: b)
  case Nil
  then show ?case by (cases b) auto
next
  case (Cons d a)
  then show ?case by (cases b) auto
qed

lemma Fields_word:
  assumes "x \<noteq> ''''" "list_all (\<lambda>c. \<not> is_space c) x"
  shows "Fields (x @ CHR '' '' # s) = x # Fields s" and "Fields x = [x]"
proof -
  have hd: "\<not> is_space (hd x)" using assms by (cases x) auto
  have d: "dropWhile is_space (x @ r) = x @ r" for r using assms hd by (cases x) auto
  have t: "takeWhile (\<lambda>c. \<not> is_space c) (x @ CHR '' '' # s) = x"
    "dropWhile (\<lambda>c. \<not> is_space c) (x @ CHR '' '' # s) = CHR '' '' # s"
    using assms(2) by (auto simp: list_all_iff takeWhile_append dropWhile_append is_space_def)
  have sp: "Fields (CHR '' '' # s) = Fields s"
    by (subst (1 2) Fields.simps) (simp add: is_space_def)
  show "Fields (x @ CHR '' '' # s) = x # Fields s"
    using assms(1) by (subst Fields.simps) (simp add: d t sp Let_def)
  have t': "takeWhile (\<lambda>c. \<not> is_space c) x = x" "dropWhile (\<lambda>c. \<not> is_space c) x = []"
    using assms(2) by (auto simp: list_all_iff takeWhile_eq_all_conv)
  show "Fields x = [x]"
    using assms(1) by (subst Fields.simps) (simp add: Let_def d[of "[]", simplified] t' Fields.simps[of "[]"])
qed

lemma Fields_words: "\<forall>x \<in> set (Fields s). x \<noteq> '''' \<and> list_all (\<lambda>c. \<not> is_space c) x"
proof (induction s rule: Fields.induct)
  case (1 s)
  let ?s = "dropWhile is_space s"
  show ?case
  proof (cases "?s = []")
    case True
    then show ?thesis by (subst Fields.simps) simp
  next
    case False
    then have "takeWhile (\<lambda>c. \<not> is_space c) ?s \<noteq> ''''"
      by (cases ?s) (auto dest: dropWhile_eq_Cons_conv[THEN iffD1])
    moreover have "list_all (\<lambda>c. \<not> is_space c) (takeWhile (\<lambda>c. \<not> is_space c) ?s)"
      by (auto simp: list_all_iff dest: set_takeWhileD)
    ultimately show ?thesis using 1[OF refl False] False by (subst Fields.simps) (auto simp: Let_def)
  qed
qed

lemma Fields_Join:
  assumes "\<forall>x \<in> set xs. x \<noteq> '''' \<and> list_all (\<lambda>c. \<not> is_space c) x"
  shows "Fields (Join '' '' xs) = xs"
  using assms
proof (induction "'' ''" xs rule: Join.induct)
  case 1
  then show ?case by (simp add: Fields.simps)
qed (auto simp: Fields_word)

lemma normalizeContent_idem: "normalizeContent (normalizeContent s) = normalizeContent s"
  by (simp add: normalizeContent_def Fields_Join[OF Fields_words])

lemma Join_chars: "c \<in> set (Join sep xs) \<Longrightarrow> c \<in> set sep \<or> (\<exists>x \<in> set xs. c \<in> set x)"
  by (induction sep xs rule: Join.induct) auto

lemma normalizeContent_one_line: "CHR 0x0A \<notin> set (normalizeContent s)"
proof
  assume "CHR 0x0A \<in> set (normalizeContent s)"
  then obtain x where "x \<in> set (Fields s)" "CHR 0x0A \<in> set x"
    using Join_chars[of "CHR 0x0A" "'' ''" "Fields s"] by (auto simp: normalizeContent_def)
  then show False using Fields_words[of s] by (auto simp: list_all_iff is_space_def)
qed

section \<open>Properties\<close>

text \<open>What a key depends on.\<close>

definition same_key_fields :: "string \<Rightarrow> chat_request \<Rightarrow> string \<Rightarrow> chat_request \<Rightarrow> bool" where
  "same_key_fields t r t' r' \<longleftrightarrow>
     t = t' \<and> normalizeModel (cr_Model r) = normalizeModel (cr_Model r') \<and>
     map (\<lambda>m. (msg_Role m, msg_Name m, normalizeContent (msg_Content m))) (cr_Messages r)
       = map (\<lambda>m. (msg_Role m, msg_Name m, normalizeContent (msg_Content m))) (cr_Messages r') \<and>
     formatFloat (Temp r) = formatFloat (Temp r') \<and> MaxTok r = MaxTok r' \<and>
     map_option formatFloat (cr_TopP r) = map_option formatFloat (cr_TopP r') \<and>
     (cr_Stop r = [] \<longleftrightarrow> cr_Stop r' = []) \<and>
     (cr_Stop r \<noteq> [] \<longrightarrow> Join [CHR 0x00] (cr_Stop r) = Join [CHR 0x00] (cr_Stop r'))"

lemma key_parts_iff: "key_parts t r = key_parts t' r' \<longleftrightarrow> same_key_fields t r t' r'"
proof
  assume eq: "key_parts t r = key_parts t' r'"
  then have len: "length (cr_Messages r) = length (cr_Messages r')" and
    hdr: "t = t'" "normalizeModel (cr_Model r) = normalizeModel (cr_Model r')"
    by (simp_all add: key_parts_def)
  from eq have "concat (map message_parts (cr_Messages r)) @
      ([''temperature'', formatFloat (Temp r), ''max_tokens'', Itoa (MaxTok r)] @
       (case cr_TopP r of Some p \<Rightarrow> [''top_p'', formatFloat p] | None \<Rightarrow> []) @
       (if cr_Stop r \<noteq> [] then [''stop'', Join [CHR 0x00] (cr_Stop r)] else []))
    = concat (map message_parts (cr_Messages r')) @
      ([''temperature'', formatFloat (Temp r'), ''max_tokens'', Itoa (MaxTok r')] @
       (case cr_TopP r' of Some p \<Rightarrow> [''top_p'', formatFloat p] | None \<Rightarrow> []) @
       (if cr_Stop r' \<noteq> [] then [''stop'', Join [CHR 0x00] (cr_Stop r')] else []))"
    by (simp add: key_parts_def)
  from message_parts_inject[OF this len] show "same_key_fields t r t' r'"
    using hdr by (simp add: same_key_fields_def option_tail_inject)
next
  assume s: "same_key_fields t r t' r'"
  then have m: "map (\<lambda>m. (msg_Role m, msg_Name m, normalizeContent (msg_Content m))) (cr_Messages r)
      = map (\<lambda>m. (msg_Role m, msg_Name m, normalizeContent (msg_Content m))) (cr_Messages r')"
    unfolding same_key_fields_def by (elim conjE)
  have "concat (map message_parts (cr_Messages r)) = concat (map message_parts (cr_Messages r'))"
    by (rule message_parts_cong[OF m])
  moreover have "length (cr_Messages r) = length (cr_Messages r')"
    using arg_cong[OF m, of length] by (simp only: length_map)
  moreover have "(case cr_TopP r of Some p \<Rightarrow> [''top_p'', formatFloat p] | None \<Rightarrow> []) @
       (if cr_Stop r \<noteq> [] then [''stop'', Join [CHR 0x00] (cr_Stop r)] else [])
     = (case cr_TopP r' of Some p \<Rightarrow> [''top_p'', formatFloat p] | None \<Rightarrow> []) @
       (if cr_Stop r' \<noteq> [] then [''stop'', Join [CHR 0x00] (cr_Stop r')] else [])"
    unfolding option_tail_inject using s unfolding same_key_fields_def by (elim conjE) (intro conjI)
  moreover have "t = t'" "normalizeModel (cr_Model r) = normalizeModel (cr_Model r')"
    "formatFloat (Temp r) = formatFloat (Temp r')" "MaxTok r = MaxTok r'"
    using s unfolding same_key_fields_def by - (elim conjE, assumption)+
  ultimately show "key_parts t r = key_parts t' r'"
    unfolding key_parts_def by (simp only:)
qed

text \<open>
  C25. The exact key separates everything that changes a completion: the bytes hashed for two requests
  are equal if and only if tenant, model (up to case and outer space), every message's role, name
  and content (up to white space), temperature, token limit, top-p (to six digits) and the joined
  stop sequences are. So two tenants never share an entry unless the digest itself collides, and the
  length prefixes leave no other ambiguity.
\<close>

theorem exact_key_separates:
  "write_parts (key_parts t r) = write_parts (key_parts t' r') \<longleftrightarrow> same_key_fields t r t' r'"
  by (simp only: write_parts_inject key_parts_iff)

text \<open>
  What must not fragment the cache does not: the key is the same whatever the stream flag, the
  user tag, the choice count, the resolved upstream model, the casing and outer space of the alias and the white
  space of the contents.
\<close>

theorem exact_key_invariant:
  "ExactKey digest t (r\<lparr>cr_Stream := b, cr_User := u, cr_N := n, cr_ResolvedModel := m\<rparr>) = ExactKey digest t r
   \<and> ExactKey digest t (r\<lparr>cr_Model := normalizeModel (cr_Model r)\<rparr>) = ExactKey digest t r
   \<and> ExactKey digest t (r\<lparr>cr_Messages :=
        map (\<lambda>x. x\<lparr>msg_Content := normalizeContent (msg_Content x)\<rparr>) (cr_Messages r)\<rparr>) = ExactKey digest t r"
proof -
  have trim: "dropWhile is_space (map to_lower_char s) = map to_lower_char (dropWhile is_space s)" for s
  proof (induction s)
    case (Cons c s)
    have "is_space (to_lower_char c) = is_space c"
    proof (cases "65 \<le> (of_char c :: nat) \<and> (of_char c :: nat) \<le> 90")
      case True
      have "is_space d \<Longrightarrow> (of_char d :: nat) \<le> 32" for d by (auto simp: is_space_def)
      moreover have "(of_char (to_lower_char c) :: nat) = of_char c + 32"
        using True by (simp add: to_lower_char_def Let_def)
      ultimately show ?thesis using True by fastforce
    qed (auto simp: to_lower_char_def Let_def)
    then show ?case using Cons by simp
  qed simp
  have low: "TrimSpace (ToLower s) = ToLower (TrimSpace s)" for s
    by (simp add: TrimSpace_def ToLower_def trim rev_map)
  note tt = TrimSpace_idem
  have model: "normalizeModel (normalizeModel s) = normalizeModel s" for s
    by (simp add: normalizeModel_def low tt)
  have msgs: "map (message_parts \<circ> (\<lambda>x. x\<lparr>msg_Content := normalizeContent (msg_Content x)\<rparr>)) ms
      = map message_parts ms" for ms
    by (simp add: message_parts_def normalizeContent_idem o_def)
  show ?thesis
    by (simp add: ExactKey_def key_parts_def Temp_def MaxTok_def model msgs)
qed

text \<open>
  The stop sequences are the one field the key does not separate: they are joined with NUL
  bytes, so a request with one sequence that contains a NUL byte has the key of the request with the
  two halves, for any digest.
\<close>

theorem stop_join_collides:
  "ExactKey digest t (r\<lparr>cr_Stop := [a @ [CHR 0x00] @ b]\<rparr>) = ExactKey digest t (r\<lparr>cr_Stop := [a, b]\<rparr>)"
  by (simp add: ExactKey_def key_parts_def Temp_def MaxTok_def)

lemma Join_lines_inject:
  assumes "\<forall>x \<in> set xs. c \<notin> set x" "\<forall>x \<in> set ys. c \<notin> set x" "Join [c] xs = Join [c] ys"
    and "xs \<noteq> []" "ys \<noteq> []"
  shows "xs = ys"
  using assms
proof (induction "[c]" xs arbitrary: ys rule: Join.induct)
  case (2 x)
  then show ?case by (cases ys; cases "tl ys") auto
next
  case (3 x y zs)
  show ?case
  proof (cases ys rule: list.exhaust)
    case Nil
    then show ?thesis using 3 by simp
  next
    case (Cons x' ys')
    show ?thesis
    proof (cases ys')
      case Nil
      then show ?thesis using 3(2-4) Cons by auto
    next
      case (Cons y' zs')
      have split: "x @ c # Join [c] (y # zs) = x' @ c # Join [c] (y' # zs')"
        using 3(4) \<open>ys = x' # ys'\<close> Cons by simp
      have "c \<notin> set x" "c \<notin> set x'" using 3(2,3) \<open>ys = x' # ys'\<close> by auto
      then have "x = x' \<and> Join [c] (y # zs) = Join [c] (y' # zs')"
        using split by (simp add: split_first)
      moreover from this have "y # zs = y' # zs'"
        using 3(2,3) \<open>ys = x' # ys'\<close> Cons by (intro 3(1)) auto
      ultimately show ?thesis using \<open>ys = x' # ys'\<close> Cons by simp
    qed
  qed
qed simp

text \<open>
  The embedded prompt is unambiguous: when the roles contain neither a line feed nor \<open>: \<close>, as every
  role of the API does, two conversations render to the same prompt only if they have the same roles
  and the same contents up to white space, message by message. No content can forge a turn, for a
  line feed in it is normalised away.
\<close>

theorem prompt_text_injective:
  assumes "cr_Messages r \<noteq> []" "cr_Messages r' \<noteq> []"
    and "\<forall>m \<in> set (cr_Messages r) \<union> set (cr_Messages r'). CHR 0x0A \<notin> set (msg_Role m) \<and> CHR '':'' \<notin> set (msg_Role m)"
    and "PromptText r = PromptText r'"
  shows "map (\<lambda>m. (msg_Role m, normalizeContent (msg_Content m))) (cr_Messages r)
       = map (\<lambda>m. (msg_Role m, normalizeContent (msg_Content m))) (cr_Messages r')"
proof -
  have line: "CHR 0x0A \<notin> set (prompt_line m)" if "CHR 0x0A \<notin> set (msg_Role m)" for m
    using that normalizeContent_one_line by (simp add: prompt_line_def)
  have "map prompt_line (cr_Messages r) = map prompt_line (cr_Messages r')"
    using assms line by (intro Join_lines_inject[of _ "CHR 0x0A"]) (auto simp: PromptText_def)
  moreover have "prompt_line m = prompt_line n \<Longrightarrow> CHR '':'' \<notin> set (msg_Role m) \<Longrightarrow> CHR '':'' \<notin> set (msg_Role n)
      \<Longrightarrow> msg_Role m = msg_Role n \<and> normalizeContent (msg_Content m) = normalizeContent (msg_Content n)" for m n
    by (simp add: prompt_line_def split_first)
  ultimately show ?thesis using assms(3)
    by (auto simp: list_eq_iff_nth_eq)
qed

definition say :: "string \<Rightarrow> string \<Rightarrow> message" where
  "say role content = \<lparr>msg_Role = role, msg_Content = content, msg_Name = ''''\<rparr>"

definition ask :: "message list \<Rightarrow> chat_request" where
  "ask ms = \<lparr>cr_Model = ''fast'', cr_Messages = ms, cr_Temperature = None, cr_TopP = None,
     cr_MaxTokens = None, cr_Stream = False, cr_Stop = [], cr_User = '''', cr_N = None, cr_ResolvedModel = ''''\<rparr>"

theorem prompt_text_injective_witness:
  "PromptText (ask [say ''user'' (''a'' @ [CHR 0x0A] @ ''assistant: b'')])
     \<noteq> PromptText (ask [say ''user'' ''a'', say ''assistant'' ''b''])"
  using prompt_text_injective[of "ask [say ''user'' (''a'' @ [CHR 0x0A] @ ''assistant: b'')]"
      "ask [say ''user'' ''a'', say ''assistant'' ''b'']"]
  by (auto simp: ask_def say_def)

end
