(* ===== verification/Cache.thy ===== *)
theory Cache
  imports CacheKey Stores
begin

text \<open>
  \<open>internal/cache/cache.go\<close>, \<open>exact.go\<close> and \<open>semantic.go\<close>: the two-tier cache. Redis, the embedder,
  the vector store, the clock and the metrics are the fields of \<open>cache_env\<close>, functions on the state
  \<open>'w\<close> of the world; the bytes of a Redis value are the type \<open>'b\<close>, with the JSON encoding of an entry
  and its decoding. The two digests are functions.
\<close>

section \<open>Types\<close>

datatype cache_status = StatusExactHit | StatusSemanticHit | StatusMiss | StatusBypass | StatusError

fun cache_status_string :: "cache_status \<Rightarrow> string" where
  "cache_status_string StatusExactHit = ''exact_hit''"
| "cache_status_string StatusSemanticHit = ''semantic_hit''"
| "cache_status_string StatusMiss = ''miss''"
| "cache_status_string StatusBypass = ''bypass''"
| "cache_status_string StatusError = ''error''"

record cache_entry =
  ce_Completion :: string
  ce_Model :: string
  ce_UpstreamModel :: string
  ce_Provider :: string
  ce_Temp :: float64
  ce_MaxTokens :: int
  ce_PromptTokens :: int
  ce_CompletionTokens :: int
  ce_CreatedAt :: int
  ce_Prompt :: string

record cache_result =
  cres_Status :: cache_status
  cres_Entry :: "cache_entry option"
  cres_Similarity :: float64
  cres_Vector :: "float64 list option"

definition Hit :: "cache_result \<Rightarrow> bool" where
  "Hit r \<longleftrightarrow> cres_Status r = StatusExactHit \<or> cres_Status r = StatusSemanticHit"

datatype cache_metric =
    RecordLookup cache_status string
  | RecordSimilarity float64 bool
  | RecordWrite string bool

datatype bypass_reason = BypassDisabled | BypassHeader | BypassTemperature | BypassStopSequences

record ('w, 'b) cache_env =
  xe_digest :: "string \<Rightarrow> string"
  xe_point_digest :: "string \<Rightarrow> string"
  xe_encode :: "cache_entry \<Rightarrow> 'b"
  xe_decode :: "'b \<Rightarrow> go_error + cache_entry"
  xe_get :: "string \<Rightarrow> 'w \<Rightarrow> (go_error + 'b) \<times> 'w"
  xe_set :: "string \<Rightarrow> 'b \<Rightarrow> duration \<Rightarrow> 'w \<Rightarrow> go_error option \<times> 'w"
  xe_del :: "string \<Rightarrow> 'w \<Rightarrow> go_error option \<times> 'w"
  xe_redis_ping :: "'w \<Rightarrow> go_error option"
  xe_embed :: "string list \<Rightarrow> 'w \<Rightarrow> (go_error + float64 list list) \<times> 'w"
  xe_search :: "string \<Rightarrow> search_request \<Rightarrow> 'w \<Rightarrow> (go_error + scored_point list) \<times> 'w"
  xe_upsert :: "string \<Rightarrow> point list \<Rightarrow> 'w \<Rightarrow> go_error option \<times> 'w"
  xe_qdrant_ping :: "'w \<Rightarrow> go_error option"
  xe_now :: "'w \<Rightarrow> instant"
  xe_metric :: "cache_metric \<Rightarrow> 'w \<Rightarrow> 'w"

record cache =
  ca_cfg :: cache_cfg
  ca_semantic :: bool

section \<open>The exact tier\<close>

definition exact_Get ::
  "('w, 'b) cache_env \<Rightarrow> string \<Rightarrow> 'w \<Rightarrow> (go_error + cache_entry option) \<times> 'w" where
  "exact_Get x key w =
     (case xe_get x (key_Redis key) w of
        (Inl e, w') \<Rightarrow>
          if errors_Is e RedisNil then (Inr None, w') else (Inl (wrapf ''exact cache get'' e), w')
      | (Inr raw, w') \<Rightarrow>
          (case xe_decode x raw of
             Inl e \<Rightarrow> (Inl (wrapf ''exact cache: corrupt entry evicted'' e), snd (xe_del x (key_Redis key) w'))
           | Inr ent \<Rightarrow> (Inr (Some ent), w')))"

definition exact_Set ::
  "('w, 'b) cache_env \<Rightarrow> string \<Rightarrow> cache_entry \<Rightarrow> duration \<Rightarrow> 'w \<Rightarrow> go_error option \<times> 'w" where
  "exact_Set x key e ttl w =
     (case xe_set x (key_Redis key) (xe_encode x e) ttl w of
        (Some err, w') \<Rightarrow> (Some (wrapf ''exact cache set'' err), w')
      | (None, w') \<Rightarrow> (None, w'))"

definition exact_Delete :: "('w, 'b) cache_env \<Rightarrow> string \<Rightarrow> 'w \<Rightarrow> go_error option \<times> 'w" where
  "exact_Delete x key w = xe_del x (key_Redis key) w"

section \<open>The semantic tier\<close>

definition pointID :: "(string \<Rightarrow> string) \<Rightarrow> string \<Rightarrow> string \<Rightarrow> string \<Rightarrow> string" where
  "pointID point_digest tenantID model prompt =
     point_digest (tenantID @ [CHR 0x00] @ model @ [CHR 0x00] @ prompt)"

definition match_condition :: "string \<Rightarrow> string \<Rightarrow> json" where
  "match_condition key v =
     JObject [(''key'', JString key), (''match'', JObject [(''value'', JString v)])]"

definition tenantFilter :: "string \<Rightarrow> string \<Rightarrow> json" where
  "tenantFilter tenantID model =
     JObject [(''must'', JArray [match_condition ''tenant'' tenantID, match_condition ''model'' model])]"

definition json_str :: "json option \<Rightarrow> string" where
  "json_str v = (case v of Some (JString s) \<Rightarrow> s | _ \<Rightarrow> '''')"

definition json_num :: "json option \<Rightarrow> float64" where
  "json_num v = (case v of Some (JNum n) \<Rightarrow> n | _ \<Rightarrow> 0)"

definition entryFromPayload :: "(string \<times> json) list \<Rightarrow> go_error + cache_entry" where
  "entryFromPayload p =
     (case map_of p ''completion'' of
        Some (JString completion) \<Rightarrow> Inr
          \<lparr>ce_Completion = completion,
           ce_Model = json_str (map_of p ''model''),
           ce_UpstreamModel = json_str (map_of p ''upstream_model''),
           ce_Provider = json_str (map_of p ''provider''),
           ce_Temp = json_num (map_of p ''temperature''),
           ce_MaxTokens = trunc_rat (json_num (map_of p ''max_tokens'')),
           ce_PromptTokens = trunc_rat (json_num (map_of p ''prompt_tokens'')),
           ce_CompletionTokens = trunc_rat (json_num (map_of p ''completion_tokens'')),
           ce_CreatedAt = trunc_rat (json_num (map_of p ''created_at'')),
           ce_Prompt = json_str (map_of p ''prompt'')\<rparr>
      | _ \<Rightarrow> Inl (errorf ''payload missing completion''))"

definition semantic_query :: "semantic_cfg \<Rightarrow> string \<Rightarrow> chat_request \<Rightarrow> float64 list \<Rightarrow> float64 \<Rightarrow> search_request" where
  "semantic_query cfg tenantID req vec threshold =
     \<lparr>sr_Vector = vec, sr_Limit = 1, sr_ScoreThreshold = threshold, sr_WithPayload = False,
      sr_Filter = tenantFilter tenantID (cr_Model req)\<rparr>"

definition semantic_Search ::
  "('w, 'b) cache_env \<Rightarrow> semantic_cfg \<Rightarrow> string \<Rightarrow> chat_request \<Rightarrow> float64 list \<Rightarrow> float64 \<Rightarrow> 'w
    \<Rightarrow> (go_error + cache_entry option \<times> float64) \<times> 'w" where
  "semantic_Search x cfg tenantID req vec threshold w =
     (case xe_search x (sem_Collection cfg) (semantic_query cfg tenantID req vec threshold) w of
        (Inl e, w') \<Rightarrow> (Inl (wrapf ''semantic search'' e), w')
      | (Inr [], w') \<Rightarrow> (Inr (None, 0), w')
      | (Inr (best # _), w') \<Rightarrow>
          if sp_Score best < threshold then (Inr (None, sp_Score best), w')
          else (case entryFromPayload (sp_Payload best) of
                  Inl e \<Rightarrow> (Inl (wrapf ''semantic search'' e), w')
                | Inr ent \<Rightarrow> (Inr (Some ent, sp_Score best), w')))"

definition semantic_payload :: "string \<Rightarrow> chat_request \<Rightarrow> cache_entry \<Rightarrow> (string \<times> json) list" where
  "semantic_payload tenantID req e =
     [(''tenant'', JString tenantID), (''model'', JString (cr_Model req)),
      (''upstream_model'', JString (ce_UpstreamModel e)), (''provider'', JString (ce_Provider e)),
      (''completion'', JString (ce_Completion e)), (''prompt'', JString (PromptText req)),
      (''temperature'', JNum (ce_Temp e)), (''max_tokens'', JNum (of_int (ce_MaxTokens e))),
      (''prompt_tokens'', JNum (of_int (ce_PromptTokens e))),
      (''completion_tokens'', JNum (of_int (ce_CompletionTokens e))),
      (''created_at'', JNum (of_int (ce_CreatedAt e)))]"

definition semantic_Upsert ::
  "('w, 'b) cache_env \<Rightarrow> semantic_cfg \<Rightarrow> string \<Rightarrow> chat_request \<Rightarrow> cache_entry \<Rightarrow> float64 list \<Rightarrow> 'w
    \<Rightarrow> go_error option \<times> 'w" where
  "semantic_Upsert x cfg tenantID req e vec w =
     xe_upsert x (sem_Collection cfg)
       [\<lparr>pt_ID = pointID (xe_point_digest x) tenantID (cr_Model req) (PromptText req),
         pt_Vector = vec, pt_Payload = semantic_payload tenantID req e\<rparr>] w"

section \<open>The cache\<close>

definition Cacheable :: "cache_cfg \<Rightarrow> chat_request \<Rightarrow> bool \<Rightarrow> bypass_reason option" where
  "Cacheable cfg req noCacheHeader =
     (if \<not> cc_Enabled cfg then Some BypassDisabled
      else if noCacheHeader then Some BypassHeader
      else if Temp req > cc_MaxTemperature cfg then Some BypassTemperature
      else None)"

definition entry_Age :: "instant \<Rightarrow> cache_entry \<Rightarrow> duration" where
  "entry_Age now e = now - ce_CreatedAt e * Second"

definition compatible :: "cache_cfg \<Rightarrow> instant \<Rightarrow> chat_request \<Rightarrow> cache_entry \<Rightarrow> bool" where
  "compatible cfg now req e =
     (if \<not> EqualFold (ce_Model e) (cr_Model req) then False
      else if \<bar>ce_Temp e - Temp req\<bar> > sem_MaxTempDelta (cc_Semantic cfg) then False
      else if MaxTok req > 0 \<and> ce_CompletionTokens e > MaxTok req then False
      else if sem_TTL (cc_Semantic cfg) > 0 \<and> entry_Age now e > sem_TTL (cc_Semantic cfg) then False
      else True)"

definition result_of :: "cache_status \<Rightarrow> cache_entry option \<Rightarrow> float64 \<Rightarrow> float64 list option \<Rightarrow> cache_result" where
  "result_of st e sim vec = \<lparr>cres_Status = st, cres_Entry = e, cres_Similarity = sim, cres_Vector = vec\<rparr>"

definition embed_prompt ::
  "('w, 'b) cache_env \<Rightarrow> chat_request \<Rightarrow> 'w \<Rightarrow> (go_error + float64 list) \<times> 'w" where
  "embed_prompt x req w =
     (let (r, w') = xe_embed x [PromptText req] w in (EmbedOne (\<lambda>_. r) (PromptText req), w'))"

text \<open>The semantic tier of \<open>Lookup\<close>, reached after an exact miss.\<close>

definition lookup_semantic ::
  "('w, 'b) cache_env \<Rightarrow> cache \<Rightarrow> string \<Rightarrow> chat_request \<Rightarrow> 'w \<Rightarrow> cache_result \<times> 'w" where
  "lookup_semantic x c tenantID req w =
     (let sem = cc_Semantic (ca_cfg c) in
      case embed_prompt x req w of
        (Inl e, w1) \<Rightarrow> (result_of StatusMiss None 0 None, xe_metric x (RecordLookup StatusError ''semantic'') w1)
      | (Inr vec, w1) \<Rightarrow>
          (case semantic_Search x sem tenantID req vec (sem_Threshold sem) w1 of
             (Inl e, w2) \<Rightarrow>
               (result_of StatusMiss None 0 (Some vec), xe_metric x (RecordLookup StatusError ''semantic'') w2)
           | (Inr (None, score), w2) \<Rightarrow>
               (result_of StatusMiss None 0 (Some vec), xe_metric x (RecordLookup StatusMiss ''semantic'') w2)
           | (Inr (Some match, score), w2) \<Rightarrow>
               if \<not> compatible (ca_cfg c) (xe_now x w2) req match
               then (result_of StatusMiss None 0 (Some vec),
                     xe_metric x (RecordLookup StatusMiss ''semantic'') (xe_metric x (RecordSimilarity score False) w2))
               else (result_of StatusSemanticHit (Some match) score (Some vec),
                     xe_metric x (RecordLookup StatusSemanticHit ''semantic'') (xe_metric x (RecordSimilarity score True) w2))))"

definition semantic_on :: "cache \<Rightarrow> bool" where
  "semantic_on c \<longleftrightarrow> ca_semantic c \<and> sem_Enabled (cc_Semantic (ca_cfg c))"

definition Lookup ::
  "('w, 'b) cache_env \<Rightarrow> cache \<Rightarrow> string \<Rightarrow> chat_request \<Rightarrow> 'w \<Rightarrow> cache_result \<times> 'w" where
  "Lookup x c tenantID req w =
     (let (got, w1) = exact_Get x (ExactKey (xe_digest x) tenantID req) w in
      case got of
        Inr (Some ent) \<Rightarrow>
          (result_of StatusExactHit (Some ent) 0 None, xe_metric x (RecordLookup StatusExactHit ''exact'') w1)
      | _ \<Rightarrow>
          (let w2 = (case got of Inl e \<Rightarrow> xe_metric x (RecordLookup StatusError ''exact'') w1 | Inr _ \<Rightarrow> w1) in
           if \<not> semantic_on c
           then (result_of StatusMiss None 0 None, xe_metric x (RecordLookup StatusMiss ''exact'') w2)
           else lookup_semantic x c tenantID req w2))"

definition store_semantic ::
  "('w, 'b) cache_env \<Rightarrow> cache \<Rightarrow> string \<Rightarrow> chat_request \<Rightarrow> cache_entry \<Rightarrow> float64 list option \<Rightarrow> 'w \<Rightarrow> 'w" where
  "store_semantic x c tenantID req e vec w =
     (let (got, w1) = (case vec of
            Some v \<Rightarrow> (Inr v, w)
          | None \<Rightarrow> embed_prompt x req w)
      in case got of
           Inl err \<Rightarrow> xe_metric x (RecordWrite ''semantic'' False) w1
         | Inr v \<Rightarrow>
             (case semantic_Upsert x (cc_Semantic (ca_cfg c)) tenantID req (e\<lparr>ce_Prompt := PromptText req\<rparr>) v w1 of
                (Some err, w2) \<Rightarrow> xe_metric x (RecordWrite ''semantic'' False) w2
              | (None, w2) \<Rightarrow> xe_metric x (RecordWrite ''semantic'' True) w2))"

definition unix_seconds :: "instant \<Rightarrow> int" where
  "unix_seconds now = now div Second"

definition cache_Store ::
  "('w, 'b) cache_env \<Rightarrow> cache \<Rightarrow> string \<Rightarrow> chat_request \<Rightarrow> cache_entry \<Rightarrow> float64 list option \<Rightarrow> 'w \<Rightarrow> 'w" where
  "cache_Store x c tenantID req ent vec w =
     (let e = ent\<lparr>ce_CreatedAt := unix_seconds (xe_now x w)\<rparr>;
          (err, w1) = exact_Set x (ExactKey (xe_digest x) tenantID req) e (cc_ExactTTL (ca_cfg c)) w;
          w2 = xe_metric x (RecordWrite ''exact'' (err = None)) w1
      in if \<not> semantic_on c then w2 else store_semantic x c tenantID req e vec w2)"

definition cache_Ping :: "('w, 'b) cache_env \<Rightarrow> cache \<Rightarrow> 'w \<Rightarrow> go_error option" where
  "cache_Ping x c w =
     (case xe_redis_ping x w of
        Some e \<Rightarrow> Some e
      | None \<Rightarrow> if semantic_on c then xe_qdrant_ping x w else None)"

section \<open>The contract of the exact tier\<close>

text \<open>
  What \<open>Store\<close> and \<open>Lookup\<close> rely on: a successful \<open>Set\<close> is seen by the next \<open>Get\<close> of the key,
  a \<open>Set\<close> of another key is not, and neither the other store, the embedder nor the metrics touch an
  entry.
\<close>

locale exact_store =
  fixes x :: "('w, 'b) cache_env"
    and held :: "string \<Rightarrow> cache_entry \<Rightarrow> 'w \<Rightarrow> bool"
  assumes held_get: "held k e w \<Longrightarrow> fst (exact_Get x k w) = Inr (Some e)"
    and set_held: "exact_Set x k e ttl w = (None, w') \<Longrightarrow> held k e w'"
    and set_other: "held k e w \<Longrightarrow> k' \<noteq> k \<Longrightarrow> held k e (snd (exact_Set x k' e' ttl w))"
    and metric_held: "held k e w \<Longrightarrow> held k e (xe_metric x m w)"
    and embed_held: "held k e w \<Longrightarrow> held k e (snd (xe_embed x ts w))"
    and upsert_held: "held k e w \<Longrightarrow> held k e (snd (xe_upsert x col pts w))"
begin

lemma store_semantic_held: "held k e w \<Longrightarrow> held k e (store_semantic x c t req e' vec w)"
  unfolding store_semantic_def embed_prompt_def semantic_Upsert_def
  by (auto simp: Let_def split_beta metric_held embed_held upsert_held
      split: option.split sum.split prod.split
      intro!: metric_held dest: upsert_held embed_held)

lemma store_held:
  assumes "fst (exact_Set x (ExactKey (xe_digest x) t req) (e\<lparr>ce_CreatedAt := unix_seconds (xe_now x w)\<rparr>)
      (cc_ExactTTL (ca_cfg c)) w) = None"
  shows "held (ExactKey (xe_digest x) t req) (e\<lparr>ce_CreatedAt := unix_seconds (xe_now x w)\<rparr>)
      (cache_Store x c t req e vec w)"
proof -
  obtain w1 where s: "exact_Set x (ExactKey (xe_digest x) t req) (e\<lparr>ce_CreatedAt := unix_seconds (xe_now x w)\<rparr>)
      (cc_ExactTTL (ca_cfg c)) w = (None, w1)" using assms by (metis prod.collapse)
  have "held (ExactKey (xe_digest x) t req) (e\<lparr>ce_CreatedAt := unix_seconds (xe_now x w)\<rparr>)
      (xe_metric x (RecordWrite ''exact'' True) w1)"
    by (rule metric_held[OF set_held[OF s]])
  then show ?thesis by (simp add: cache_Store_def s Let_def store_semantic_held)
qed

lemma held_hit:
  assumes "held (ExactKey (xe_digest x) t req) e w"
  shows "fst (Lookup x c t req w) = result_of StatusExactHit (Some e) 0 None"
  using held_get[OF assms] by (simp add: Lookup_def split_beta Let_def)

lemma store_then_hit:
  assumes "fst (exact_Set x (ExactKey (xe_digest x) t req) (e\<lparr>ce_CreatedAt := unix_seconds (xe_now x w)\<rparr>)
      (cc_ExactTTL (ca_cfg c)) w) = None" and "same_key_fields t req t' req'"
  shows "fst (Lookup x c' t' req' (cache_Store x c t req e vec w))
    = result_of StatusExactHit (Some (e\<lparr>ce_CreatedAt := unix_seconds (xe_now x w)\<rparr>)) 0 None"
proof -
  have "ExactKey (xe_digest x) t' req' = ExactKey (xe_digest x) t req"
    using assms(2) key_parts_iff[of t req t' req'] by (simp add: ExactKey_def)
  then show ?thesis using store_held[OF assms(1), of vec] held_hit by simp
qed

lemma other_store_keeps_hit:
  assumes "held (ExactKey (xe_digest x) t req) e w"
    and "ExactKey (xe_digest x) t' req' \<noteq> ExactKey (xe_digest x) t req"
  shows "held (ExactKey (xe_digest x) t req) e (cache_Store x c t' req' e' vec w)"
proof -
  have "held (ExactKey (xe_digest x) t req) e
      (snd (exact_Set x (ExactKey (xe_digest x) t' req') (e'\<lparr>ce_CreatedAt := unix_seconds (xe_now x w)\<rparr>)
        (cc_ExactTTL (ca_cfg c)) w))"
    using assms by (intro set_other) auto
  then show ?thesis
    by (simp add: cache_Store_def split_beta Let_def metric_held store_semantic_held)
qed

end

text \<open>
  Environments in which Redis is a map that is up and keeps its values, whatever the embedder, the
  vector store, the metrics and the digests do with the rest of the world.
\<close>

definition map_env ::
  "(string \<Rightarrow> string) \<Rightarrow> (string list \<Rightarrow> 'v \<Rightarrow> (go_error + float64 list list) \<times> 'v)
    \<Rightarrow> (string \<Rightarrow> search_request \<Rightarrow> 'v \<Rightarrow> (go_error + scored_point list) \<times> 'v)
    \<Rightarrow> (string \<Rightarrow> point list \<Rightarrow> 'v \<Rightarrow> go_error option \<times> 'v) \<Rightarrow> ('v \<Rightarrow> instant) \<Rightarrow> (cache_metric \<Rightarrow> 'v \<Rightarrow> 'v)
    \<Rightarrow> ((string \<rightharpoonup> cache_entry) \<times> 'v, cache_entry) cache_env" where
  "map_env digest embed_fn search upsert now metric =
     \<lparr>xe_digest = digest, xe_point_digest = digest, xe_encode = (\<lambda>e. e), xe_decode = Inr,
      xe_get = (\<lambda>k (r, v). (case r k of None \<Rightarrow> Inl (Sentinel RedisNil) | Some e \<Rightarrow> Inr e, (r, v))),
      xe_set = (\<lambda>k e ttl (r, v). (None, (r(k \<mapsto> e), v))),
      xe_del = (\<lambda>k (r, v). (None, (r(k := None), v))),
      xe_redis_ping = (\<lambda>w. None),
      xe_embed = (\<lambda>ts (r, v). let (a, v') = embed_fn ts v in (a, (r, v'))),
      xe_search = (\<lambda>col q (r, v). let (a, v') = search col q v in (a, (r, v'))),
      xe_upsert = (\<lambda>col ps (r, v). let (a, v') = upsert col ps v in (a, (r, v'))),
      xe_qdrant_ping = (\<lambda>w. None), xe_now = (\<lambda>(r, v). now v), xe_metric = (\<lambda>m (r, v). (r, metric m v))\<rparr>"

interpretation map_store: exact_store
  "map_env digest embed_fn search upsert now metric" "\<lambda>k e (r, v). r (key_Redis k) = Some e"
  by unfold_locales
     (auto simp: map_env_def exact_Get_def exact_Set_def key_Redis_def Let_def split_beta split: prod.splits)

section \<open>Properties\<close>

lemma lookup_semantic_cases:
  "(\<exists>vec. fst (lookup_semantic x c t req v) = result_of StatusMiss None 0 vec)
   \<or> (\<exists>e s vec u. embed_prompt x req v = (Inr vec, u) \<and>
        fst (lookup_semantic x c t req v) = result_of StatusSemanticHit (Some e) s (Some vec))"
  by (auto simp: lookup_semantic_def Let_def split: prod.split sum.split option.split)

lemma Lookup_cases:
  "(\<exists>e. fst (exact_Get x (ExactKey (xe_digest x) t req) w) = Inr (Some e) \<and>
        fst (Lookup x c t req w) = result_of StatusExactHit (Some e) 0 None)
   \<or> fst (Lookup x c t req w) = result_of StatusMiss None 0 None
   \<or> (\<exists>v. fst (Lookup x c t req w) = fst (lookup_semantic x c t req v))"
  by (auto simp: Lookup_def Let_def split_beta split: sum.split option.split)

text \<open>
  A lookup degrades, it never fails: whatever Redis, the embedder and the vector store do, the
  status is an exact hit, a semantic hit or a miss, and an entry is present exactly on a hit; with every
  backend down the request is a miss without an entry.
\<close>

theorem lookup_total:
  "cres_Status (fst (Lookup x c t req w)) \<in> {StatusExactHit, StatusSemanticHit, StatusMiss}
   \<and> (Hit (fst (Lookup x c t req w)) \<longleftrightarrow> cres_Entry (fst (Lookup x c t req w)) \<noteq> None)
   \<and> ((\<forall>k v. \<exists>e v'. xe_get x k v = (Inl e, v')) \<and> (\<forall>ts v. \<exists>e v'. xe_embed x ts v = (Inl e, v')) \<longrightarrow>
        cres_Status (fst (Lookup x c t req w)) = StatusMiss)"
proof -
  have down: "\<exists>e. fst (embed_prompt x req v) = Inl e" if a: "\<forall>ts v. \<exists>e v'. xe_embed x ts v = (Inl e, v')" for v
  proof -
    obtain e v' where "xe_embed x [PromptText req] v = (Inl e, v')" using a by blast
    then show ?thesis by (simp add: embed_prompt_def EmbedOne_def)
  qed
  have nohit: "\<not> (\<exists>e. fst (exact_Get x k v) = Inr (Some e))" if a: "\<forall>k v. \<exists>e v'. xe_get x k v = (Inl e, v')" for k v
  proof -
    obtain e v' where "xe_get x (key_Redis k) v = (Inl e, v')" using a by blast
    then show ?thesis by (simp add: exact_Get_def)
  qed
  consider (exact) e where "fst (exact_Get x (ExactKey (xe_digest x) t req) w) = Inr (Some e)"
      "fst (Lookup x c t req w) = result_of StatusExactHit (Some e) 0 None"
    | (miss) vec where "fst (Lookup x c t req w) = result_of StatusMiss None 0 vec"
    | (sem) e s vec v u where "embed_prompt x req v = (Inr vec, u)"
      "fst (Lookup x c t req w) = result_of StatusSemanticHit (Some e) s (Some vec)"
    using Lookup_cases[of x t req w c] lookup_semantic_cases[of x c t req] by metis
  then show ?thesis
  proof cases
    case exact
    then show ?thesis using nohit[of "ExactKey (xe_digest x) t req" w] by (auto simp: result_of_def Hit_def)
  next
    case miss
    then show ?thesis by (simp add: result_of_def Hit_def)
  next
    case sem
    then show ?thesis using down[of v] by (auto simp: result_of_def Hit_def)
  qed
qed


text \<open>A cache over an empty Redis whose vector store knows one prompt.\<close>

definition demo_cache :: cache where
  "demo_cache = \<lparr>ca_cfg = (cf_Cache mock_config)
     \<lparr>cc_Enabled := True, cc_Semantic := (cc_Semantic (cf_Cache mock_config))\<lparr>sem_Enabled := True\<rparr>\<rparr>, ca_semantic = True\<rparr>"

definition demo_entry :: cache_entry where
  "demo_entry = \<lparr>ce_Completion = ''Paris'', ce_Model = ''fast'', ce_UpstreamModel = ''m1'', ce_Provider = ''dev'',
     ce_Temp = 1, ce_MaxTokens = 0, ce_PromptTokens = 5, ce_CompletionTokens = 1, ce_CreatedAt = 0, ce_Prompt = ''''\<rparr>"

definition demo_cache_env :: "((string \<rightharpoonup> cache_entry) \<times> unit, cache_entry) cache_env" where
  "demo_cache_env = map_env (\<lambda>s. s) (\<lambda>ts v. (Inr [[1]], v))
     (\<lambda>col q v. (Inr [\<lparr>sp_ID = ''1'', sp_Score = 99 / 100,
        sp_Payload = semantic_payload ''t'' (ask [say ''user'' ''hi'']) demo_entry\<rparr>], v))
     (\<lambda>col ps v. (None, v)) (\<lambda>v. 0) (\<lambda>m v. v)"

lemma demo_payload: "entryFromPayload (semantic_payload ''t'' (ask [say ''user'' ''hi'']) demo_entry)
    = Inr (demo_entry\<lparr>ce_Prompt := PromptText (ask [say ''user'' ''hi''])\<rparr>)"
  by (simp add: entryFromPayload_def semantic_payload_def json_str_def json_num_def demo_entry_def ask_def
      trunc_rat_def)


text \<open>Every backend down.\<close>

definition dead_cache_env :: "(unit, cache_entry) cache_env" where
  "dead_cache_env =
     \<lparr>xe_digest = (\<lambda>s. s), xe_point_digest = (\<lambda>s. s), xe_encode = (\<lambda>e. e), xe_decode = (\<lambda>b. Inr b),
      xe_get = (\<lambda>k w. (Inl (Sentinel ContextDeadlineExceeded), w)),
      xe_set = (\<lambda>k b ttl w. (Some (Sentinel ContextDeadlineExceeded), w)),
      xe_del = (\<lambda>k w. (Some (Sentinel ContextDeadlineExceeded), w)),
      xe_redis_ping = (\<lambda>w. Some (Sentinel ContextDeadlineExceeded)),
      xe_embed = (\<lambda>ts w. (Inl (Sentinel ErrEmbedderUnavailable), w)),
      xe_search = (\<lambda>c q w. (Inl (Sentinel ContextDeadlineExceeded), w)),
      xe_upsert = (\<lambda>c ps w. (Some (Sentinel ContextDeadlineExceeded), w)),
      xe_qdrant_ping = (\<lambda>w. Some (Sentinel ContextDeadlineExceeded)),
      xe_now = (\<lambda>w. 0), xe_metric = (\<lambda>m w. w)\<rparr>"

theorem lookup_total_witness:
  "cres_Status (fst (Lookup dead_cache_env demo_cache ''t'' (ask [say ''user'' ''hi'']) ())) = StatusMiss"
  using lookup_total[of dead_cache_env demo_cache "''t''" "ask [say ''user'' ''hi'']" "()"]
  by (simp add: dead_cache_env_def)

lemma map_env_ops [simp]:
  "fst (xe_metric (map_env digest embed_fn search upsert now metric) m v) = fst v"
  "fst (snd (xe_embed (map_env digest embed_fn search upsert now metric) ts v)) = fst v"
  "fst (snd (xe_upsert (map_env digest embed_fn search upsert now metric) col ps v)) = fst v"
  "xe_digest (map_env digest embed_fn search upsert now metric) = digest"
  "exact_Set (map_env digest embed_fn search upsert now metric) k e ttl v = (None, ((fst v)(key_Redis k \<mapsto> e), snd v))"
  by (cases v; simp add: map_env_def exact_Set_def split_beta)+

lemma map_env_get:
  "fst (exact_Get (map_env digest embed_fn search upsert now metric) k v) = Inr (fst v (key_Redis k))"
  by (cases v) (auto simp: map_env_def exact_Get_def split: option.split)

lemma map_env_semantic:
  "fst (store_semantic (map_env digest embed_fn search upsert now metric) c t req e vec v) = fst v"
  by (auto simp: store_semantic_def embed_prompt_def semantic_Upsert_def Let_def split_beta
      split: option.split sum.split)

lemma map_env_store:
  "fst (cache_Store (map_env digest embed_fn search upsert now metric) c t req e vec w)
   = (fst w)(key_Redis (ExactKey digest t req) \<mapsto> e\<lparr>ce_CreatedAt :=
        unix_seconds (xe_now (map_env digest embed_fn search upsert now metric) w)\<rparr>)"
  by (simp add: cache_Store_def map_env_semantic Let_def)



text \<open>
  A point written to the semantic tier is read back as the entry it was made from, with the alias and
  the prompt of the request: every number survives the trip through JSON floats, and the payload carries the tenant and the model the search filter
  asks for.
\<close>

theorem payload_roundtrip:
  "entryFromPayload (semantic_payload t req e) = Inr (e\<lparr>ce_Model := cr_Model req, ce_Prompt := PromptText req\<rparr>)
   \<and> map_of (semantic_payload t req e) ''tenant'' = Some (JString t)
   \<and> map_of (semantic_payload t req e) ''model'' = Some (JString (cr_Model req))
   \<and> tenantFilter t (cr_Model req) = JObject [(''must'', JArray
        [match_condition ''tenant'' t, match_condition ''model'' (cr_Model req)])]"
  by (simp add: entryFromPayload_def semantic_payload_def json_str_def json_num_def tenantFilter_def trunc_rat_def)

text \<open>
  The semantic tier does not see the stop sequences, the top-p value or the user: two requests that
  differ in nothing else pass the same guard, send the same query and get the same answer, although
  their exact keys differ; and no request is ever bypassed for parameters the cache does not model, the reason
  \<open>BypassStopSequences\<close> is never given.
\<close>

theorem semantic_ignores_stop:
  "lookup_semantic x c t (req\<lparr>cr_Stop := s, cr_TopP := p, cr_User := u\<rparr>) w = lookup_semantic x c t req w
   \<and> Cacheable cfg (req\<lparr>cr_Stop := s, cr_TopP := p, cr_User := u\<rparr>) h = Cacheable cfg req h
   \<and> Cacheable cfg req h \<noteq> Some BypassStopSequences
   \<and> (cr_Stop req = [] \<and> s \<noteq> [] \<longrightarrow>
        write_parts (key_parts t (req\<lparr>cr_Stop := s\<rparr>)) \<noteq> write_parts (key_parts t req))"
proof -
  let ?r = "req\<lparr>cr_Stop := s, cr_TopP := p, cr_User := u\<rparr>"
  have eq: "Temp ?r = Temp req" "MaxTok ?r = MaxTok req" "PromptText ?r = PromptText req" "cr_Model ?r = cr_Model req"
    by (simp_all add: Temp_def MaxTok_def PromptText_def)
  have "compatible cfg' n ?r e = compatible cfg' n req e" for cfg' n e
    unfolding compatible_def eq by (rule refl)
  moreover have "semantic_Search x sem t ?r vec th v = semantic_Search x sem t req vec th v" for sem vec th v
    unfolding semantic_Search_def semantic_query_def eq by (rule refl)
  moreover have "embed_prompt x ?r v = embed_prompt x req v" for v
    unfolding embed_prompt_def eq by (rule refl)
  ultimately have "lookup_semantic x c t ?r w = lookup_semantic x c t req w"
    unfolding lookup_semantic_def by (simp only:)
  moreover have "Cacheable cfg ?r h = Cacheable cfg req h"
    unfolding Cacheable_def eq by (rule refl)
  ultimately show ?thesis
    unfolding exact_key_separates by (simp add: Cacheable_def same_key_fields_def)
qed

theorem semantic_ignores_stop_witness:
  "write_parts (key_parts ''t'' ((ask [])\<lparr>cr_Stop := [''x'']\<rparr>)) \<noteq> write_parts (key_parts ''t'' (ask []))"
  using semantic_ignores_stop[where x = demo_cache_env and c = demo_cache and t = "''t''" and req = "ask []" and s = "[''x'']"]
  by (simp add: ask_def)

end
