(* ===== verification/ExecRules.thy ===== *)
theory ExecRules
  imports Executor
begin

text \<open>
  Reasoning rules for the clients of the executor: a predicate that the environment and the provider call keep is
  kept by a whole failover, and what every successful call establishes holds when the failover reports success.
\<close>

locale exec_invariant =
  fixes env :: "'w exec_env"
    and call :: "'w caller"
    and I :: "'w \<Rightarrow> bool"
  assumes I_wait: "I w \<Longrightarrow> I (snd (ee_wait env d w))"
    and I_int63n: "I w \<Longrightarrow> I (snd (ee_int63n env n w))"
    and I_allow: "I w \<Longrightarrow> I (snd (ee_allow env p w))"
    and I_record: "I w \<Longrightarrow> I (ee_record env p ok w)"
    and I_report: "I w \<Longrightarrow> I (ee_report env i w)"
    and I_call: "I w \<Longrightarrow> I (snd (call t r w))"
begin

lemma I_sleep: "I w \<Longrightarrow> I (snd (sleepBackoff env cfg k d w))"
  using I_int63n[of w] I_wait
  by (auto simp: sleepBackoff_def backoff_delay_def Let_def split_beta split: prod.splits go.splits)

lemma I_report_attempt: "I w \<Longrightarrow> I (report_attempt env t k e st sk w)"
  by (simp add: report_attempt_def I_report)

lemma I_record_fault: "I w \<Longrightarrow> I (record_fault env t pe w)"
  by (auto simp: record_fault_def I_record split: option.split)

lemma I_attempt_loop: "I w \<Longrightarrow> I (snd (attempt_loop env cfg call committed t req st n k lastErr w))"
proof (induction "nat (n + 1 - k)" arbitrary: k lastErr w rule: less_induct)
  case less
  let ?name = "provider_Name (tg_Provider t)"
  obtain err w1 where c: "call t req w = (err, w1)" by (metis surj_pair)
  have "I w1" using I_call[OF less.prems, of t req] c by simp
  then have w2: "I (report_attempt env t k err st False w1)" by (rule I_report_attempt)
  show ?case
  proof (cases "k \<le> n \<and> err \<noteq> None")
    case False
    then show ?thesis using less.prems w2 c
      by (auto simp: attempt_loop.simps[of env cfg call committed t req st n k] I_record Let_def)
  next
    case True
    then obtain e where e: "err = Some e" by auto
    let ?w3 = "record_fault env t (AsError e) (report_attempt env t k err st False w1)"
    have w3: "I ?w3" by (rule I_record_fault[OF w2])
    have w4: "I (snd (sleepBackoff env cfg k (pe_RetryAfter p) ?w3))" for p by (rule I_sleep[OF w3])
    have again: "I (snd (attempt_loop env cfg call committed t req st n (k + 1) (Some e) w'))" if "I w'" for w'
      using less.hyps[of "k + 1" w' "Some e"] that True by simp
    show ?thesis
      using True w3 again c e w4
      by (auto simp: attempt_loop.simps[of env cfg call committed t req st n k] Let_def
          split: option.split prod.split go.split) (metis snd_conv)+
  qed
qed

lemma I_do_loop: "I w \<Longrightarrow> I (snd (do_loop env cfg call committed req ts errs w))"
proof (induction ts arbitrary: errs w)
  case (Cons t ts)
  obtain ok st w1 where a: "ee_allow env (provider_Name (tg_Provider t)) w = ((ok, st), w1)" by (metis surj_pair)
  have w1: "I w1" using I_allow[OF Cons.prems] a by (metis snd_conv)
  have w2: "I (snd (attemptWithRetries env cfg call committed t req st w1))"
    unfolding attemptWithRetries_def by (rule I_attempt_loop[OF w1])
  show ?case
    using Cons.IH a w2 I_report_attempt[OF w1]
    by (auto simp: Let_def split: prod.split go.split option.split)
qed simp

lemma I_exec_do: "I w \<Longrightarrow> I (snd (exec_do env cfg call committed req targets w))"
  by (simp add: exec_do_def I_do_loop)

end

text \<open>What a successful call of a target establishes and the report and the record after it keep.\<close>

locale exec_success = exec_invariant +
  fixes Q :: "target \<Rightarrow> chat_request \<Rightarrow> 'w \<Rightarrow> bool"
  assumes Q_call: "I w \<Longrightarrow> call t r w = (None, w') \<Longrightarrow> Q t r w'"
    and Q_record: "Q t r w \<Longrightarrow> Q t r (ee_record env p ok w)"
    and Q_report: "Q t r w \<Longrightarrow> Q t r (ee_report env i w)"
begin

lemma Q_attempt_loop:
  "I w \<Longrightarrow> k \<le> n \<Longrightarrow> attempt_loop env cfg call committed t req st n k lastErr w = (Ret None, w') \<Longrightarrow> Q t req w'"
proof (induction "nat (n + 1 - k)" arbitrary: k lastErr w rule: less_induct)
  case less
  obtain err w1 where c: "call t req w = (err, w1)" by (metis surj_pair)
  have "I w1" using I_call[OF less.prems(1), of t req] c by simp
  then have w2: "I (report_attempt env t k err st False w1)" by (rule I_report_attempt)
  show ?case
  proof (cases err)
    case None
    then show ?thesis
      using less.prems c Q_call[OF less.prems(1), of t req w1]
      by (simp add: attempt_loop.simps[of env cfg call committed t req st n k] Let_def report_attempt_def)
        (metis Q_record Q_report)
  next
    case (Some e)
    let ?w3 = "record_fault env t (AsError e) (report_attempt env t k err st False w1)"
    have w3: "I ?w3" by (rule I_record_fault[OF w2])
    have w4: "I w4" if "sleepBackoff env cfg k d ?w3 = (x, w4)" for x w4 d
      using I_sleep[OF w3, of cfg k d] that by simp
    obtain p w4 where "sleepBackoff env cfg k (pe_RetryAfter p) ?w3 = (Ret None, w4)" "k \<noteq> n"
      "attempt_loop env cfg call committed t req st n (k + 1) (Some e) w4 = (Ret None, w')"
      using less.prems(2,3) c Some
      by (auto simp: attempt_loop.simps[of env cfg call committed t req st n k] Let_def
          split: option.splits prod.splits go.splits if_splits)
    then show ?thesis using less.hyps[of "k + 1" w4] less.prems(2) w4 by simp
  qed
qed

lemma Q_do_loop:
  "I w \<Longrightarrow> do_loop env cfg call committed req ts errs w = (Ret (x, None), w') \<Longrightarrow> \<exists>t \<in> set ts. x = Some t \<and> Q t (call_request req t) w'"
proof (induction ts arbitrary: errs w)
  case (Cons t ts)
  obtain ok st w1 where a: "ee_allow env (provider_Name (tg_Provider t)) w = ((ok, st), w1)" by (metis surj_pair)
  have w1: "I w1" using I_allow[OF Cons.prems(1)] a by (metis snd_conv)
  obtain res w2 where r: "attemptWithRetries env cfg call committed t req st w1 = (res, w2)" by (metis surj_pair)
  have w2: "I w2" using I_attempt_loop[OF w1] r by (metis attemptWithRetries_def snd_conv)
  have served: "Q t (call_request req t) w2" if "res = Ret None"
    using Q_attempt_loop[OF w1, of 1 "max_attempts cfg"] r that by (simp add: attemptWithRetries_def max_attempts_def call_request_def)
  show ?case
    using Cons.prems(2) Cons.IH[OF I_report_attempt[OF w1]] Cons.IH[OF w2] a r served
    by (auto simp: Let_def split: if_splits go.splits option.splits)
qed simp

lemma Q_exec_do:
  "I w \<Longrightarrow> exec_do env cfg call committed req targets w = (Ret (x, None), w') \<Longrightarrow> \<exists>t \<in> set targets. x = Some t \<and> Q t (call_request req t) w'"
  by (auto simp: exec_do_def dest: Q_do_loop split: if_splits)

end

end
