(* ===== verification/Obs.thy ===== *)
theory Obs
  imports Cache ExecRules
begin

text \<open>
  \<open>internal/obs/metrics.go\<close>: the collectors and what each event adds to them. A counter vector is a function from the
  values of its labels; a histogram is the list of its observations, newest last. \<open>Counter.Add\<close> panics on a
  negative amount, which is \<open>None\<close>. Durations are nanoseconds, read in seconds.
\<close>

record obs_metrics =
  om_RequestsTotal :: "string \<times> string \<times> string \<Rightarrow> float64"
  om_RequestDuration :: "string \<times> string \<Rightarrow> float64 list"
  om_CacheLookups :: "string \<times> string \<Rightarrow> float64"
  om_CacheLookupTime :: "string \<Rightarrow> float64 list"
  om_CacheWrites :: "string \<times> string \<Rightarrow> float64"
  om_Similarity :: "string \<Rightarrow> float64 list"
  om_ProviderAttempts :: "string \<times> string \<times> string \<Rightarrow> float64"
  om_ProviderDuration :: "string \<times> string \<Rightarrow> float64 list"
  om_BreakerState :: "string \<Rightarrow> float64"
  om_TokensTotal :: "string \<times> string \<times> string \<Rightarrow> float64"
  om_CostUSDTotal :: "string \<times> string \<Rightarrow> float64"
  om_SavedUSDTotal :: "string \<times> string \<Rightarrow> float64"

text \<open>
  What \<open>NewMetrics\<close> registers: name, labels, and the buckets of a histogram. Prometheus panics on a second collector of the same
  name and on buckets that do not increase; \<open>FalseHits\<close>, \<open>MeterDropped\<close> and \<open>MeterFailed\<close> are registered and never touched.
\<close>

definition latencyBuckets :: "float64 list" where
  "latencyBuckets =
     [5 / 10000, 1 / 1000, 5 / 1000, 1 / 100, 5 / 100, 1 / 10, 25 / 100, 5 / 10, 1, 2, 5, 10, 20, 30, 60]"

definition collectors :: "(string \<times> string list \<times> float64 list option) list" where
  "collectors =
     [(''gateway_requests_total'', [''path'', ''status'', ''cache''], None),
      (''gateway_request_duration_seconds'', [''path'', ''cache''], Some latencyBuckets),
      (''gateway_cache_lookups_total'', [''status'', ''tier''], None),
      (''gateway_cache_lookup_duration_seconds'', [''tier''],
        Some [1 / 10000, 5 / 10000, 1 / 1000, 5 / 1000, 1 / 100, 5 / 100, 1 / 10, 5 / 10, 1]),
      (''gateway_cache_writes_total'', [''tier'', ''result''], None),
      (''gateway_cache_similarity'', [''accepted''],
        Some [5 / 10, 7 / 10, 8 / 10, 85 / 100, 9 / 10, 92 / 100, 94 / 100, 95 / 100, 96 / 100, 97 / 100, 98 / 100, 99 / 100, 1]),
      (''gateway_cache_false_hits_total'', [], None),
      (''gateway_provider_attempts_total'', [''provider'', ''model'', ''result''], None),
      (''gateway_provider_duration_seconds'', [''provider'', ''model''], Some latencyBuckets),
      (''gateway_breaker_state'', [''provider''], None),
      (''gateway_tokens_total'', [''provider'', ''model'', ''kind''], None),
      (''gateway_cost_usd_total'', [''provider'', ''model''], None),
      (''gateway_saved_usd_total'', [''model'', ''tier''], None),
      (''gateway_meter_dropped_total'', [], None),
      (''gateway_meter_failed_total'', [], None)]"

lemma NewMetrics_registers:
  "distinct (map fst collectors)" "list_all (\<lambda>(n, ls, b). case b of None \<Rightarrow> True | Some bs \<Rightarrow> sorted_wrt (<) bs) collectors"
  by (simp_all add: collectors_def latencyBuckets_def)

text \<open>What a scrape shows of a histogram: for every bucket the observations up to its bound, and their number.\<close>

definition exposed :: "float64 list \<Rightarrow> float64 list \<Rightarrow> nat list \<times> nat" where
  "exposed bs obs = (map (\<lambda>b. length (filter (\<lambda>v. v \<le> b) obs)) bs, length obs)"

lemma exposed_observe:
  "exposed bs (obs @ [v]) = (map2 (\<lambda>b n. if v \<le> b then Suc n else n) bs (fst (exposed bs obs)), Suc (snd (exposed bs obs)))"
  by (induction bs) (simp_all add: exposed_def)

lemma exposed_cumulative:
  assumes "sorted_wrt (<) bs"
  shows "sorted (fst (exposed bs obs))" "\<forall>n \<in> set (fst (exposed bs obs)). n \<le> snd (exposed bs obs)"
proof -
  have "length (filter (\<lambda>v. v \<le> b) obs) \<le> length (filter (\<lambda>v. v \<le> b') obs)" if "b < b'" for b b' :: rat
    using that by (induction obs) auto
  then show "sorted (fst (exposed bs obs))"
    using assms by (auto simp: exposed_def sorted_wrt_map intro: sorted_wrt_mono_rel[rotated])
  show "\<forall>n \<in> set (fst (exposed bs obs)). n \<le> snd (exposed bs obs)" by (auto simp: exposed_def)
qed

definition NewMetrics :: obs_metrics where
  "NewMetrics =
     \<lparr>om_RequestsTotal = (\<lambda>_. 0), om_RequestDuration = (\<lambda>_. []), om_CacheLookups = (\<lambda>_. 0),
      om_CacheLookupTime = (\<lambda>_. []), om_CacheWrites = (\<lambda>_. 0), om_Similarity = (\<lambda>_. []),
      om_ProviderAttempts = (\<lambda>_. 0), om_ProviderDuration = (\<lambda>_. []), om_BreakerState = (\<lambda>_. 0), om_TokensTotal = (\<lambda>_. 0),
      om_CostUSDTotal = (\<lambda>_. 0), om_SavedUSDTotal = (\<lambda>_. 0)\<rparr>"

definition bump :: "'l \<Rightarrow> float64 \<Rightarrow> ('l \<Rightarrow> float64) \<Rightarrow> ('l \<Rightarrow> float64)" where
  "bump l v c = c(l := c l + v)"

definition observe :: "'l \<Rightarrow> float64 \<Rightarrow> ('l \<Rightarrow> float64 list) \<Rightarrow> ('l \<Rightarrow> float64 list)" where
  "observe l v h = h(l := h l @ [v])"

definition in_seconds :: "duration \<Rightarrow> float64" where
  "in_seconds d = of_int d / of_int Second"

definition boolLabel :: "bool \<Rightarrow> string" where
  "boolLabel b = (if b then ''true'' else ''false'')"

section \<open>Cache events\<close>

definition obs_RecordLookup :: "cache_status \<Rightarrow> string \<Rightarrow> duration \<Rightarrow> obs_metrics \<Rightarrow> obs_metrics" where
  "obs_RecordLookup status tier dur m =
     m\<lparr>om_CacheLookups := bump (cache_status_string status, tier) 1 (om_CacheLookups m),
       om_CacheLookupTime := observe tier (in_seconds dur) (om_CacheLookupTime m)\<rparr>"

definition obs_RecordSimilarity :: "float64 \<Rightarrow> bool \<Rightarrow> obs_metrics \<Rightarrow> obs_metrics" where
  "obs_RecordSimilarity score accepted m =
     m\<lparr>om_Similarity := observe (boolLabel accepted) score (om_Similarity m)\<rparr>"

definition obs_RecordWrite :: "string \<Rightarrow> bool \<Rightarrow> obs_metrics \<Rightarrow> obs_metrics" where
  "obs_RecordWrite tier ok m =
     m\<lparr>om_CacheWrites := bump (tier, if ok then ''ok'' else ''error'') 1 (om_CacheWrites m)\<rparr>"

text \<open>\<open>record\<close>, \<open>recordWrite\<close> and \<open>recordSimilarity\<close> of the cache: its events reach the collectors, where there are any.\<close>

definition cache_record :: "cache_metric \<Rightarrow> duration \<Rightarrow> obs_metrics option \<Rightarrow> obs_metrics option" where
  "cache_record ev dur metrics =
     map_option (\<lambda>m. case ev of
        RecordLookup status tier \<Rightarrow> obs_RecordLookup status tier dur m
      | RecordSimilarity score accepted \<Rightarrow> obs_RecordSimilarity score accepted m
      | RecordWrite tier ok \<Rightarrow> obs_RecordWrite tier ok m) metrics"

section \<open>Requests and usage\<close>

definition obs_RecordRequest :: "string \<Rightarrow> int \<Rightarrow> string \<Rightarrow> duration \<Rightarrow> obs_metrics \<Rightarrow> obs_metrics" where
  "obs_RecordRequest path status cacheStatus dur m =
     m\<lparr>om_RequestsTotal := bump (path, Itoa status, cacheStatus) 1 (om_RequestsTotal m),
       om_RequestDuration := observe (path, cacheStatus) (in_seconds dur) (om_RequestDuration m)\<rparr>"

definition obs_RecordUsage ::
  "string \<Rightarrow> string \<Rightarrow> int \<Rightarrow> int \<Rightarrow> float64 \<Rightarrow> float64 \<Rightarrow> string \<Rightarrow> obs_metrics \<Rightarrow> obs_metrics option" where
  "obs_RecordUsage providerName model promptTokens completionTokens costUSD savedUSD cacheStatus m =
     (let p = (if providerName = '''' then ''none'' else providerName) in
      if promptTokens < 0 \<or> completionTokens < 0 then None
      else Some
        (let m1 = m\<lparr>om_TokensTotal := bump (p, model, ''completion'') (of_int completionTokens)
                     (bump (p, model, ''prompt'') (of_int promptTokens) (om_TokensTotal m))\<rparr>;
             m2 = (if costUSD > 0 then m1\<lparr>om_CostUSDTotal := bump (p, model) costUSD (om_CostUSDTotal m1)\<rparr> else m1)
         in if savedUSD > 0 then m2\<lparr>om_SavedUSDTotal := bump (model, cacheStatus) savedUSD (om_SavedUSDTotal m2)\<rparr> else m2))"

section \<open>Provider attempts\<close>

text \<open>\<open>OnAttempt\<close>, as \<open>build\<close> of \<open>cmd/gateway/main.go\<close> wires it; \<open>dur\<close> is the \<open>Duration\<close> of the attempt.\<close>

definition attempt_result :: "attempt_info \<Rightarrow> string" where
  "attempt_result info =
     (if ai_Skipped info then ''circuit_open''
      else case ai_Err info of
        None \<Rightarrow> ''success''
      | Some e \<Rightarrow> (case AsError e of Some pe \<Rightarrow> kind_string (pe_Kind pe) | None \<Rightarrow> ''error''))"

definition on_attempt :: "attempt_info \<Rightarrow> duration \<Rightarrow> obs_metrics \<Rightarrow> obs_metrics" where
  "on_attempt info dur m =
     (let m1 = m\<lparr>om_ProviderAttempts := bump (ai_Provider info, ai_Model info, attempt_result info) 1 (om_ProviderAttempts m)\<rparr>;
          m2 = (if \<not> ai_Skipped info
                then m1\<lparr>om_ProviderDuration := observe (ai_Provider info, ai_Model info) (in_seconds dur) (om_ProviderDuration m1)\<rparr>
                else m1)
      in m2\<lparr>om_BreakerState := (om_BreakerState m2)(ai_Provider info := of_nat (BreakerStateValue (ai_BreakerState info)))\<rparr>)"

text \<open>
  The executor with this hook: \<open>attemptWithRetries\<close> reads the clock before a call and after it, and reports the difference. The world
  holds the time at which the call under way began, and the collectors.
\<close>

definition observed :: "('w \<Rightarrow> instant) \<Rightarrow> 'w exec_env \<Rightarrow> ('w \<times> instant \<times> obs_metrics) exec_env" where
  "observed now env =
     \<lparr>ee_ctx_err = (\<lambda>(w, x). ee_ctx_err env w),
      ee_wait = (\<lambda>d (w, x). let (e, w') = ee_wait env d w in (e, (w', x))),
      ee_int63n = (\<lambda>n (w, x). let (i, w') = ee_int63n env n w in (i, (w', x))),
      ee_allow = (\<lambda>p (w, x). let (a, w') = ee_allow env p w in (a, (w', x))),
      ee_record = (\<lambda>p ok (w, x). (ee_record env p ok w, x)),
      ee_report = (\<lambda>i (w, start, m). (ee_report env i w, (start, on_attempt i (now w - start) m)))\<rparr>"

definition timed_call :: "('w \<Rightarrow> instant) \<Rightarrow> 'w caller \<Rightarrow> ('w \<times> instant \<times> obs_metrics) caller" where
  "timed_call now call t r = (\<lambda>(w, _, m). let (e, w') = call t r w in (e, (w', (now w, m))))"

lemmas obs_defs = obs_RecordLookup_def obs_RecordSimilarity_def obs_RecordWrite_def obs_RecordRequest_def on_attempt_def
  bump_def observe_def

text \<open>A request event touches the request collectors alone; a usage event never touches them.\<close>

lemma obs_RecordRequest_frame [frame_simps]:
  "om_TokensTotal (obs_RecordRequest p s c d m) = om_TokensTotal m"
  "om_CostUSDTotal (obs_RecordRequest p s c d m) = om_CostUSDTotal m"
  "om_SavedUSDTotal (obs_RecordRequest p s c d m) = om_SavedUSDTotal m"
  by (simp_all add: obs_defs)

lemma obs_RecordUsage_frame:
  "obs_RecordUsage p md i j c s st m = Some m' \<Longrightarrow> om_RequestsTotal m' = om_RequestsTotal m"
  by (auto simp: obs_RecordUsage_def Let_def split: if_splits)

section \<open>What the attempt collectors tell\<close>

definition reported :: "(attempt_info \<Rightarrow> bool) \<Rightarrow> exec_event list \<Rightarrow> nat" where
  "reported P l = length (filter (\<lambda>e. case e of EReport i \<Rightarrow> P i | _ \<Rightarrow> False) l)"

definition called :: "string \<Rightarrow> string \<Rightarrow> exec_event list \<Rightarrow> nat" where
  "called p md l =
     length (filter (\<lambda>e. case e of ECall t r x \<Rightarrow> provider_Name (tg_Provider t) = p \<and> tg_Model t = md | _ \<Rightarrow> False) l)"

lemma reported_simps [simp]:
  "reported P [] = 0" "reported P (es @ fs) = reported P es + reported P fs"
  "reported P (EReport i # es) = (if P i then Suc (reported P es) else reported P es)"
  "reported P (ECall t r e # es) = reported P es" "reported P (EAllow q a st # es) = reported P es"
  "reported P (ERecord q ok # es) = reported P es" "reported P (EWait d x # es) = reported P es"
  "reported P (EOpen t cs e # es) = reported P es" "reported P (EChunk c # es) = reported P es"
  by (simp_all add: reported_def)

lemma called_simps [simp]:
  "called p md [] = 0" "called p md (es @ fs) = called p md es + called p md fs"
  "called p md (ECall t r e # es) =
     (if provider_Name (tg_Provider t) = p \<and> tg_Model t = md then Suc (called p md es) else called p md es)"
  "called p md (EReport i # es) = called p md es" "called p md (EAllow q a st # es) = called p md es"
  "called p md (ERecord q ok # es) = called p md es" "called p md (EWait d x # es) = called p md es"
  by (simp_all add: called_def)

text \<open>In the protocol, an attempt that was not skipped is reported exactly once for every call.\<close>

definition ran :: "string \<Rightarrow> string \<Rightarrow> attempt_info \<Rightarrow> bool" where
  "ran p md i \<longleftrightarrow> \<not> ai_Skipped i \<and> ai_Provider i = p \<and> ai_Model i = md"

lemma fault_events_silent [simp]: "reported P (fault_events t e) = 0" "called p md (fault_events t e) = 0"
  by (simp_all add: fault_events_def split: option.split)

lemma report_of_simps [simp]:
  "reported (ran p md) (report_of t st a e sk # es) =
     (if \<not> sk \<and> provider_Name (tg_Provider t) = p \<and> tg_Model t = md then Suc (reported (ran p md) es) else reported (ran p md) es)"
  "called p md (report_of t st a e sk # es) = called p md es"
  by (simp_all add: report_of_def ran_def)

lemma attempt_trace_reports: "attempt_trace cfg t r st a es res \<Longrightarrow> reported (ran p md) es = called p md es"
  by (induction rule: attempt_trace.induct) (auto simp: failed_call_def)

lemma failover_trace_reports: "failover_trace cfg req errs ts es res \<Longrightarrow> reported (ran p md) es = called p md es"
  by (induction rule: failover_trace.induct) (auto simp: attempt_trace_reports)

text \<open>What the collectors hold after the events of a log.\<close>

definition tells :: "obs_metrics \<Rightarrow> obs_metrics \<Rightarrow> exec_event list \<Rightarrow> bool" where
  "tells m0 m l \<longleftrightarrow>
     (\<forall>p md r. om_ProviderAttempts m (p, md, r) = om_ProviderAttempts m0 (p, md, r) +
        of_nat (reported (\<lambda>i. ai_Provider i = p \<and> ai_Model i = md \<and> attempt_result i = r) l)) \<and>
     (\<forall>p md. length (om_ProviderDuration m (p, md)) = length (om_ProviderDuration m0 (p, md)) + reported (ran p md) l)"

lemma tells_report: "tells m0 m l \<Longrightarrow> tells m0 (on_attempt i d m) (l @ [EReport i])"
  by (auto simp: tells_def on_attempt_def bump_def observe_def ran_def Let_def)

lemma tells_other: "tells m0 m l \<Longrightarrow> (\<And>i. e \<noteq> EReport i) \<Longrightarrow> tells m0 m (l @ [e])"
  by (cases e) (auto simp: tells_def)

lemma observed_simps:
  "ee_wait (observed now env) d (w, x) = (fst (ee_wait env d w), (snd (ee_wait env d w), x))"
  "ee_int63n (observed now env) n (w, x) = (fst (ee_int63n env n w), (snd (ee_int63n env n w), x))"
  "ee_allow (observed now env) p (w, x) = (fst (ee_allow env p w), (snd (ee_allow env p w), x))"
  "ee_record (observed now env) p ok (w, x) = (ee_record env p ok w, x)"
  "ee_report (observed now env) i (w, st, m) = (ee_report env i w, (st, on_attempt i (now w - st) m))"
  "timed_call now call t r (w, st, m) = (fst (call t r w), (snd (call t r w), (now w, m)))"
  by (simp_all add: observed_def timed_call_def split_beta)

interpretation attempts: exec_invariant "traced (observed now env)" "traced_call (timed_call now call)"
    "\<lambda>((w, st, m), l). tells m0 m l" for now env call m0
  by unfold_locales (auto simp: frame_simps observed_simps tells_report tells_other)

text \<open>
  The attempt collectors tell what happened. After a failover, whatever its providers, breaker and clock did, the counter of
  a provider, a model and a result has grown by the attempts that ended so, skipped targets included, and the latency histogram of
  a provider and a model has one observation more for every call that was made of them, and none for a skipped target.
\<close>

theorem attempts_metric_exact:
  assumes "do_traced (observed now env) cfg (timed_call now call) com req targets (w, st, m0) = (res, ((w', st', m), l))"
  shows "om_ProviderAttempts m (p, md, r) = om_ProviderAttempts m0 (p, md, r) +
      of_nat (reported (\<lambda>i. ai_Provider i = p \<and> ai_Model i = md \<and> attempt_result i = r) l) \<and>
    length (om_ProviderDuration m (p, md)) = length (om_ProviderDuration m0 (p, md)) + called p md l"
proof -
  have "tells m0 m l"
    using attempts.I_exec_do[of m0 "((w, st, m0), [])" now env cfg call "\<lambda>(w, l). com w" req targets] assms
    by (simp add: do_traced_def tells_def)
  moreover have "reported (ran p md) l = called p md l"
  proof (cases "targets = []")
    case False
    from do_traced_protocol[OF this, of cfg req "observed now env" "timed_call now call" com "(w, st, m0)"]
    show ?thesis using assms failover_trace_reports by auto
  qed (use assms in simp)
  ultimately show ?thesis by (simp add: tells_def)
qed

theorem attempts_metric_exact_witness:
  "\<exists>res w' st' m l. do_traced (observed (\<lambda>w. 7) script_env) default_exec (timed_call (\<lambda>w. 7) script_call) (\<lambda>_. False) demo_request
     [demo_target ''a''] ([Some (fault KindAuth)], 0, NewMetrics) = (res, ((w', st', m), l)) \<and>
     om_ProviderAttempts m (''a'', ''m'', ''auth'') = of_nat (reported (\<lambda>i. ai_Provider i = ''a'' \<and> ai_Model i = ''m'' \<and> attempt_result i = ''auth'') l)"
proof -
  obtain res w' st' m l where run: "do_traced (observed (\<lambda>w. 7) script_env) default_exec (timed_call (\<lambda>w. 7) script_call) (\<lambda>_. False)
      demo_request [demo_target ''a''] ([Some (fault KindAuth)], 0, NewMetrics) = (res, ((w', st', m), l))"
    by (metis surj_pair)
  from attempts_metric_exact[OF run, of "''a''" "''m''" "''auth''"] run show ?thesis by (auto simp: NewMetrics_def)
qed

end
