(* ===== verification/Http.thy ===== *)
theory Http
  imports RateLimit Meter Obs
begin

text \<open>
  The HTTP surface of \<open>internal/api\<close> without its handlers: the response writer and its recorder, error bodies,
  JSON bodies in and out, and the middleware of \<open>middleware.go\<close>. A body is the list of what was encoded
  into it; \<open>json.Encode\<close> cannot fail on these values. What net/http does with a response is written out:
  the first \<open>WriteHeader\<close> sends the header as it is then, later ones and later \<open>Header().Set\<close> have no effect
  on the wire, and a write without one sends 200.
\<close>

section \<open>Bodies\<close>

record error_detail =
  erd_Message :: string
  erd_Type :: string
  erd_Param :: "string option"
  erd_Code :: "string option"

datatype body_part =
    ErrorJSON error_detail
  | ChatJSON chat_response
  | EmbeddingJSON embedding_response
  | ModelsJSON "string list"
  | StatusJSON "(string \<times> string) list"
  | PlainText string
  | EventChunk chat_chunk
  | EventError error_detail
  | EventDone

section \<open>The response writer\<close>

text \<open>
  \<open>rw_faults\<close> is the fate of the writes to come: \<open>None\<close> one that succeeds, else the bytes that got through and the
  error; an empty list is a connection that holds. \<open>rw_size\<close> is the encoded length of a part.
\<close>

record response_writer =
  rw_Header :: "string \<rightharpoonup> string"
  rw_sent :: "(int \<times> (string \<rightharpoonup> string)) option"
  rw_body :: "body_part list"
  rw_faults :: "(nat \<times> go_error) option list"
  rw_size :: "body_part \<Rightarrow> nat"

definition rw_WriteHeader :: "int \<Rightarrow> response_writer \<Rightarrow> response_writer" where
  "rw_WriteHeader code w = (case rw_sent w of None \<Rightarrow> w\<lparr>rw_sent := Some (code, rw_Header w)\<rparr> | Some _ \<Rightarrow> w)"

definition rw_Write :: "body_part \<Rightarrow> response_writer \<Rightarrow> (nat \<times> go_error option) \<times> response_writer" where
  "rw_Write b w =
     (let w1 = rw_WriteHeader 200 w in
      case rw_faults w1 of
        [] \<Rightarrow> ((rw_size w1 b, None), w1\<lparr>rw_body := rw_body w1 @ [b]\<rparr>)
      | None # fs \<Rightarrow> ((rw_size w1 b, None), w1\<lparr>rw_body := rw_body w1 @ [b], rw_faults := fs\<rparr>)
      | Some (n, e) # fs \<Rightarrow> ((n, Some e), w1\<lparr>rw_faults := fs\<rparr>))"

text \<open>\<open>statusRecorder\<close>, which every handler writes to.\<close>

record status_recorder =
  sr_w :: response_writer
  sr_status :: int
  sr_written :: nat
  sr_wroteHeader :: bool

definition new_recorder :: "response_writer \<Rightarrow> status_recorder" where
  "new_recorder w = \<lparr>sr_w = w, sr_status = 200, sr_written = 0, sr_wroteHeader = False\<rparr>"

definition Set_header :: "string \<Rightarrow> string \<Rightarrow> status_recorder \<Rightarrow> status_recorder" where
  "Set_header k v r = r\<lparr>sr_w := (sr_w r)\<lparr>rw_Header := (rw_Header (sr_w r))(k \<mapsto> v)\<rparr>\<rparr>"

definition WriteHeader :: "int \<Rightarrow> status_recorder \<Rightarrow> status_recorder" where
  "WriteHeader code r =
     (if sr_wroteHeader r then r
      else r\<lparr>sr_wroteHeader := True, sr_status := code, sr_w := rw_WriteHeader code (sr_w r)\<rparr>)"

definition Write :: "body_part \<Rightarrow> status_recorder \<Rightarrow> go_error option \<times> status_recorder" where
  "Write b r =
     (let r1 = (if sr_wroteHeader r then r else WriteHeader 200 r);
          ((n, e), w) = rw_Write b (sr_w r1)
      in (e, r1\<lparr>sr_w := w, sr_written := sr_written r1 + n\<rparr>))"

section \<open>Errors and JSON\<close>

fun errorType :: "kind \<Rightarrow> string" where
  "errorType KindInvalidRequest = ''invalid_request_error''"
| "errorType KindContextLength = ''invalid_request_error''"
| "errorType KindAuth = ''authentication_error''"
| "errorType KindRateLimit = ''rate_limit_error''"
| "errorType KindContentFilter = ''content_filter_error''"
| "errorType _ = ''api_error''"

definition writeJSON :: "int \<Rightarrow> body_part \<Rightarrow> status_recorder \<Rightarrow> status_recorder" where
  "writeJSON status v r = snd (Write v (WriteHeader status (Set_header ''Content-Type'' ''application/json'' r)))"

definition writeError :: "int \<Rightarrow> string \<Rightarrow> string \<Rightarrow> string \<Rightarrow> status_recorder \<Rightarrow> status_recorder" where
  "writeError status typ msg code r =
     writeJSON status
       (ErrorJSON \<lparr>erd_Message = msg, erd_Type = typ, erd_Param = None,
                   erd_Code = (if code \<noteq> '''' then Some code else None)\<rparr>) r"

definition writeProviderError :: "go_error \<Rightarrow> status_recorder \<Rightarrow> status_recorder" where
  "writeProviderError err r =
     (case AsError err of
        Some pe \<Rightarrow> writeError (HTTPStatus pe) (errorType (pe_Kind pe)) (pe_Message pe) (kind_string (pe_Kind pe)) r
      | None \<Rightarrow> writeError 500 ''api_error'' (error_text err) '''' r)"

definition writeBadRequest :: "string \<Rightarrow> status_recorder \<Rightarrow> status_recorder" where
  "writeBadRequest msg r = writeError 400 ''invalid_request_error'' msg '''' r"

text \<open>
  A JSON decoder with unknown fields disallowed, on the bytes it can read: the value or its error, or that the
  input ended before the value did. \<open>http.MaxBytesReader\<close> fails the read past the limit.
\<close>

datatype 'a json_read = Complete "string + 'a" | Incomplete string

definition decodeJSON :: "(string \<Rightarrow> 'a json_read) \<Rightarrow> int \<Rightarrow> string \<Rightarrow> status_recorder \<Rightarrow> 'a option \<times> status_recorder" where
  "decodeJSON decode maxBytes body r =
     (case decode (take (nat maxBytes) body) of
        Complete (Inr v) \<Rightarrow> (Some v, r)
      | Complete (Inl e) \<Rightarrow> (None, writeBadRequest (''invalid JSON body: '' @ e) r)
      | Incomplete e \<Rightarrow>
          if int (length body) > maxBytes
          then (None, writeError 413 ''invalid_request_error'' ''request body too large'' '''' r)
          else (None, writeBadRequest (''invalid JSON body: '' @ e) r))"

section \<open>Requests and the state of the server\<close>

text \<open>The context of a request is in its fields; \<open>WithContext\<close> makes a copy, so a field set inside is not seen outside.\<close>

record http_req =
  rq_Method :: string
  rq_Host :: string
  rq_Path :: string
  rq_Header :: "string \<Rightarrow> string"
  rq_Body :: string
  rq_RequestID :: string
  rq_Tenant :: "tenant option"
  rq_CacheStatus :: "string option"

record access_line =
  al_method :: string
  al_path :: string
  al_status :: int
  al_bytes :: nat
  al_request_id :: string
  al_tenant :: "string option"
  al_cache :: string

record cache_job =
  cj_Tenant :: string
  cj_Req :: chat_request
  cj_Entry :: cache_entry
  cj_Vec :: "float64 list option"

datatype panic = AbortHandler | PanicValue string

text \<open>
  \<open>sv_jobs\<close> are the goroutines started to write the cache, \<open>sv_pattern\<close> the route pattern the mux notes on the
  request, \<open>sv_panic\<close> a panic on its way up.
\<close>

record 'w srv =
  sv_rec :: status_recorder
  sv_world :: 'w
  sv_meter :: "meter option"
  sv_metrics :: "obs_metrics option"
  sv_jobs :: "cache_job list"
  sv_log :: "access_line list"
  sv_pattern :: string
  sv_panic :: "panic option"

type_synonym 'w handler = "http_req \<Rightarrow> 'w srv \<Rightarrow> 'w srv"

text \<open>Writing the response, and a step on the world.\<close>

definition respond :: "(status_recorder \<Rightarrow> status_recorder) \<Rightarrow> 'w srv \<Rightarrow> 'w srv" where
  "respond f s = s\<lparr>sv_rec := f (sv_rec s)\<rparr>"

definition panic_with :: "string \<Rightarrow> 'w srv \<Rightarrow> 'w srv" where
  "panic_with v s = s\<lparr>sv_panic := Some (PanicValue v)\<rparr>"

section \<open>Middleware\<close>

definition withRequestID :: "('w \<Rightarrow> string \<times> 'w) \<Rightarrow> (http_req \<Rightarrow> 'w srv \<times> response_writer \<Rightarrow> 'w srv \<times> response_writer) \<Rightarrow> http_req
    \<Rightarrow> 'w srv \<times> response_writer \<Rightarrow> 'w srv \<times> response_writer" where
  "withRequestID newID next rq = (\<lambda>(s, w).
     (let h = rq_Header rq ''X-Request-Id'';
          (rid, world) = (if h = '''' then newID (sv_world s) else (h, sv_world s))
      in next (rq\<lparr>rq_RequestID := rid\<rparr>)
           (s\<lparr>sv_world := world\<rparr>, w\<lparr>rw_Header := (rw_Header w)(''X-Request-Id'' \<mapsto> rid)\<rparr>)))"

definition routePattern :: "string \<Rightarrow> string" where
  "routePattern p = (if p \<noteq> '''' then p else ''unmatched'')"

text \<open>
  \<open>withAccessLog\<close> wraps the writer, runs the handler on its own request value and then reads that same value: tenant
  and cache status are those of \<open>rq\<close>.
\<close>

definition withAccessLog :: "('w \<Rightarrow> instant) \<Rightarrow> 'w handler \<Rightarrow> http_req \<Rightarrow> 'w srv \<times> response_writer \<Rightarrow> 'w srv \<times> response_writer" where
  "withAccessLog now next rq = (\<lambda>(s, w).
     (let start = now (sv_world s);
          s1 = next rq (s\<lparr>sv_rec := new_recorder w, sv_pattern := ''''\<rparr>);
          r = sv_rec s1;
          cacheStatus = (case rq_CacheStatus rq of None \<Rightarrow> '''' | Some c \<Rightarrow> c);
          line = \<lparr>al_method = rq_Method rq, al_path = rq_Path rq, al_status = sr_status r, al_bytes = sr_written r,
                  al_request_id = rq_RequestID rq, al_tenant = map_option tn_ID (rq_Tenant rq), al_cache = cacheStatus\<rparr>
      in if sv_panic s1 \<noteq> None then (s1, sr_w r)
         else
           (s1\<lparr>sv_log := sv_log s1 @ [line],
               sv_metrics := map_option (obs_RecordRequest (routePattern (sv_pattern s1)) (sr_status r) cacheStatus
                 (now (sv_world s1) - start)) (sv_metrics s1)\<rparr>, sr_w r)))"

definition withRecovery :: "'w handler \<Rightarrow> 'w handler" where
  "withRecovery next rq s =
     (let s1 = next rq s in
      case sv_panic s1 of
        Some (PanicValue v) \<Rightarrow>
          respond (writeError 500 ''api_error'' ''internal server error'' '''') (s1\<lparr>sv_panic := None\<rparr>)
      | _ \<Rightarrow> s1)"

definition withAuth :: "'w authenticator \<Rightarrow> 'w handler \<Rightarrow> 'w handler" where
  "withAuth auth next rq s =
     (let token = bearerToken (rq_Header rq) in
      if token = '''' then
        respond (writeError 401 ''authentication_error''
          (''missing API key: pass it as 'Authorization: Bearer <key>'' @ [CHR 0x27]) ''missing_api_key'') s
      else
        (let (res, world) = auth token (sv_world s); s1 = s\<lparr>sv_world := world\<rparr> in
         case res of
           Inl e \<Rightarrow>
             if errors_Is e ErrUnauthorized
             then respond (writeError 401 ''authentication_error'' ''invalid API key'' ''invalid_api_key'') s1
             else respond (writeError 503 ''api_error'' ''authentication temporarily unavailable'' '''') s1
         | Inr t \<Rightarrow> next (rq\<lparr>rq_Tenant := Some t\<rparr>) s1))"

definition set_headers :: "(string \<times> string) list \<Rightarrow> status_recorder \<Rightarrow> status_recorder" where
  "set_headers hs r = foldl (\<lambda>r (k, v). Set_header k v r) r hs"

definition withRateLimit ::
  "(tenant \<Rightarrow> 'w \<Rightarrow> (go_error + limit_result) \<times> 'w) option \<Rightarrow> 'w handler \<Rightarrow> 'w handler" where
  "withRateLimit limit next rq s =
     (case limit of
        None \<Rightarrow> next rq s
      | Some allow \<Rightarrow>
          (case rq_Tenant rq of
             None \<Rightarrow> next rq s
           | Some t \<Rightarrow>
               (let (res, world) = allow t (sv_world s); s1 = s\<lparr>sv_world := world\<rparr> in
                case res of
                  Inl e \<Rightarrow> next rq s1
                | Inr l \<Rightarrow>
                    (let s2 = respond (set_headers (writeHeaders l)) s1 in
                     if \<not> lr_Allowed l
                     then respond (writeError 429 ''rate_limit_error'' ''rate limit exceeded, retry later'' ''rate_limit_exceeded'') s2
                     else next rq s2))))"

definition protected ::
  "'w authenticator \<Rightarrow> (tenant \<Rightarrow> 'w \<Rightarrow> (go_error + limit_result) \<times> 'w) option \<Rightarrow> 'w handler \<Rightarrow> 'w handler" where
  "protected auth limit h = withAuth auth (withRateLimit limit h)"

end
