(* ===== verification/Mux.thy ===== *)
theory Mux
  imports GoStrings "HOL-Library.List_Lexorder" "HOL-Library.Char_ord"
begin

text \<open>
  The request multiplexer of \<open>net/http\<close>, as far as \<open>internal/api/server.go\<close> and \<open>cmd/gateway/main.go\<close> use it: which patterns
  \<open>Handle\<close> accepts (a malformed one and one that conflicts with an earlier one panic, \<open>None\<close>), and which of the
  registered patterns serves a request (the most specific). Paths of requests are taken as clean and unescaped; the redirects that make
  them so, and the one to a trailing slash, are left to the library.
\<close>

section \<open>Paths\<close>

fun split_path :: "string \<Rightarrow> string list" where
  "split_path [] = [[]]"
| "split_path (c # cs) =
     (if c = CHR ''/'' then [] # split_path cs
      else case split_path cs of [] \<Rightarrow> [[c]] | s # ss \<Rightarrow> (c # s) # ss)"

definition clean_step :: "string list \<Rightarrow> string \<Rightarrow> string list" where
  "clean_step out seg =
     (if seg = '''' \<or> seg = ''.'' then out else if seg = ''..'' then butlast out else out @ [seg])"

text \<open>\<open>cleanPath\<close> on a path with a leading slash.\<close>

definition cleanPath :: "string \<Rightarrow> string" where
  "cleanPath p =
     (let np = CHR ''/'' # Join ''/'' (foldl clean_step [] (split_path (tl p)))
      in if last p = CHR ''/'' \<and> np \<noteq> ''/'' then np @ ''/'' else np)"

definition hex_value :: "char \<Rightarrow> nat option" where
  "hex_value c =
     (let n = (of_char c :: nat) in
      if 48 \<le> n \<and> n \<le> 57 then Some (n - 48)
      else if 65 \<le> n \<and> n \<le> 70 then Some (n - 55)
      else if 97 \<le> n \<and> n \<le> 102 then Some (n - 87) else None)"

fun unescape :: "string \<Rightarrow> string option" where
  "unescape [] = Some []"
| "unescape (c # cs) =
     (if c = CHR ''%'' then
        (case cs of
           a # b # r \<Rightarrow>
             (case (hex_value a, hex_value b) of
                (Some x, Some y) \<Rightarrow> map_option (Cons (char_of (16 * x + y))) (unescape r)
              | _ \<Rightarrow> None)
         | _ \<Rightarrow> None)
      else map_option (Cons c) (unescape cs))"

definition pathUnescape :: "string \<Rightarrow> string" where
  "pathUnescape s = (case unescape s of None \<Rightarrow> s | Some u \<Rightarrow> u)"

section \<open>Patterns\<close>

text \<open>A segment: a literal (\<open>{$}\<close> is the literal slash), a wildcard, or a wildcard for the rest of the path (a trailing slash has no name).\<close>

datatype seg = Lit string | Wild string | Multi string

record pattern =
  pt_str :: string
  pt_method :: string
  pt_host :: string
  pt_segs :: "seg list"

definition is_alnum :: "char \<Rightarrow> bool" where
  "is_alnum c \<longleftrightarrow> is_digit c \<or> (let n = (of_char c :: nat) in 65 \<le> n \<and> n \<le> 90 \<or> 97 \<le> n \<and> n \<le> 122)"

definition validMethod :: "string \<Rightarrow> bool" where
  "validMethod m \<longleftrightarrow> m \<noteq> '''' \<and> list_all (\<lambda>c. is_alnum c \<or> c \<in> set (CHR 0x27 # CHR 0x60 # ''!#$%&*+-.^_|~'')) m"

definition isValidWildcardName :: "string \<Rightarrow> bool" where
  "isValidWildcardName s \<longleftrightarrow>
     s \<noteq> '''' \<and> \<not> is_digit (hd s) \<and> list_all (\<lambda>c. is_alnum c \<or> c = CHR ''_'') s"

fun parse_segs :: "string list \<Rightarrow> string list \<Rightarrow> seg list option" where
  "parse_segs seen [] = Some []"
| "parse_segs seen (s # rest) =
     (if s = '''' \<and> rest = [] then Some [Multi '''']
      else if CHR ''{'' \<notin> set s then map_option (Cons (Lit (pathUnescape s))) (parse_segs seen rest)
      else if hd s \<noteq> CHR ''{'' \<or> last s \<noteq> CHR ''}'' then None
      else
        (let name = butlast (tl s) in
         if name = ''$'' then (if rest = [] then Some [Lit ''/''] else None)
         else
           (let multi = HasPrefix (rev name) ''...'';
                base = (if multi then take (length name - 3) name else name)
            in if multi \<and> rest \<noteq> [] \<or> \<not> isValidWildcardName base \<or> base \<in> set seen then None
               else map_option (Cons (if multi then Multi base else Wild base)) (parse_segs (base # seen) rest))))"

definition is_blank :: "char \<Rightarrow> bool" where
  "is_blank c \<longleftrightarrow> c = CHR '' '' \<or> c = CHR 0x09"

definition parsePattern :: "string \<Rightarrow> pattern option" where
  "parsePattern s =
     (let spaced = list_ex is_blank s;
          m = (if spaced then takeWhile (\<lambda>c. \<not> is_blank c) s else '''');
          rest = (if spaced then dropWhile is_blank (dropWhile (\<lambda>c. \<not> is_blank c) s) else s);
          host = takeWhile (\<lambda>c. c \<noteq> CHR ''/'') rest;
          path = dropWhile (\<lambda>c. c \<noteq> CHR ''/'') rest
      in if m \<noteq> '''' \<and> \<not> validMethod m then None
         else if path = '''' then None
         else if CHR ''{'' \<in> set host then None
         else if m \<noteq> '''' \<and> m \<noteq> ''CONNECT'' \<and> cleanPath path \<noteq> path then None
         else map_option (\<lambda>ss. \<lparr>pt_str = s, pt_method = m, pt_host = host, pt_segs = ss\<rparr>) (parse_segs [] (split_path (tl path))))"

section \<open>Which pattern is more specific\<close>

datatype relationship = Equivalent | MoreGeneral | MoreSpecific | Disjoint | Overlaps

fun inverseRelationship :: "relationship \<Rightarrow> relationship" where
  "inverseRelationship MoreSpecific = MoreGeneral"
| "inverseRelationship MoreGeneral = MoreSpecific"
| "inverseRelationship r = r"

fun combineRelationships :: "relationship \<Rightarrow> relationship \<Rightarrow> relationship" where
  "combineRelationships Equivalent r = r"
| "combineRelationships Disjoint r = Disjoint"
| "combineRelationships Overlaps r = (if r = Disjoint then Disjoint else Overlaps)"
| "combineRelationships q r =
     (if r = Equivalent then q else if r = inverseRelationship q then Overlaps else r)"

fun compareSegments :: "seg \<Rightarrow> seg \<Rightarrow> relationship" where
  "compareSegments (Multi a) (Multi b) = Equivalent"
| "compareSegments (Multi a) s = MoreGeneral"
| "compareSegments s (Multi b) = MoreSpecific"
| "compareSegments (Wild a) (Wild b) = Equivalent"
| "compareSegments (Wild a) (Lit b) = (if b = ''/'' then Disjoint else MoreGeneral)"
| "compareSegments (Lit a) (Wild b) = (if a = ''/'' then Disjoint else MoreSpecific)"
| "compareSegments (Lit a) (Lit b) = (if a = b then Equivalent else Disjoint)"

definition ends_multi :: "seg list \<Rightarrow> bool" where
  "ends_multi ss \<longleftrightarrow> (case rev ss of Multi n # _ \<Rightarrow> True | _ \<Rightarrow> False)"

text \<open>The loop of \<open>comparePaths\<close>; \<open>g\<close> and \<open>h\<close> tell whether the patterns end in a wildcard for the rest.\<close>

fun compare_loop :: "bool \<Rightarrow> bool \<Rightarrow> relationship \<Rightarrow> seg list \<Rightarrow> seg list \<Rightarrow> relationship" where
  "compare_loop g h rel [] [] = rel"
| "compare_loop g h rel (s # ss) (t # ts) =
     (let rel' = combineRelationships rel (compareSegments s t) in
      if rel' = Disjoint then Disjoint else compare_loop g h rel' ss ts)"
| "compare_loop g h rel [] (t # ts) = (if g then combineRelationships rel MoreGeneral else Disjoint)"
| "compare_loop g h rel (s # ss) [] = (if h then combineRelationships rel MoreSpecific else Disjoint)"

definition comparePaths :: "seg list \<Rightarrow> seg list \<Rightarrow> relationship" where
  "comparePaths ss ts =
     (if length ss \<noteq> length ts \<and> \<not> ends_multi ss \<and> \<not> ends_multi ts then Disjoint
      else compare_loop (ends_multi ss) (ends_multi ts) Equivalent ss ts)"

definition compareMethods :: "string \<Rightarrow> string \<Rightarrow> relationship" where
  "compareMethods m n =
     (if m = n then Equivalent
      else if m = '''' then MoreGeneral
      else if n = '''' then MoreSpecific
      else if m = ''GET'' \<and> n = ''HEAD'' then MoreGeneral
      else if n = ''GET'' \<and> m = ''HEAD'' then MoreSpecific
      else Disjoint)"

definition comparePathsAndMethods :: "pattern \<Rightarrow> pattern \<Rightarrow> relationship" where
  "comparePathsAndMethods p q =
     (let mrel = compareMethods (pt_method p) (pt_method q) in
      if mrel = Disjoint then Disjoint else combineRelationships mrel (comparePaths (pt_segs p) (pt_segs q)))"

definition conflictsWith :: "pattern \<Rightarrow> pattern \<Rightarrow> bool" where
  "conflictsWith p q \<longleftrightarrow>
     pt_host p = pt_host q \<and> comparePathsAndMethods p q \<in> {Equivalent, Overlaps}"

section \<open>Registering and serving\<close>

text \<open>\<open>Handle\<close>, and the calls of it that set up a mux.\<close>

definition mux_Handle :: "string \<Rightarrow> 'h \<Rightarrow> (pattern \<times> 'h) list \<Rightarrow> (pattern \<times> 'h) list option" where
  "mux_Handle s h m =
     (case parsePattern s of
        None \<Rightarrow> None
      | Some p \<Rightarrow> if list_ex (\<lambda>(q, _). conflictsWith p q) m then None else Some (m @ [(p, h)]))"

fun mux_register :: "(string \<times> 'h) list \<Rightarrow> (pattern \<times> 'h) list \<Rightarrow> (pattern \<times> 'h) list option" where
  "mux_register [] m = Some m"
| "mux_register ((s, h) # rts) m = (case mux_Handle s h m of None \<Rightarrow> None | Some m' \<Rightarrow> mux_register rts m')"

text \<open>The segments of a request's path, a trailing slash being one of its own, and whether a pattern serves it.\<close>

definition path_segs :: "string \<Rightarrow> string list" where
  "path_segs path = (let ss = split_path (tl path) in if last ss = '''' then butlast ss @ [''/''] else ss)"

fun segs_match :: "seg list \<Rightarrow> string list \<Rightarrow> bool" where
  "segs_match [] [] = True"
| "segs_match (Lit l # ss) (p # ps) = (l = p \<and> segs_match ss ps)"
| "segs_match (Wild n # ss) (p # ps) = (p \<noteq> ''/'' \<and> segs_match ss ps)"
| "segs_match (Multi n # ss) (p # ps) = True"
| "segs_match _ _ = False"

definition method_matches :: "string \<Rightarrow> string \<Rightarrow> bool" where
  "method_matches pattern m \<longleftrightarrow> pattern = '''' \<or> m = pattern \<or> pattern = ''GET'' \<and> m = ''HEAD''"

definition covers :: "pattern \<Rightarrow> string \<Rightarrow> string \<Rightarrow> bool" where
  "covers p host path \<longleftrightarrow> (pt_host p = '''' \<or> pt_host p = host) \<and> segs_match (pt_segs p) (path_segs path)"

definition more_specific :: "pattern \<Rightarrow> pattern \<Rightarrow> bool" where
  "more_specific p q \<longleftrightarrow>
     pt_host p \<noteq> '''' \<and> pt_host q = '''' \<or> pt_host p = pt_host q \<and> comparePathsAndMethods p q = MoreSpecific"

definition mux_find :: "(pattern \<times> 'h) list \<Rightarrow> string \<Rightarrow> string \<Rightarrow> string \<Rightarrow> (pattern \<times> 'h) option" where
  "mux_find m host meth path =
     (let ms = filter (\<lambda>(p, h). covers p host path \<and> method_matches (pt_method p) meth) m
      in List.find (\<lambda>(p, h). list_all (\<lambda>(q, _). \<not> more_specific q p) ms) ms)"

text \<open>
  The methods another request to the path could use, for the \<open>Allow\<close> header of a 405; patterns that cover the path with a
  slash at its end count.
\<close>

definition allowed_methods :: "(pattern \<times> 'h) list \<Rightarrow> string \<Rightarrow> string \<Rightarrow> string list" where
  "allowed_methods m host path =
     sort (remdups (concat (map (\<lambda>(p, h).
        if covers p host path \<or> last path \<noteq> CHR ''/'' \<and> covers p host (path @ ''/'')
        then pt_method p # (if pt_method p = ''GET'' then [''HEAD''] else []) else []) m)))"

section \<open>Against literal patterns\<close>

text \<open>Against a pattern of literals no pattern is more specific, and only its own copy is equivalent.\<close>

lemma ends_multi_Lit [simp]: "\<not> ends_multi (map Lit ts)"
  by (cases ts rule: rev_cases) (simp_all add: ends_multi_def)

lemma compare_loop_Lit:
  "rel \<in> {Equivalent, MoreGeneral} \<Longrightarrow> compare_loop g False rel ss (map Lit ts) \<in> {Equivalent, MoreGeneral, Disjoint} \<and>
     (compare_loop g False rel ss (map Lit ts) = Equivalent \<longleftrightarrow> rel = Equivalent \<and> ss = map Lit ts)"
proof (induction ss arbitrary: rel ts)
  case Nil
  then show ?case by (cases ts) auto
next
  case (Cons s ss)
  show ?case
  proof (cases ts)
    case (Cons t ts')
    let ?r = "combineRelationships rel (compareSegments s (Lit t))"
    have "?r = Disjoint \<or> ?r \<in> {Equivalent, MoreGeneral}" "?r = Equivalent \<longleftrightarrow> rel = Equivalent \<and> s = Lit t"
      using Cons.prems by (cases s; auto)+
    then show ?thesis using Cons.IH[of ?r ts'] Cons by (auto simp: Let_def)
  qed (use Cons.prems in auto)
qed

lemma comparePaths_Lit:
  "comparePaths ss (map Lit ts) \<in> {Equivalent, MoreGeneral, Disjoint}"
  "comparePaths ss (map Lit ts) = Equivalent \<longleftrightarrow> ss = map Lit ts"
  using compare_loop_Lit[of Equivalent "ends_multi ss" ss ts] by (auto simp: comparePaths_def)

lemma not_more_specific_Lit:
  assumes "pt_host q = ''''" "compareMethods (pt_method q) (pt_method p) \<in> {Equivalent, Disjoint}" "pt_segs p = map Lit ts"
  shows "\<not> more_specific q p"
  using comparePaths_Lit(1)[of "pt_segs q" ts] assms by (auto simp: more_specific_def comparePathsAndMethods_def Let_def)

lemma conflicts_Lit:
  assumes "pt_segs p = map Lit ts" "pt_method q \<noteq> ''''" "pt_method q \<noteq> ''HEAD''" "pt_method p \<noteq> ''''" "pt_method p \<noteq> ''HEAD''"
  shows "conflictsWith q p \<longleftrightarrow> pt_host q = pt_host p \<and> pt_method q = pt_method p \<and> pt_segs q = map Lit ts"
  using comparePaths_Lit[of "pt_segs q" ts] assms
  by (auto simp: conflictsWith_def comparePathsAndMethods_def compareMethods_def Let_def)

lemma segs_match_Lit: "segs_match (map Lit ts) ps \<longleftrightarrow> ps = ts"
proof (induction ts arbitrary: ps)
  case Nil
  then show ?case by (cases ps) auto
next
  case (Cons t ts)
  then show ?case by (cases ps) auto
qed

lemma mux_register_append:
  "mux_register (xs @ ys) m = (case mux_register xs m of None \<Rightarrow> None | Some m' \<Rightarrow> mux_register ys m')"
  by (induction xs m rule: mux_register.induct) (auto split: option.split)

text \<open>A path is determined by its segments.\<close>

lemma split_path_not_Nil [simp]: "split_path s \<noteq> []"
  by (induction s) (auto split: list.split)

lemma Join_split_path: "Join ''/'' (split_path s) = s"
proof (induction s)
  case (Cons c cs)
  obtain t ts where t: "split_path cs = t # ts" by (cases "split_path cs") auto
  then show ?case using Cons by (cases ts) auto
qed simp

lemma split_path_inject: "split_path s = split_path t \<longleftrightarrow> s = t"
  by (metis Join_split_path)

lemma split_path_slash: "split_path (s @ ''/'') = split_path s @ ['''']"
  by (induction s) (auto split: list.split)

lemma path_segs_literal:
  assumes "split_path c = ps" "last ps \<noteq> ''''" "last ps \<noteq> ''/''"
  shows "path_segs (CHR ''/'' # cs) = ps \<longleftrightarrow> cs = c"
proof (cases "last (split_path cs) = ''''")
  case True
  then have "last (path_segs (CHR ''/'' # cs)) = ''/''" by (simp add: path_segs_def Let_def)
  moreover have "cs \<noteq> c" using True assms by auto
  ultimately show ?thesis using assms(3) by auto
next
  case False
  then show ?thesis using assms(1) by (auto simp: path_segs_def Let_def split_path_inject)
qed

lemma path_segs_slash: "last (path_segs ((CHR ''/'' # cs) @ ''/'')) = ''/''"
  by (simp add: path_segs_def split_path_slash Let_def)

text \<open>Registering stops at the first pattern that cannot be registered, whatever the handlers are.\<close>

lemma mux_register_map:
  "mux_register (map (\<lambda>(s, h). (s, f h)) rts) (map (\<lambda>(p, h). (p, f h)) m) = map_option (map (\<lambda>(p, h). (p, f h))) (mux_register rts m)"
proof (induction rts m rule: mux_register.induct)
  case (2 s h rts m)
  have "list_ex (\<lambda>(q, _). conflictsWith p q) (map (\<lambda>(p, h). (p, f h)) m) = list_ex (\<lambda>(q, _). conflictsWith p q) m" for p
    by (simp add: list_ex_iff split_beta)
  then show ?case using 2 by (auto simp: mux_Handle_def split: option.split)
qed simp

lemmas pattern_defs = parsePattern_def is_blank_def validMethod_def is_alnum_def is_digit_def cleanPath_def clean_step_def
  pathUnescape_def isValidWildcardName_def HasPrefix_def Let_def

end

