(* ===== verification/Chat.thy ===== *)
theory Chat
  imports Http Mux
begin

text \<open>
  \<open>internal/api/chat.go\<close> and the handlers of \<open>server.go\<close>: a completion from the cache lookup over routing and the provider
  call to the cache write and the usage row, unary and streamed, and the embeddings, models and health
  endpoints. \<open>deps\<close> holds the collaborators; what runs outside the program (the provider calls, Redis, the clock, random
  numbers) is a function on the world \<open>'w\<close> in it. A nil pointer that the code would dereference is a panic.
\<close>

section \<open>Collaborators\<close>

record ('w, 'b) deps =
  dp_MaxBodyBytes :: int
  dp_decode_chat :: "string \<Rightarrow> chat_request json_read"
  dp_decode_embed :: "string \<Rightarrow> embedding_request json_read"
  dp_router :: router
  dp_intn :: "int \<Rightarrow> 'w \<Rightarrow> int \<times> 'w"
  dp_exec :: "'w exec_env"
  dp_exec_cfg :: exec_config
  dp_chat :: "target \<Rightarrow> chat_request \<Rightarrow> 'w \<Rightarrow> (go_error + chat_response) \<times> 'w"
  dp_stream :: "'w opener"
  dp_embed :: "target \<Rightarrow> embedding_request \<Rightarrow> 'w \<Rightarrow> (go_error + embedding_response) \<times> 'w"
  dp_auth :: "'w authenticator"
  dp_limit :: "(tenant \<Rightarrow> 'w \<Rightarrow> (go_error + limit_result) \<times> 'w) option"
  dp_cache :: "(('w, 'b) cache_env \<times> cache) option"
  dp_prices :: "string \<rightharpoonup> price"
  dp_now :: "'w \<Rightarrow> instant"
  dp_newID :: "'w \<Rightarrow> string \<times> 'w"
  dp_metrics_page :: "(string \<times> string) option"

record request_context =
  rc_tenant :: tenant
  rc_req :: chat_request
  rc_start :: instant
  rc_reqID :: string
  rc_status :: string
  rc_streamed :: bool

text \<open>The text of a routing error. \<open>%q\<close> quotes the name.\<close>

fun route_error_text :: "route_error \<Rightarrow> string" where
  "route_error_text (NotConfigured m) = ''model '' @ quoted m @ '' is not a configured alias''"
| "route_error_text (DefaultNotConfigured a) = ''default alias '' @ quoted a @ '' is not configured''"
| "route_error_text (AliasWithoutTargets a) = ''alias '' @ quoted a @ '' has no targets''"
| "route_error_text RoutePanic = ''''"

definition noCacheRequested :: "http_req \<Rightarrow> bool" where
  "noCacheRequested rq =
     (if EqualFold (rq_Header rq ''X-No-Cache'') ''true'' then True
      else Contains (ToLower (rq_Header rq ''Cache-Control'')) ''no-cache'')"

section \<open>Metering\<close>

definition latency_ms :: "('w, 'b) deps \<Rightarrow> request_context \<Rightarrow> 'w srv \<Rightarrow> int" where
  "latency_ms d rc s = go_div (dp_now d (sv_world s) - rc_start rc) Millisecond"

definition record_row :: "('w, 'b) deps \<Rightarrow> usage_row \<Rightarrow> 'w srv \<Rightarrow> 'w srv" where
  "record_row d row s =
     (case sv_meter s of
        None \<Rightarrow> s
      | Some m \<Rightarrow>
          (case meter_Record (dp_now d (sv_world s)) row m of
             None \<Rightarrow> panic_with ''send on closed channel'' s
           | Some m' \<Rightarrow> s\<lparr>sv_meter := Some m'\<rparr>))"

definition record_usage ::
  "string \<Rightarrow> string \<Rightarrow> int \<Rightarrow> int \<Rightarrow> float64 \<Rightarrow> float64 \<Rightarrow> string \<Rightarrow> 'w srv \<Rightarrow> 'w srv" where
  "record_usage prov model i j cost saved st s =
     (case sv_metrics s of
        None \<Rightarrow> s
      | Some mx \<Rightarrow>
          (case obs_RecordUsage prov model i j cost saved st mx of
             None \<Rightarrow> panic_with ''counter cannot decrease in value'' s
           | Some mx' \<Rightarrow> s\<lparr>sv_metrics := Some mx'\<rparr>))"

definition success_row ::
  "('w, 'b) deps \<Rightarrow> request_context \<Rightarrow> target \<Rightarrow> usage \<Rightarrow> cache_status \<Rightarrow> 'w srv \<Rightarrow> usage_row" where
  "success_row d rc t u st s =
     \<lparr>ur_RequestID = rc_reqID rc, ur_TenantID = tn_ID (rc_tenant rc), ur_KeyID = tn_KeyID (rc_tenant rc),
      ur_Provider = provider_Name (tg_Provider t), ur_Model = tg_Model t, ur_ModelAlias = cr_Model (rc_req rc),
      ur_PromptTokens = us_PromptTokens u, ur_CompletionTokens = us_CompletionTokens u,
      ur_CostUSD = fst (Cost (dp_prices d) (provider_Name (tg_Provider t)) (tg_Model t) (us_PromptTokens u) (us_CompletionTokens u)),
      ur_SavedUSD = 0, ur_CacheStatus = cache_status_string st, ur_Streamed = rc_streamed rc, ur_StatusCode = 200,
      ur_LatencyMS = latency_ms d rc s, ur_Attempts = 1, ur_ErrorKind = '''', ur_CreatedAt = None\<rparr>"

definition meterSuccess ::
  "('w, 'b) deps \<Rightarrow> request_context \<Rightarrow> target \<Rightarrow> usage \<Rightarrow> cache_status \<Rightarrow> 'w srv \<Rightarrow> 'w srv" where
  "meterSuccess d rc t u st s =
     (let p = provider_Name (tg_Provider t);
          cost = fst (Cost (dp_prices d) p (tg_Model t) (us_PromptTokens u) (us_CompletionTokens u));
          s1 = record_usage p (tg_Model t) (us_PromptTokens u) (us_CompletionTokens u) cost 0 (cache_status_string st) s
      in if sv_panic s1 \<noteq> None then s1 else record_row d (success_row d rc t u st s1) s1)"

definition hit_row :: "('w, 'b) deps \<Rightarrow> request_context \<Rightarrow> cache_status \<Rightarrow> cache_entry \<Rightarrow> 'w srv \<Rightarrow> usage_row" where
  "hit_row d rc st e s =
     \<lparr>ur_RequestID = rc_reqID rc, ur_TenantID = tn_ID (rc_tenant rc), ur_KeyID = tn_KeyID (rc_tenant rc),
      ur_Provider = ce_Provider e, ur_Model = ce_Model e, ur_ModelAlias = cr_Model (rc_req rc),
      ur_PromptTokens = ce_PromptTokens e, ur_CompletionTokens = ce_CompletionTokens e, ur_CostUSD = 0,
      ur_SavedUSD = fst (Cost (dp_prices d) (ce_Provider e) (ce_UpstreamModel e) (ce_PromptTokens e) (ce_CompletionTokens e)),
      ur_CacheStatus = cache_status_string st, ur_Streamed = rc_streamed rc, ur_StatusCode = 200,
      ur_LatencyMS = latency_ms d rc s, ur_Attempts = 0, ur_ErrorKind = '''', ur_CreatedAt = None\<rparr>"

definition meterCacheHit :: "('w, 'b) deps \<Rightarrow> request_context \<Rightarrow> cache_status \<Rightarrow> cache_entry \<Rightarrow> 'w srv \<Rightarrow> 'w srv" where
  "meterCacheHit d rc st e s =
     (let saved = fst (Cost (dp_prices d) (ce_Provider e) (ce_UpstreamModel e) (ce_PromptTokens e) (ce_CompletionTokens e));
          s1 = record_usage (ce_Provider e) (ce_UpstreamModel e) (ce_PromptTokens e) (ce_CompletionTokens e) 0 saved
                 (cache_status_string st) s
      in if sv_panic s1 \<noteq> None then s1 else record_row d (hit_row d rc st e s1) s1)"

definition failure_row :: "('w, 'b) deps \<Rightarrow> request_context \<Rightarrow> int \<Rightarrow> string \<Rightarrow> 'w srv \<Rightarrow> usage_row" where
  "failure_row d rc code kind s =
     \<lparr>ur_RequestID = rc_reqID rc, ur_TenantID = tn_ID (rc_tenant rc), ur_KeyID = tn_KeyID (rc_tenant rc),
      ur_Provider = '''', ur_Model = cr_Model (rc_req rc), ur_ModelAlias = cr_Model (rc_req rc), ur_PromptTokens = 0,
      ur_CompletionTokens = 0, ur_CostUSD = 0, ur_SavedUSD = 0, ur_CacheStatus = rc_status rc,
      ur_Streamed = rc_streamed rc, ur_StatusCode = code, ur_LatencyMS = latency_ms d rc s, ur_Attempts = 0,
      ur_ErrorKind = kind, ur_CreatedAt = None\<rparr>"

definition meterFailure :: "('w, 'b) deps \<Rightarrow> request_context \<Rightarrow> int \<Rightarrow> string \<Rightarrow> 'w srv \<Rightarrow> 'w srv" where
  "meterFailure d rc code kind s = record_row d (failure_row d rc code kind s) s"

definition failure_code :: "go_error \<Rightarrow> int \<times> string" where
  "failure_code err =
     (case AsError err of Some pe \<Rightarrow> (HTTPStatus pe, kind_string (pe_Kind pe)) | None \<Rightarrow> (500, ''internal''))"

definition meterProviderFailure :: "('w, 'b) deps \<Rightarrow> request_context \<Rightarrow> go_error \<Rightarrow> 'w srv \<Rightarrow> 'w srv" where
  "meterProviderFailure d rc err s = (case failure_code err of (code, kind) \<Rightarrow> meterFailure d rc code kind s)"

section \<open>Writing the cache\<close>

definition storeAsync ::
  "('w, 'b) deps \<Rightarrow> request_context \<Rightarrow> target \<Rightarrow> string \<Rightarrow> usage \<Rightarrow> float64 list option \<Rightarrow> 'w srv \<Rightarrow> 'w srv" where
  "storeAsync d rc t txt u vec s =
     (if dp_cache d = None \<or> txt = '''' then s
      else s\<lparr>sv_jobs := sv_jobs s @
        [\<lparr>cj_Tenant = tn_ID (rc_tenant rc), cj_Req = rc_req rc,
          cj_Entry = \<lparr>ce_Completion = txt, ce_Model = cr_Model (rc_req rc), ce_UpstreamModel = tg_Model t,
            ce_Provider = provider_Name (tg_Provider t), ce_Temp = Temp (rc_req rc), ce_MaxTokens = MaxTok (rc_req rc),
            ce_PromptTokens = us_PromptTokens u, ce_CompletionTokens = us_CompletionTokens u, ce_CreatedAt = 0,
            ce_Prompt = ''''\<rparr>,
          cj_Vec = vec\<rparr>]\<rparr>)"

text \<open>The body of the goroutine.\<close>

definition run_job :: "('w, 'b) cache_env \<Rightarrow> cache \<Rightarrow> cache_job \<Rightarrow> 'w \<Rightarrow> 'w" where
  "run_job x c j w = cache_Store x c (cj_Tenant j) (cj_Req j) (cj_Entry j) (cj_Vec j) w"

section \<open>Event streams\<close>

definition newStreamWriter :: "status_recorder \<Rightarrow> status_recorder" where
  "newStreamWriter r =
     WriteHeader 200 (set_headers [(''Content-Type'', ''text/event-stream''), (''Cache-Control'', ''no-cache''),
       (''Connection'', ''keep-alive''), (''X-Accel-Buffering'', ''no'')] r)"

definition sw_send :: "chat_chunk \<Rightarrow> status_recorder \<Rightarrow> go_error option \<times> status_recorder" where
  "sw_send c r =
     (case Write (EventChunk c) r of
        (Some e, r') \<Rightarrow> (Some (wrapf ''write chunk'' e), r')
      | (None, r') \<Rightarrow> (None, r'))"

definition sw_sendError :: "go_error \<Rightarrow> status_recorder \<Rightarrow> status_recorder" where
  "sw_sendError err r =
     (let detail = (case AsError err of
            Some pe \<Rightarrow> \<lparr>erd_Message = pe_Message pe, erd_Type = errorType (pe_Kind pe), erd_Param = None,
                        erd_Code = Some (kind_string (pe_Kind pe))\<rparr>
          | None \<Rightarrow> \<lparr>erd_Message = error_text err, erd_Type = ''api_error'', erd_Param = None, erd_Code = None\<rparr>)
      in snd (Write (EventError detail) r))"

definition sw_done :: "status_recorder \<Rightarrow> status_recorder" where
  "sw_done r = snd (Write EventDone r)"

section \<open>A cache hit\<close>

text \<open>\<open>fmt.Sprintf("%.4f", x)\<close> of a score that is not negative.\<close>

definition fmt_4f :: "float64 \<Rightarrow> string" where
  "fmt_4f x =
     (let n = round_half_even (x * 10000); r = nat_digits (nat (n mod 10000)) in
      Itoa (n div 10000) @ ''.'' @ replicate (4 - length r) (CHR ''0'') @ r)"

definition writeCacheHeaders :: "cache_result \<Rightarrow> status_recorder \<Rightarrow> status_recorder" where
  "writeCacheHeaders res r =
     (let r1 = Set_header ''X-Cache'' (cache_status_string (cres_Status res)) r in
      if cres_Status res = StatusSemanticHit
      then Set_header ''X-Cache-Similarity'' (fmt_4f (cres_Similarity res)) r1 else r1)"

definition cached_response :: "string \<Rightarrow> instant \<Rightarrow> string \<Rightarrow> cache_entry \<Rightarrow> chat_response" where
  "cached_response rid now model e =
     \<lparr>resp_ID = ''chatcmpl-'' @ rid, resp_Object = ''chat.completion'', resp_Created = unix_seconds now, resp_Model = model,
      resp_Choices = [\<lparr>ch_Index = 0,
        ch_Message = \<lparr>msg_Role = ''assistant'', msg_Content = ce_Completion e, msg_Name = ''''\<rparr>,
        ch_FinishReason = ''stop''\<rparr>],
      resp_Usage = \<lparr>us_PromptTokens = ce_PromptTokens e, us_CompletionTokens = ce_CompletionTokens e,
        us_TotalTokens = ce_PromptTokens e + ce_CompletionTokens e\<rparr>\<rparr>"

definition replay_chunks :: "chat_response \<Rightarrow> chat_chunk list" where
  "replay_chunks resp =
     [\<lparr>ck_ID = resp_ID resp, ck_Object = ''chat.completion.chunk'', ck_Created = resp_Created resp, ck_Model = resp_Model resp,
       ck_Choices = [\<lparr>sc_Index = 0, sc_Delta = \<lparr>sd_Role = ''assistant'', sd_Content = Text resp\<rparr>, sc_FinishReason = None\<rparr>],
       ck_Usage = None\<rparr>,
      \<lparr>ck_ID = resp_ID resp, ck_Object = ''chat.completion.chunk'', ck_Created = resp_Created resp, ck_Model = resp_Model resp,
       ck_Choices = [\<lparr>sc_Index = 0, sc_Delta = \<lparr>sd_Role = '''', sd_Content = ''''\<rparr>, sc_FinishReason = Some ''stop''\<rparr>],
       ck_Usage = Some (resp_Usage resp)\<rparr>]"

definition replayAsStream :: "chat_response \<Rightarrow> status_recorder \<Rightarrow> status_recorder" where
  "replayAsStream resp r = sw_done (foldl (\<lambda>r c. snd (sw_send c r)) (newStreamWriter r) (replay_chunks resp))"

definition serveFromCache :: "('w, 'b) deps \<Rightarrow> request_context \<Rightarrow> cache_result \<Rightarrow> 'w srv \<Rightarrow> 'w srv" where
  "serveFromCache d rc res s =
     (case cres_Entry res of
        None \<Rightarrow> panic_with ''nil pointer dereference'' s
      | Some e \<Rightarrow>
          (let (rid, world) = dp_newID d (sv_world s);
               resp = cached_response rid (dp_now d world) (cr_Model (rc_req rc)) e;
               s1 = respond (writeCacheHeaders res) (s\<lparr>sv_world := world\<rparr>);
               s2 = respond (\<lambda>r. if rc_streamed rc then replayAsStream resp r else writeJSON 200 (ChatJSON resp) r) s1
           in meterCacheHit d rc (cres_Status res) e s2))"

section \<open>A provider call\<close>

definition serveUnary ::
  "('w, 'b) deps \<Rightarrow> request_context \<Rightarrow> target list \<Rightarrow> cache_result \<Rightarrow> bool \<Rightarrow> 'w srv \<Rightarrow> 'w srv" where
  "serveUnary d rc targets lookup cacheable s =
     (case exec_Chat (dp_exec d) (dp_exec_cfg d) (dp_chat d) targets (rc_req rc) (sv_world s) of
        (Panic, w) \<Rightarrow> panic_with ''invalid argument to Int63n'' (s\<lparr>sv_world := w\<rparr>)
      | (Ret (_, _, Some err), w) \<Rightarrow>
          meterProviderFailure d rc err (respond (writeProviderError err) (s\<lparr>sv_world := w\<rparr>))
      | (Ret (Some resp, Some t, None), w) \<Rightarrow>
          (let resp' = resp\<lparr>resp_Model := cr_Model (rc_req rc)\<rparr>;
               s1 = respond (\<lambda>r. writeJSON 200 (ChatJSON resp')
                      (set_headers [(''X-Cache'', cache_status_string (cres_Status lookup)),
                                    (''X-Provider'', provider_Name (tg_Provider t))] r)) (s\<lparr>sv_world := w\<rparr>);
               s2 = (if cacheable then storeAsync d rc t (Text resp') (resp_Usage resp') (cres_Vector lookup) s1 else s1)
           in meterSuccess d rc t (resp_Usage resp') (cres_Status lookup) s2)
      | (Ret (_, _, None), w) \<Rightarrow> panic_with ''nil pointer dereference'' (s\<lparr>sv_world := w\<rparr>))"

text \<open>The variables the chunk callback closes over, beside the response it writes to.\<close>

record stream_state =
  ss_rec :: status_recorder
  ss_full :: string
  ss_usage :: usage
  ss_wrote :: bool

definition stream_onChunk :: "string \<Rightarrow> chat_chunk \<Rightarrow> 'w \<times> stream_state \<Rightarrow> go_error option \<times> ('w \<times> stream_state)" where
  "stream_onChunk alias_name c = (\<lambda>(w, st).
     (let c' = c\<lparr>ck_Model := alias_name\<rparr>;
          (err, r) = sw_send c' (ss_rec st)
      in (err, (w,
           \<lparr>ss_rec = r, ss_full = ss_full st @ concat (map (\<lambda>ch. sd_Content (sc_Delta ch)) (ck_Choices c)),
            ss_usage = (case ck_Usage c of None \<Rightarrow> ss_usage st | Some u \<Rightarrow> u), ss_wrote = True\<rparr>))))"

definition lift_open :: "'w opener \<Rightarrow> ('w \<times> 'x) opener" where
  "lift_open op t r = (\<lambda>(w, x). (let (res, w') = op t r w in (res, (w', x))))"

definition serveStream ::
  "('w, 'b) deps \<Rightarrow> request_context \<Rightarrow> target list \<Rightarrow> cache_result \<Rightarrow> bool \<Rightarrow> 'w srv \<Rightarrow> 'w srv" where
  "serveStream d rc targets lookup cacheable s =
     (let r0 = newStreamWriter (Set_header ''X-Cache'' (cache_status_string (cres_Status lookup)) (sv_rec s));
          st0 = \<lparr>ss_rec = r0, ss_full = '''', ss_usage = zero_usage, ss_wrote = False\<rparr>
      in case exec_ChatStream (lift_env (dp_exec d)) (dp_exec_cfg d) (lift_open (dp_stream d)) targets (rc_req rc)
                (stream_onChunk (cr_Model (rc_req rc))) (sv_world s, st0) of
           (Panic, (w, st)) \<Rightarrow> panic_with ''invalid argument to Int63n'' (s\<lparr>sv_world := w, sv_rec := ss_rec st\<rparr>)
         | (Ret (_, Some err), (w, st)) \<Rightarrow>
             meterProviderFailure d rc err
               (s\<lparr>sv_world := w,
                  sv_rec := (if ss_wrote st then sw_done (sw_sendError err (ss_rec st))
                             else writeProviderError err (ss_rec st))\<rparr>)
         | (Ret (Some t, None), (w, st)) \<Rightarrow>
             (let s1 = s\<lparr>sv_world := w, sv_rec := sw_done (ss_rec st)\<rparr>;
                  s2 = (if cacheable \<and> ss_full st \<noteq> ''''
                        then storeAsync d rc t (ss_full st) (ss_usage st) (cres_Vector lookup) s1 else s1)
              in meterSuccess d rc t (ss_usage st) (cres_Status lookup) s2)
         | (Ret (None, None), (w, st)) \<Rightarrow> panic_with ''nil pointer dereference'' (s\<lparr>sv_world := w, sv_rec := ss_rec st\<rparr>))"

section \<open>The completions endpoint\<close>

definition bypassed :: cache_result where
  "bypassed = result_of StatusBypass None 0 None"

text \<open>The cache stage: whether the request may be cached, and what the lookup says.\<close>

definition lookup_stage :: "('w, 'b) deps \<Rightarrow> http_req \<Rightarrow> tenant \<Rightarrow> chat_request \<Rightarrow> 'w \<Rightarrow> (bool \<times> cache_result) \<times> 'w" where
  "lookup_stage d rq t req w =
     (case dp_cache d of
        None \<Rightarrow> ((False, bypassed), w)
      | Some (x, c) \<Rightarrow>
          (case Cacheable (ca_cfg c) req (noCacheRequested rq) of
             None \<Rightarrow> (let (res, w') = Lookup x c (tn_ID t) req w in ((True, res), w'))
           | Some reason \<Rightarrow> ((False, bypassed), w)))"

text \<open>From the lookup on.\<close>

definition serve_chat ::
  "('w, 'b) deps \<Rightarrow> request_context \<Rightarrow> bool \<Rightarrow> cache_result \<Rightarrow> 'w srv \<Rightarrow> 'w srv" where
  "serve_chat d rc cacheable lookup s =
     (if Hit lookup then serveFromCache d rc lookup s
      else case Route (dp_intn d) (dp_router d) (cr_Model (rc_req rc)) (sv_world s) of
        (Inl RoutePanic, w) \<Rightarrow> panic_with ''index out of range'' (s\<lparr>sv_world := w\<rparr>)
      | (Inl e, w) \<Rightarrow>
          meterFailure d rc 404 ''model_not_found''
            (respond (writeError 404 ''invalid_request_error'' (route_error_text e) ''model_not_found'') (s\<lparr>sv_world := w\<rparr>))
      | (Inr targets, w) \<Rightarrow>
          if rc_streamed rc then serveStream d rc targets lookup cacheable (s\<lparr>sv_world := w\<rparr>)
          else serveUnary d rc targets lookup cacheable (s\<lparr>sv_world := w\<rparr>))"

definition handleChatCompletions :: "('w, 'b) deps \<Rightarrow> 'w handler" where
  "handleChatCompletions d rq s =
     (let start = dp_now d (sv_world s) in
      case decodeJSON (dp_decode_chat d) (dp_MaxBodyBytes d) (rq_Body rq) (sv_rec s) of
        (None, r) \<Rightarrow> s\<lparr>sv_rec := r\<rparr>
      | (Some req, r) \<Rightarrow>
          (case Validate req of
             Some e \<Rightarrow> s\<lparr>sv_rec := writeBadRequest e r\<rparr>
           | None \<Rightarrow>
               (case rq_Tenant rq of
                  None \<Rightarrow> panic_with ''nil pointer dereference'' (s\<lparr>sv_rec := r\<rparr>)
                | Some t \<Rightarrow>
                    (let ((cacheable, lookup), w) = lookup_stage d rq t req (sv_world s)
                     in serve_chat d
                          \<lparr>rc_tenant = t, rc_req = req, rc_start = start, rc_reqID = rq_RequestID rq,
                           rc_status = cache_status_string (cres_Status lookup), rc_streamed = cr_Stream req\<rparr>
                          cacheable lookup (s\<lparr>sv_world := w, sv_rec := r\<rparr>)))))"

section \<open>The other endpoints\<close>

text \<open>The loop of \<open>handleEmbeddings\<close>: the response, or the last error (\<open>None\<close> without a target).\<close>

fun embed_targets ::
  "(target \<Rightarrow> embedding_request \<Rightarrow> 'w \<Rightarrow> (go_error + embedding_response) \<times> 'w) \<Rightarrow> embedding_request
    \<Rightarrow> target list \<Rightarrow> go_error option \<Rightarrow> 'w \<Rightarrow> (go_error option + embedding_response) \<times> 'w" where
  "embed_targets call req [] lastErr w = (Inl lastErr, w)"
| "embed_targets call req (t # ts) lastErr w =
     (case call t (req\<lparr>er_Model := tg_Model t\<rparr>) w of
        (Inr resp, w') \<Rightarrow> (Inr resp, w')
      | (Inl err, w') \<Rightarrow>
          if errors_Is err ErrUnsupported then embed_targets call req ts (Some err) w'
          else if (case AsError err of Some pe \<Rightarrow> \<not> Failoverable pe | None \<Rightarrow> False) then (Inl (Some err), w')
          else embed_targets call req ts (Some err) w')"

definition embeddings_error :: "go_error option \<Rightarrow> 'w srv \<Rightarrow> 'w srv" where
  "embeddings_error lastErr s =
     (case lastErr of
        None \<Rightarrow> panic_with ''nil pointer dereference'' s
      | Some e \<Rightarrow>
          if errors_Is e ErrUnsupported
          then respond (writeError 400 ''invalid_request_error''
                 ''no configured provider for this model supports embeddings'' ''unsupported'') s
          else respond (writeProviderError e) s)"

definition handleEmbeddings :: "('w, 'b) deps \<Rightarrow> 'w handler" where
  "handleEmbeddings d rq s =
     (case decodeJSON (dp_decode_embed d) (dp_MaxBodyBytes d) (rq_Body rq) (sv_rec s) of
        (None, r) \<Rightarrow> s\<lparr>sv_rec := r\<rparr>
      | (Some req, r) \<Rightarrow>
          if er_Model req = '''' then s\<lparr>sv_rec := writeBadRequest ''model is required'' r\<rparr>
          else if er_Input req = [] then s\<lparr>sv_rec := writeBadRequest ''input is required'' r\<rparr>
          else
            (case Route (dp_intn d) (dp_router d) (er_Model req) (sv_world s) of
               (Inl RoutePanic, w) \<Rightarrow> panic_with ''index out of range'' (s\<lparr>sv_world := w, sv_rec := r\<rparr>)
             | (Inl e, w) \<Rightarrow>
                 respond (writeError 404 ''invalid_request_error'' (route_error_text e) ''model_not_found'')
                   (s\<lparr>sv_world := w, sv_rec := r\<rparr>)
             | (Inr targets, w) \<Rightarrow>
                 (case embed_targets (dp_embed d) req targets None w of
                    (Inr resp, w') \<Rightarrow>
                      respond (writeJSON 200 (EmbeddingJSON (resp\<lparr>ers_Model := er_Model req\<rparr>)))
                        (s\<lparr>sv_world := w', sv_rec := r\<rparr>)
                  | (Inl lastErr, w') \<Rightarrow> embeddings_error lastErr (s\<lparr>sv_world := w', sv_rec := r\<rparr>))))"

definition handleModels :: "('w, 'b) deps \<Rightarrow> 'w handler" where
  "handleModels d rq s = respond (writeJSON 200 (ModelsJSON (Aliases (dp_router d)))) s"

definition handleHealth :: "'w handler" where
  "handleHealth rq s = respond (writeJSON 200 (StatusJSON [(''status'', ''ok'')])) s"

definition handleReady :: "('w, 'b) deps \<Rightarrow> 'w handler" where
  "handleReady d rq s =
     (let status =
        (case dp_cache d of
           None \<Rightarrow> []
         | Some (x, c) \<Rightarrow>
             (case cache_Ping x c (sv_world s) of
                None \<Rightarrow> []
              | Some e \<Rightarrow> [(''cache'', ''degraded: '' @ error_text e)]))
      in respond (writeJSON 200 (StatusJSON ((''status'', ''ok'') # status))) s)"

section \<open>Routes\<close>

text \<open>The patterns of \<open>routes\<close> with their handlers, and the mux of \<open>NewServer\<close>: a pattern that cannot be registered panics, \<open>None\<close>.\<close>

definition api_routes :: "('w, 'b) deps \<Rightarrow> (string \<times> 'w handler) list" where
  "api_routes d =
     [(''POST /v1/chat/completions'', protected (dp_auth d) (dp_limit d) (handleChatCompletions d)),
      (''POST /v1/embeddings'', protected (dp_auth d) (dp_limit d) (handleEmbeddings d)),
      (''GET /v1/models'', protected (dp_auth d) (dp_limit d) (handleModels d)),
      (''GET /healthz'', handleHealth),
      (''GET /readyz'', handleReady d)]"

definition metrics_page :: "string \<Rightarrow> 'w handler" where
  "metrics_page page rq s = respond (\<lambda>r. snd (Write (PlainText page) (WriteHeader 200 r))) s"

definition routes :: "('w, 'b) deps \<Rightarrow> (string \<times> 'w handler) list" where
  "routes d =
     api_routes d @ (case dp_metrics_page d of None \<Rightarrow> [] | Some (path, page) \<Rightarrow> [(''GET '' @ path, metrics_page page)])"

definition NewServer :: "('w, 'b) deps \<Rightarrow> (pattern \<times> 'w handler) list option" where
  "NewServer d = mux_register (routes d) []"

text \<open>
  What the mux does with a request: it notes the pattern and runs the handler; a path that is served under other methods
  only is 405, an unknown path 404.
\<close>

definition plain_error :: "int \<Rightarrow> string \<Rightarrow> status_recorder \<Rightarrow> status_recorder" where
  "plain_error code msg r =
     snd (Write (PlainText msg) (WriteHeader code
       (Set_header ''X-Content-Type-Options'' ''nosniff'' (Set_header ''Content-Type'' ''text/plain; charset=utf-8'' r))))"

definition mux :: "(pattern \<times> 'w handler) list \<Rightarrow> 'w handler" where
  "mux m rq s =
     (case mux_find m (rq_Host rq) (rq_Method rq) (rq_Path rq) of
        Some (p, h) \<Rightarrow> h rq (s\<lparr>sv_pattern := pt_str p\<rparr>)
      | None \<Rightarrow>
          (let allowed = allowed_methods m (rq_Host rq) (rq_Path rq) in
           if allowed \<noteq> []
           then respond (\<lambda>r. plain_error 405 ''Method Not Allowed'' (Set_header ''Allow'' (Join '', '' allowed) r)) s
           else respond (plain_error 404 ''404 page not found'') s))"

definition Handler ::
  "('w, 'b) deps \<Rightarrow> (pattern \<times> 'w handler) list \<Rightarrow> http_req \<Rightarrow> 'w srv \<times> response_writer \<Rightarrow> 'w srv \<times> response_writer" where
  "Handler d m = withRequestID (dp_newID d) (withAccessLog (dp_now d) (withRecovery (mux m)))"

text \<open>What is registered are the handlers of the routes.\<close>

lemma mux_register_set:
  "mux_register rts m = Some m' \<Longrightarrow> (p, h) \<in> set m' \<Longrightarrow> (p, h) \<in> set m \<or> (\<exists>s. (s, h) \<in> set rts)"
  by (induction rts m rule: mux_register.induct) (fastforce simp: mux_Handle_def split: option.splits if_splits)+

lemma mux_find_set: "mux_find m host meth path = Some (p, h) \<Longrightarrow> (p, h) \<in> set m"
  by (auto simp: mux_find_def Let_def find_Some_iff dest: nth_mem)

lemma served_route:
  assumes "NewServer d = Some m" "mux_find m host meth path = Some (p, h)"
  shows "\<exists>s. (s, h) \<in> set (routes d)"
  using mux_register_set[of "routes d" "[]" m p h] mux_find_set[OF assms(2)] assms(1) by (simp add: NewServer_def)

section \<open>What is registered\<close>

lemma api_patterns:
  "parsePattern ''POST /v1/chat/completions'' = Some \<lparr>pt_str = ''POST /v1/chat/completions'', pt_method = ''POST'', pt_host = '''',
     pt_segs = map Lit [''v1'', ''chat'', ''completions'']\<rparr>"
  "parsePattern ''POST /v1/embeddings'' = Some \<lparr>pt_str = ''POST /v1/embeddings'', pt_method = ''POST'', pt_host = '''',
     pt_segs = map Lit [''v1'', ''embeddings'']\<rparr>"
  "parsePattern ''GET /v1/models'' = Some \<lparr>pt_str = ''GET /v1/models'', pt_method = ''GET'', pt_host = '''',
     pt_segs = map Lit [''v1'', ''models'']\<rparr>"
  "parsePattern ''GET /healthz'' = Some \<lparr>pt_str = ''GET /healthz'', pt_method = ''GET'', pt_host = '''', pt_segs = map Lit [''healthz'']\<rparr>"
  "parsePattern ''GET /readyz'' = Some \<lparr>pt_str = ''GET /readyz'', pt_method = ''GET'', pt_host = '''', pt_segs = map Lit [''readyz'']\<rparr>"
  by (simp_all add: pattern_defs)

text \<open>The five endpoints: method, segments of the path, handler.\<close>

definition endpoints :: "('w, 'b) deps \<Rightarrow> (string \<times> string list \<times> 'w handler) list" where
  "endpoints d =
     [(''POST'', [''v1'', ''chat'', ''completions''], protected (dp_auth d) (dp_limit d) (handleChatCompletions d)),
      (''POST'', [''v1'', ''embeddings''], protected (dp_auth d) (dp_limit d) (handleEmbeddings d)),
      (''GET'', [''v1'', ''models''], protected (dp_auth d) (dp_limit d) (handleModels d)),
      (''GET'', [''healthz''], handleHealth),
      (''GET'', [''readyz''], handleReady d)]"

definition endpoint_pattern :: "string \<times> string list \<times> 'w handler \<Rightarrow> pattern \<times> 'w handler" where
  "endpoint_pattern = (\<lambda>(m, ps, h).
     (\<lparr>pt_str = m @ '' /'' @ Join ''/'' ps, pt_method = m, pt_host = '''', pt_segs = map Lit ps\<rparr>, h))"

definition api_mux :: "('w, 'b) deps \<Rightarrow> (pattern \<times> 'w handler) list" where
  "api_mux d = map endpoint_pattern (endpoints d)"

text \<open>A pattern of method GET that cannot stand beside the endpoints.\<close>

definition clashes :: "pattern \<Rightarrow> bool" where
  "clashes p \<longleftrightarrow> pt_host p = '''' \<and> pt_segs p \<in> set (map (map Lit) [[''v1'', ''models''], [''healthz''], [''readyz'']])"

lemma get_pattern:
  assumes "parsePattern (''GET '' @ path) = Some p"
  shows "pt_method p = ''GET''" "pt_str p = ''GET '' @ path"
  using assms by (auto simp: parsePattern_def is_blank_def Let_def split: if_splits)

lemma register_endpoints:
  "mux_register (api_routes d) [] = Some (api_mux d)"
  by (simp add: api_routes_def mux_Handle_def api_patterns api_mux_def endpoints_def endpoint_pattern_def
      conflictsWith_def comparePathsAndMethods_def compareMethods_def comparePaths_def ends_multi_def Let_def)

lemma conflicts_endpoint:
  assumes "pt_method p = ''GET''" "m = ''GET'' \<or> m = ''POST''"
  shows "(case endpoint_pattern (m, ps, h) of (q, _) \<Rightarrow> conflictsWith p q) \<longleftrightarrow>
    m = ''GET'' \<and> pt_host p = '''' \<and> pt_segs p = map Lit ps"
  unfolding endpoint_pattern_def prod.case by (subst conflicts_Lit[where ts = ps]) (use assms in auto)

lemma NewServer_eq:
  "NewServer d =
     (case dp_metrics_page d of
        None \<Rightarrow> Some (api_mux d)
      | Some (path, page) \<Rightarrow>
          (case parsePattern (''GET '' @ path) of
             None \<Rightarrow> None
           | Some p \<Rightarrow> if clashes p then None
               else Some (api_mux d @ [(p, metrics_page page)])))"
proof -
  have c: "list_ex (\<lambda>(q, _). conflictsWith p q) (api_mux d) \<longleftrightarrow> clashes p" if "pt_method p = ''GET''" for p
    using that by (simp add: api_mux_def endpoints_def conflicts_endpoint clashes_def) blast
  show ?thesis
    unfolding NewServer_def routes_def mux_register_append register_endpoints
    using c get_pattern(1) by (auto simp: mux_Handle_def split: option.split)
qed

end
