(* ===== verification/Demo.thy ===== *)
theory Demo
  imports Chat ExecRules
begin

text \<open>
  One small gateway, on which the properties of the HTTP surface are tried: one alias with one target, a provider that
  answers (or whose streams fail), one key, no limiter, and what the cache is left open.
\<close>

definition demo_exec :: "'w exec_env" where
  "demo_exec =
     \<lparr>ee_ctx_err = (\<lambda>w. False), ee_wait = (\<lambda>d w. (None, w)), ee_int63n = (\<lambda>n w. (0, w)),
      ee_allow = (\<lambda>p w. ((True, StateClosed), w)), ee_record = (\<lambda>p ok w. w), ee_report = (\<lambda>i w. w)\<rparr>"

definition demo_answer :: "string \<Rightarrow> string \<Rightarrow> chat_response" where
  "demo_answer txt finish =
     \<lparr>resp_ID = ''1'', resp_Object = ''chat.completion'', resp_Created = 0, resp_Model = ''m-2024'',
      resp_Choices = [\<lparr>ch_Index = 0, ch_Message = say ''assistant'' txt, ch_FinishReason = finish\<rparr>],
      resp_Usage = \<lparr>us_PromptTokens = 5, us_CompletionTokens = 1, us_TotalTokens = 6\<rparr>\<rparr>"

definition demo_router :: router where
  "demo_router = \<lparr>ro_aliases = [(''fast'', \<lparr>ra_name = ''fast'', ra_strategy = ''priority'',
      ra_targets = [demo_target ''dev''], ra_weights = [], ra_totalWeight = 0\<rparr>)], ro_defaultAlias = ''''\<rparr>"

definition demo_deps :: "(('w, 'b) cache_env \<times> cache) option \<Rightarrow> ('w, 'b) deps" where
  "demo_deps c =
     \<lparr>dp_MaxBodyBytes = 100, dp_decode_chat = (\<lambda>b. Complete (Inr (ask [say ''user'' b]))),
      dp_decode_embed = (\<lambda>b. Complete (Inr \<lparr>er_Model = ''fast'', er_Input = [b], er_User = '''', er_Dims = None\<rparr>)),
      dp_router = demo_router, dp_intn = (\<lambda>n w. (0, w)), dp_exec = demo_exec, dp_exec_cfg = default_exec,
      dp_chat = (\<lambda>t r w. (Inr (demo_answer ''Paris'' ''length''), w)),
      dp_stream = (\<lambda>t r w. (([], Some (fault KindAuth)), w)),
      dp_embed = (\<lambda>t r w. (Inl (fault KindUnavailable), w)),
      dp_auth = (\<lambda>k w. (if k = ''key'' then Inr demo_guest else Inl (Sentinel ErrUnauthorized), w)),
      dp_limit = None, dp_cache = c, dp_prices = Map.empty, dp_now = (\<lambda>w. 0), dp_newID = (\<lambda>w. (''id'', w)),
      dp_metrics_page = None\<rparr>"

text \<open>The gateway without a cache, over a world with nothing in it.\<close>

abbreviation demo_gateway :: "(unit, unit) deps" where
  "demo_gateway \<equiv> demo_deps None"

definition demo_writer :: response_writer where
  "demo_writer = \<lparr>rw_Header = Map.empty, rw_sent = None, rw_body = [], rw_faults = [], rw_size = (\<lambda>b. 1)\<rparr>"

definition demo_srv :: "'w \<Rightarrow> 'w srv" where
  "demo_srv w =
     \<lparr>sv_rec = new_recorder demo_writer, sv_world = w, sv_meter = Some (meter_New demo_options), sv_metrics = None,
      sv_jobs = [], sv_log = [], sv_pattern = '''', sv_panic = None\<rparr>"

definition demo_rq :: "string \<Rightarrow> string \<Rightarrow> tenant option \<Rightarrow> http_req" where
  "demo_rq m path t =
     \<lparr>rq_Method = m, rq_Host = ''localhost'', rq_Path = path, rq_Header = (\<lambda>h. if h = ''Authorization'' then ''Bearer key'' else ''''),
      rq_Body = ''hi'', rq_RequestID = ''r1'', rq_Tenant = t, rq_CacheStatus = None\<rparr>"

definition demo_rc :: "bool \<Rightarrow> request_context" where
  "demo_rc streamed =
     \<lparr>rc_tenant = demo_guest, rc_req = ask [say ''user'' ''hi''], rc_start = 0, rc_reqID = ''r1'', rc_status = ''miss'',
      rc_streamed = streamed\<rparr>"

lemma demo_exec_simps [simp]:
  "ee_ctx_err demo_exec w = False" "ee_allow demo_exec p w = ((True, StateClosed), w)" "ee_record demo_exec p ok w = w"
  "ee_report demo_exec i w = w" "ee_ctx_err (lift_env env) (w, x) = ee_ctx_err env w"
  "ee_allow (lift_env env) p (w, x) = (fst (ee_allow env p w), (snd (ee_allow env p w), x))"
  "ee_record (lift_env env) p ok (w, x) = (ee_record env p ok w, x)"
  "ee_report (lift_env env) i (w, x) = (ee_report env i w, x)"
  by (simp_all add: demo_exec_def lift_env_def split_beta)

lemma demo_unary:
  "exec_Chat demo_exec default_exec (\<lambda>t r w. (Inr out, w)) [demo_target n] req w = (Ret (Some out, Some (demo_target n), None), w)"
  by (simp add: exec_Chat_def exec_do_def attemptWithRetries_def attempt_loop.simps max_attempts_def default_exec_def Let_def
      report_attempt_def)

lemma demo_route: "Route intn demo_router ''fast'' w = (Inr [demo_target ''dev''], w)"
  by (simp add: Route_def demo_router_def ordered_targets_def)

lemma demo_record:
  "sv_panic (record_row d row (demo_srv w)) = None"
  by (simp add: record_row_def demo_srv_def meter_Record_def record_send_def meter_New_def Let_def)

lemma demo_serves [simp]: "NewServer (demo_deps c) = Some (api_mux (demo_deps c))"
  by (simp add: NewServer_eq demo_deps_def)

end
