(* ===== verification/Server.thy ===== *)
theory Server
  imports Demo
begin

text \<open>
  What the handlers and the middleware guarantee together: facts about a response once it is committed, the executor's
  rules applied to the two ways a completion is served, and the properties of the HTTP surface.
\<close>

section \<open>Committed responses\<close>

text \<open>A recorder nothing was sent through, and one whose status line and header are on the wire.\<close>

definition fresh :: "status_recorder \<Rightarrow> bool" where
  "fresh r \<longleftrightarrow> \<not> sr_wroteHeader r \<and> rw_sent (sr_w r) = None"

definition committed_as :: "int \<times> (string \<rightharpoonup> string) \<Rightarrow> status_recorder \<Rightarrow> bool" where
  "committed_as x r \<longleftrightarrow> sr_wroteHeader r \<and> sr_status r = fst x \<and> rw_sent (sr_w r) = Some x"

lemma fresh_new_recorder: "rw_sent w = None \<Longrightarrow> fresh (new_recorder w)"
  by (simp add: fresh_def new_recorder_def)

lemma Set_header_frame [simp]:
  "sr_wroteHeader (Set_header k v r) = sr_wroteHeader r" "rw_sent (sr_w (Set_header k v r)) = rw_sent (sr_w r)"
  "rw_faults (sr_w (Set_header k v r)) = rw_faults (sr_w r)" "rw_body (sr_w (Set_header k v r)) = rw_body (sr_w r)"
  "sr_status (Set_header k v r) = sr_status r"
  by (simp_all add: Set_header_def)

lemma fresh_Set_header [simp]: "fresh (Set_header k v r) = fresh r"
  by (simp add: fresh_def)

lemma set_headers_Cons: "set_headers (kv # hs) r = set_headers hs (Set_header (fst kv) (snd kv) r)"
  by (simp add: set_headers_def split_beta)

lemma fresh_set_headers [simp]: "fresh (set_headers hs r) = fresh r"
proof (induction hs arbitrary: r)
  case Nil
  then show ?case by (simp add: set_headers_def)
next
  case (Cons kv hs)
  then show ?case by (simp only: set_headers_Cons fresh_Set_header)
qed

lemma committed_Set_header: "committed_as x r \<Longrightarrow> committed_as x (Set_header k v r)"
  by (simp add: committed_as_def Set_header_def)

lemma committed_WriteHeader: "committed_as x r \<Longrightarrow> WriteHeader c r = r"
  by (simp add: committed_as_def WriteHeader_def)

lemma fresh_WriteHeader: "fresh r \<Longrightarrow> committed_as (c, rw_Header (sr_w r)) (WriteHeader c r)"
  by (simp add: committed_as_def fresh_def WriteHeader_def rw_WriteHeader_def)

lemma committed_Write: "committed_as x r \<Longrightarrow> committed_as x (snd (Write b r))"
  by (auto simp: committed_as_def Write_def rw_Write_def rw_WriteHeader_def Let_def split: prod.splits list.splits option.splits)

text \<open>On a connection that holds, a write appends its part.\<close>

lemma Write_holds:
  assumes "committed_as x r" "rw_faults (sr_w r) = []"
  shows "fst (Write b r) = None" "rw_body (sr_w (snd (Write b r))) = rw_body (sr_w r) @ [b]"
    "rw_faults (sr_w (snd (Write b r))) = []"
  using assms by (auto simp: committed_as_def Write_def rw_Write_def rw_WriteHeader_def Let_def)

lemma committed_writeJSON: "committed_as x r \<Longrightarrow> committed_as x (writeJSON c v r)"
  by (simp add: writeJSON_def committed_Write committed_WriteHeader[OF committed_Set_header] committed_Set_header)

lemma fresh_writeJSON:
  assumes "fresh r"
  shows "committed_as (c, (rw_Header (sr_w r))(''Content-Type'' \<mapsto> ''application/json'')) (writeJSON c v r)"
proof -
  have "committed_as (c, rw_Header (sr_w (Set_header ''Content-Type'' ''application/json'' r)))
      (WriteHeader c (Set_header ''Content-Type'' ''application/json'' r))"
    by (rule fresh_WriteHeader) (simp add: assms)
  then show ?thesis by (simp add: writeJSON_def committed_Write Set_header_def)
qed

lemma writeJSON_body:
  assumes "fresh r" "rw_faults (sr_w r) = []"
  shows "rw_body (sr_w (writeJSON c v r)) = rw_body (sr_w r) @ [v]"
  using assms by (simp add: writeJSON_def Set_header_def WriteHeader_def Write_def rw_Write_def rw_WriteHeader_def fresh_def Let_def)

lemma fresh_writeJSON_status: "fresh r \<Longrightarrow> sr_status (writeJSON c v r) = c"
  using fresh_writeJSON[of r c v] by (simp add: committed_as_def)

lemma fresh_writeError_status: "fresh r \<Longrightarrow> sr_status (writeError c ty msg code r) = c"
  by (simp add: writeError_def fresh_writeJSON_status)

lemma fresh_writeProviderError_status: "fresh r \<Longrightarrow> sr_status (writeProviderError err r) = fst (failure_code err)"
  by (simp add: writeProviderError_def failure_code_def fresh_writeError_status split: option.split)

lemma committed_writeProviderError: "committed_as x r \<Longrightarrow> committed_as x (writeProviderError err r)"
  by (simp add: writeProviderError_def writeError_def committed_writeJSON split: option.split)

lemma committed_stream_writes:
  assumes "committed_as x r"
  shows "committed_as x (snd (sw_send c r))" "committed_as x (sw_sendError err r)" "committed_as x (sw_done r)"
  using committed_Write[OF assms] assms
  by (auto simp: sw_send_def sw_sendError_def sw_done_def Let_def split: prod.split option.split) (metis snd_conv)+

lemma newStreamWriter_committed:
  "fresh r \<Longrightarrow> committed_as (200, rw_Header (sr_w (set_headers [(''Content-Type'', ''text/event-stream''),
      (''Cache-Control'', ''no-cache''), (''Connection'', ''keep-alive''), (''X-Accel-Buffering'', ''no'')] r))) (newStreamWriter r)"
  unfolding newStreamWriter_def by (rule fresh_WriteHeader) simp

lemma replay_committed:
  assumes "fresh r"
  shows "sr_status (replayAsStream resp r) = 200"
proof -
  have "committed_as x (foldl (\<lambda>r c. snd (sw_send c r)) r cs)" if "committed_as x r" for x r cs
    using that by (induction cs arbitrary: r) (auto simp: committed_stream_writes)
  from committed_stream_writes(3)[OF this[OF newStreamWriter_committed[OF assms]]]
  show ?thesis by (auto simp: replayAsStream_def committed_as_def)
qed

section \<open>The rows\<close>

lemma record_usage_frame [simp]:
  "sv_rec (record_usage p m i j c s st x) = sv_rec x" "sv_meter (record_usage p m i j c s st x) = sv_meter x"
  "sv_jobs (record_usage p m i j c s st x) = sv_jobs x" "sv_world (record_usage p m i j c s st x) = sv_world x"
  by (simp_all add: record_usage_def panic_with_def split: option.split)

lemma record_row_frame [simp]:
  "sv_rec (record_row d row x) = sv_rec x" "sv_jobs (record_row d row x) = sv_jobs x" "sv_world (record_row d row x) = sv_world x"
  by (simp_all add: record_row_def panic_with_def split: option.split)

lemma record_row_meter:
  assumes "sv_meter s = Some m" "sv_panic (record_row d row s) = None"
  shows "meter_Record (dp_now d (sv_world s)) row m = sv_meter (record_row d row s)"
  using assms by (auto simp: record_row_def panic_with_def split: option.splits)

lemma storeAsync_frame [simp]:
  "sv_rec (storeAsync d rc t x u v s) = sv_rec s" "sv_meter (storeAsync d rc t x u v s) = sv_meter s"
  "sv_panic (storeAsync d rc t x u v s) = sv_panic s" "sv_world (storeAsync d rc t x u v s) = sv_world s"
  by (simp_all add: storeAsync_def)

text \<open>Which row a request is booked with: its identity, and the status code the ledger gives it.\<close>

definition row_of :: "request_context \<Rightarrow> usage_row \<Rightarrow> bool" where
  "row_of rc row \<longleftrightarrow>
     ur_TenantID row = tn_ID (rc_tenant rc) \<and> ur_KeyID row = tn_KeyID (rc_tenant rc) \<and> ur_RequestID row = rc_reqID rc \<and>
     ur_ModelAlias row = cr_Model (rc_req rc) \<and> ur_Streamed row = rc_streamed rc"

definition booked :: "request_context \<Rightarrow> meter \<Rightarrow> int \<Rightarrow> 'w srv \<Rightarrow> bool" where
  "booked rc m code s \<longleftrightarrow>
     (\<exists>now row. meter_Record now row m = sv_meter s \<and> row_of rc row \<and> ur_StatusCode row = code)"

lemma bookedI: "meter_Record now row m = sv_meter s \<Longrightarrow> row_of rc row \<Longrightarrow> ur_StatusCode row = code \<Longrightarrow> booked rc m code s"
  by (auto simp: booked_def)

lemma rows_are_of [simp]:
  "row_of rc (success_row d rc t u st s)" "ur_StatusCode (success_row d rc t u st s) = 200"
  "row_of rc (hit_row d rc st e s)" "ur_StatusCode (hit_row d rc st e s) = 200"
  "row_of rc (failure_row d rc code kind s)" "ur_StatusCode (failure_row d rc code kind s) = code"
  by (simp_all add: row_of_def success_row_def hit_row_def failure_row_def)

lemma meterSuccess_booked:
  assumes "sv_meter s = Some m" "sv_panic (meterSuccess d rc t u st s) = None"
  shows "booked rc m 200 (meterSuccess d rc t u st s)"
  using assms unfolding meterSuccess_def Let_def
  by (simp split: if_splits) (rule bookedI[OF record_row_meter]; simp)

lemma meterCacheHit_booked:
  assumes "sv_meter s = Some m" "sv_panic (meterCacheHit d rc st e s) = None"
  shows "booked rc m 200 (meterCacheHit d rc st e s)"
  using assms unfolding meterCacheHit_def Let_def
  by (simp split: if_splits) (rule bookedI[OF record_row_meter]; simp)

lemma meterFailure_booked:
  assumes "sv_meter s = Some m" "sv_panic (meterFailure d rc code kind s) = None"
  shows "booked rc m code (meterFailure d rc code kind s)"
  using assms unfolding meterFailure_def by - (rule bookedI[OF record_row_meter]; simp)

lemma meterSuccess_rec [simp]: "sv_rec (meterSuccess d rc t u st s) = sv_rec s"
  by (simp add: meterSuccess_def Let_def)

lemma meterCacheHit_rec [simp]: "sv_rec (meterCacheHit d rc st e s) = sv_rec s"
  by (simp add: meterCacheHit_def Let_def)

lemma meterFailure_rec [simp]: "sv_rec (meterFailure d rc c k s) = sv_rec s"
  by (simp add: meterFailure_def)

lemma meterProviderFailure_booked:
  assumes "sv_meter s = Some m" "sv_panic (meterProviderFailure d rc err s) = None"
  shows "booked rc m (fst (failure_code err)) (meterProviderFailure d rc err s)"
  using meterFailure_booked[OF assms(1)] assms(2) by (simp add: meterProviderFailure_def split: prod.splits)

lemma meterProviderFailure_rec [simp]: "sv_rec (meterProviderFailure d rc err s) = sv_rec s"
  by (simp add: meterProviderFailure_def split: prod.splits)

lemma respond_frame [simp]:
  "sv_meter (respond f s) = sv_meter s" "sv_rec (respond f s) = f (sv_rec s)" "sv_panic (respond f s) = sv_panic s"
  "sv_jobs (respond f s) = sv_jobs s" "sv_world (respond f s) = sv_world s"
  by (simp_all add: respond_def)

lemma panic_with_panics [simp]: "sv_panic (panic_with v s) = Some (PanicValue v)"
  by (simp add: panic_with_def)

text \<open>Each stage books exactly one row; a unary answer is booked with the status the client got.\<close>

definition served_once :: "request_context \<Rightarrow> meter \<Rightarrow> 'w srv \<Rightarrow> bool" where
  "served_once rc m s \<longleftrightarrow> (\<exists>code. booked rc m code s \<and> (rc_streamed rc \<or> sr_status (sv_rec s) = code))"

lemma served_onceI: "booked rc m code s \<Longrightarrow> rc_streamed rc \<or> sr_status (sv_rec s) = code \<Longrightarrow> served_once rc m s"
  by (auto simp: served_once_def)

lemma serveFromCache_once:
  assumes "sv_meter s = Some m" "fresh (sv_rec s)" "sv_panic (serveFromCache d rc res s) = None"
  shows "served_once rc m (serveFromCache d rc res s)"
proof -
  obtain e where e: "cres_Entry res = Some e"
    using assms(3) by (cases "cres_Entry res") (auto simp: serveFromCache_def)
  have f: "fresh (writeCacheHeaders res (sv_rec s))" using assms(2) by (simp add: writeCacheHeaders_def Let_def)
  show ?thesis
    using assms(1,3) e
    by (cases "rc_streamed rc")
      (auto simp: serveFromCache_def Let_def split_beta fresh_writeJSON_status[OF f] replay_committed[OF f]
        intro!: served_onceI meterCacheHit_booked)
qed

lemma serveUnary_once:
  assumes "sv_meter s = Some m" "fresh (sv_rec s)" "sv_panic (serveUnary d rc ts lk c s) = None"
  shows "served_once rc m (serveUnary d rc ts lk c s)"
proof -
  obtain res w where x: "exec_Chat (dp_exec d) (dp_exec_cfg d) (dp_chat d) ts (rc_req rc) (sv_world s) = (res, w)"
    by (metis surj_pair)
  obtain resp t err where r: "res = Ret (resp, t, err)"
    using assms(3) x by (cases res) (auto simp: serveUnary_def)
  show ?thesis
  proof (cases err)
    case (Some e)
    then show ?thesis
      using assms x r
      by (cases resp; cases t)
        (auto simp: serveUnary_def fresh_writeProviderError_status intro!: served_onceI meterProviderFailure_booked)
  next
    case None
    then obtain rp tg where "resp = Some rp" "t = Some tg"
      using assms(3) x r by (cases resp; cases t) (auto simp: serveUnary_def)
    then show ?thesis
      using assms x r None
      by (auto simp: serveUnary_def Let_def fresh_writeJSON_status intro!: served_onceI meterSuccess_booked)
  qed
qed

lemma booked_streamed:
  assumes "sv_meter s = Some m" "rc_streamed rc"
  shows "sv_panic (meterProviderFailure d rc e s) = None \<Longrightarrow> served_once rc m (meterProviderFailure d rc e s)"
    "sv_panic (meterSuccess d rc t u st s) = None \<Longrightarrow> served_once rc m (meterSuccess d rc t u st s)"
  using meterProviderFailure_booked[of s m d rc e] meterSuccess_booked[of s m d rc t u st] assms
  by (auto simp: served_once_def)

lemma serveStream_once:
  assumes "sv_meter s = Some m" "rc_streamed rc" "sv_panic (serveStream d rc ts lk c s) = None"
  shows "served_once rc m (serveStream d rc ts lk c s)"
  using assms
  by (auto simp: serveStream_def Let_def split: prod.splits go.splits option.splits if_splits
      intro!: booked_streamed)

lemma serve_chat_once:
  assumes "sv_meter s = Some m" "fresh (sv_rec s)" "sv_panic (serve_chat d rc c lk s) = None"
  shows "served_once rc m (serve_chat d rc c lk s)"
proof (cases "Hit lk")
  case True
  then show ?thesis using assms serveFromCache_once by (simp add: serve_chat_def)
next
  case False
  obtain res w where x: "Route (dp_intn d) (dp_router d) (cr_Model (rc_req rc)) (sv_world s) = (res, w)" by (metis surj_pair)
  show ?thesis
  proof (cases res)
    case (Inl e)
    then show ?thesis
      using assms x False
      by (cases e) (auto simp: serve_chat_def fresh_writeError_status intro!: served_onceI meterFailure_booked)
  next
    case (Inr ts)
    then show ?thesis
      using assms x False serveStream_once[of "s\<lparr>sv_world := w\<rparr>" m rc d ts lk c]
        serveUnary_once[of "s\<lparr>sv_world := w\<rparr>" m d rc ts lk c]
      by (auto simp: serve_chat_def split: if_splits)
  qed
qed

lemma decodeJSON_fresh: "fst (decodeJSON dec n body r) = Some v \<Longrightarrow> snd (decodeJSON dec n body r) = r"
  by (auto simp: decodeJSON_def split: json_read.splits sum.splits if_splits)




end
