(* ===== verification/Responses.thy ===== *)
theory Responses
  imports Server
begin

text \<open>
  What holds of a response from its first header to its last byte, whichever endpoint writes it, and the access log that
  is written about it.
\<close>

section \<open>Predicates that a whole response keeps\<close>

text \<open>What the callback keeps, a streamed failover keeps.\<close>

locale stream_invariant =
  fixes J :: "stream_state \<Rightarrow> bool"
    and alias_name :: string
  assumes J_chunk: "J st \<Longrightarrow> J (snd (snd (stream_onChunk alias_name c ((), st))))"
begin

lemma J_onChunk: "J st \<Longrightarrow> J (snd (snd (stream_onChunk alias_name c (w, st))))"
  using J_chunk[of st c] by (simp add: stream_onChunk_def Let_def split_beta)

lemma J_feed: "J (snd (fst p)) \<Longrightarrow> J (snd (fst (snd (feed (counted (stream_onChunk alias_name)) cs fin p))))"
proof (induction cs arbitrary: p)
  case (Cons c cs)
  obtain w st b where p: "p = ((w, st), b)" by (metis prod.collapse)
  obtain e q where c: "stream_onChunk alias_name c (w, st) = (e, q)" by (metis surj_pair)
  have "J (snd q)" using J_onChunk[of st c w] Cons.prems p c by simp
  then show ?case using Cons.IH[of "(q, True)"] p c by (cases e) (auto simp: counted_def)
qed simp

end

sublocale stream_invariant \<subseteq> run: exec_invariant "lift_env (lift_env env)"
    "stream_call (lift_open op) (stream_onChunk alias_name)" "\<lambda>p. J (snd (fst p))" for env op
proof
  fix t r and w :: "('a \<times> stream_state) \<times> bool"
  assume "J (snd (fst w))"
  then show "J (snd (fst (snd (stream_call (lift_open op) (stream_onChunk alias_name) t r w))))"
    by (cases w) (auto simp: stream_call_def lift_open_def Let_def split_beta intro: J_feed)
qed (auto simp: lift_env_def split_beta)

context stream_invariant
begin

lemma J_ChatStream:
  assumes "exec_ChatStream (lift_env env) cfg (lift_open op) ts req (stream_onChunk alias_name) (w, st) = (res, (w', st'))"
    and "J st"
  shows "J st'"
proof -
  have "J (snd (fst (snd (exec_do (lift_env (lift_env env)) cfg (stream_call (lift_open op) (stream_onChunk alias_name)) snd
      req ts ((w, st), False)))))"
    by (rule run.I_exec_do) (simp add: assms(2))
  then show ?thesis using assms(1) by (auto simp: exec_ChatStream_def split: prod.splits)
qed

end


text \<open>
  A predicate on the recorder that setting a header, the status line and a write keep, every endpoint keeps. The
  request id is set once, before the handlers run, so its header is out of bounds for them.
\<close>

locale response_invariant =
  fixes K :: "status_recorder \<Rightarrow> bool"
  assumes K_set: "k \<noteq> ''X-Request-Id'' \<Longrightarrow> K r \<Longrightarrow> K (Set_header k v r)"
    and K_header: "K r \<Longrightarrow> K (WriteHeader c r)"
    and K_write: "K r \<Longrightarrow> K (snd (Write b r))"
begin

lemma K_set_headers: "K r \<Longrightarrow> list_all (\<lambda>kv. fst kv \<noteq> ''X-Request-Id'') hs \<Longrightarrow> K (set_headers hs r)"
proof (induction hs arbitrary: r)
  case (Cons kv hs)
  have "K (Set_header (fst kv) (snd kv) r)" by (rule K_set) (use Cons.prems in simp_all)
  moreover have "list_all (\<lambda>kv. fst kv \<noteq> ''X-Request-Id'') hs" using Cons.prems(2) by simp
  ultimately show ?case unfolding set_headers_Cons by (rule Cons.IH)
qed (simp add: set_headers_def)

lemma K_writeJSON: "K r \<Longrightarrow> K (writeJSON c v r)"
  by (simp add: writeJSON_def K_set K_header K_write)

lemma K_writeError: "K r \<Longrightarrow> K (writeError c ty msg code r)"
  by (simp add: writeError_def K_writeJSON)

lemma K_writeProviderError: "K r \<Longrightarrow> K (writeProviderError e r)"
  by (simp add: writeProviderError_def K_writeError split: option.split)

lemma K_plain_error: "K r \<Longrightarrow> K (plain_error c msg r)"
  by (simp add: plain_error_def K_set K_header K_write)

lemma K_decodeJSON: "K r \<Longrightarrow> K (snd (decodeJSON dec n body r))"
  by (auto simp: decodeJSON_def writeBadRequest_def K_writeError split: json_read.split sum.split)

lemma K_newStreamWriter: "K r \<Longrightarrow> K (newStreamWriter r)"
  by (simp add: newStreamWriter_def K_header K_set_headers)

lemma K_stream_writes: "K r \<Longrightarrow> K (snd (sw_send c r))" "K r \<Longrightarrow> K (sw_sendError e r)" "K r \<Longrightarrow> K (sw_done r)"
  using K_write[of r "EventChunk c"]
  by (simp_all add: sw_send_def sw_sendError_def sw_done_def Let_def K_write split_beta split: option.split)

lemma K_replay: "K r \<Longrightarrow> K (replayAsStream resp r)"
  by (simp add: replayAsStream_def replay_chunks_def K_stream_writes K_newStreamWriter)

lemma K_writeCacheHeaders: "K r \<Longrightarrow> K (writeCacheHeaders res r)"
  by (simp add: writeCacheHeaders_def Let_def K_set)

lemma K_limit_headers: "K r \<Longrightarrow> K (set_headers (writeHeaders l) r)"
  by (rule K_set_headers) (auto simp: writeHeaders_def Let_def)

lemmas K_rules = K_writeJSON K_writeError K_writeProviderError K_plain_error K_newStreamWriter K_stream_writes K_replay
  K_writeCacheHeaders K_set K_header K_write

end

sublocale response_invariant \<subseteq> chunks: stream_invariant "\<lambda>st. K (ss_rec st)" alias_name for alias_name
  by unfold_locales (simp add: stream_onChunk_def Let_def split_beta K_stream_writes)

context response_invariant
begin

lemma K_serveFromCache: "K (sv_rec s) \<Longrightarrow> K (sv_rec (serveFromCache d rc res s))"
  by (auto simp: serveFromCache_def Let_def split_beta panic_with_def K_rules split: option.split)

lemma K_serveUnary: "K (sv_rec s) \<Longrightarrow> K (sv_rec (serveUnary d rc ts lk c s))"
  by (auto simp: serveUnary_def Let_def panic_with_def K_rules K_set_headers split: prod.split go.split option.split)

lemma K_serveStream:
  assumes "K (sv_rec s)"
  shows "K (sv_rec (serveStream d rc ts lk c s))"
proof -
  let ?a = "cr_Model (rc_req rc)"
  let ?st0 = "\<lparr>ss_rec = newStreamWriter (Set_header ''X-Cache'' (cache_status_string (cres_Status lk)) (sv_rec s)),
    ss_full = '''', ss_usage = zero_usage, ss_wrote = False\<rparr>"
  obtain res w st where run: "exec_ChatStream (lift_env (dp_exec d)) (dp_exec_cfg d) (lift_open (dp_stream d)) ts (rc_req rc)
      (stream_onChunk ?a) (sv_world s, ?st0) = (res, (w, st))" by (metis surj_pair)
  have "K (ss_rec st)" by (rule chunks.J_ChatStream[OF run]) (simp add: assms K_rules)
  then show ?thesis
    using run by (auto simp: serveStream_def Let_def panic_with_def K_rules split: go.split option.split)
qed

lemma K_serve_chat: "K (sv_rec s) \<Longrightarrow> K (sv_rec (serve_chat d rc c lk s))"
  by (auto simp: serve_chat_def panic_with_def K_rules K_serveFromCache K_serveUnary K_serveStream
      split: prod.split sum.split route_error.split)

lemma K_handleChatCompletions: "K (sv_rec s) \<Longrightarrow> K (sv_rec (handleChatCompletions d rq s))"
  using K_decodeJSON[of "sv_rec s" "dp_decode_chat d" "dp_MaxBodyBytes d" "rq_Body rq"]
  by (auto simp: handleChatCompletions_def Let_def panic_with_def writeBadRequest_def K_rules K_serve_chat split_beta
      split: prod.splits option.splits)

lemma K_handleEmbeddings: "K (sv_rec s) \<Longrightarrow> K (sv_rec (handleEmbeddings d rq s))"
  using K_decodeJSON[of "sv_rec s" "dp_decode_embed d" "dp_MaxBodyBytes d" "rq_Body rq"]
  by (auto simp: handleEmbeddings_def embeddings_error_def panic_with_def writeBadRequest_def K_rules
      split: prod.splits option.splits sum.splits route_error.splits)

lemma K_protected:
  assumes "\<And>rq s. K (sv_rec s) \<Longrightarrow> K (sv_rec (h rq s))" "K (sv_rec s)"
  shows "K (sv_rec (protected auth limit h rq s))"
  using assms
  by (auto simp: protected_def withAuth_def withRateLimit_def Let_def K_rules K_limit_headers
      split: prod.split sum.split option.split)

lemma K_endpoint: "(p, h) \<in> set (routes d) \<Longrightarrow> K (sv_rec s) \<Longrightarrow> K (sv_rec (h rq s))"
  by (auto simp: routes_def api_routes_def metrics_page_def handleModels_def handleHealth_def handleReady_def Let_def intro!: K_protected K_rules
      K_handleChatCompletions K_handleEmbeddings split: option.splits)

lemma K_mux:
  assumes "NewServer d = Some m" "K (sv_rec s)"
  shows "K (sv_rec (mux m rq s))"
proof (cases "mux_find m (rq_Host rq) (rq_Method rq) (rq_Path rq)")
  case None
  then show ?thesis using assms(2) by (simp add: mux_def Let_def K_plain_error K_set)
next
  case (Some x)
  obtain p h where x: "x = (p, h)" by (cases x)
  obtain pat where "(pat, h) \<in> set (routes d)" using served_route[OF assms(1)] Some x by blast
  from K_endpoint[OF this] show ?thesis using Some x assms(2) by (simp add: mux_def)
qed

lemma K_recovered: "NewServer d = Some m \<Longrightarrow> K (sv_rec s) \<Longrightarrow> K (sv_rec (withRecovery (mux m) rq s))"
  using K_mux[of d m s rq] by (simp add: withRecovery_def Let_def K_rules split: option.split panic.split)

end


section \<open>One access line for every request\<close>

text \<open>No endpoint writes the access log or aborts.\<close>

definition unlogged :: "access_line list \<Rightarrow> 'w srv \<Rightarrow> bool" where
  "unlogged l s \<longleftrightarrow> sv_log s = l \<and> sv_panic s \<noteq> Some AbortHandler"

named_theorems unlogged_intros "endpoints that leave the access log alone"

lemma unlogged_fields [simp]:
  "unlogged l (s\<lparr>sv_world := w\<rparr>) = unlogged l s" "unlogged l (s\<lparr>sv_rec := r\<rparr>) = unlogged l s"
  "unlogged l (s\<lparr>sv_pattern := p\<rparr>) = unlogged l s" "unlogged l (s\<lparr>sv_meter := m\<rparr>) = unlogged l s"
  "unlogged l (s\<lparr>sv_metrics := x\<rparr>) = unlogged l s" "unlogged l (s\<lparr>sv_jobs := j\<rparr>) = unlogged l s"
  "unlogged l (respond f s) = unlogged l s"
  by (simp_all add: unlogged_def respond_def)

lemma unlogged_panic [unlogged_intros]: "unlogged l s \<Longrightarrow> unlogged l (panic_with v s)"
  by (simp add: unlogged_def panic_with_def)

lemma unlogged_rows [unlogged_intros]:
  "unlogged l s \<Longrightarrow> unlogged l (record_row d row s)" "unlogged l s \<Longrightarrow> unlogged l (record_usage p m i j c v st s)"
  by (auto simp: record_row_def record_usage_def intro: unlogged_panic split: option.split)

lemma unlogged_meter [unlogged_intros]:
  "unlogged l s \<Longrightarrow> unlogged l (meterSuccess d rc t u st s)" "unlogged l s \<Longrightarrow> unlogged l (meterCacheHit d rc st e s)"
  "unlogged l s \<Longrightarrow> unlogged l (meterFailure d rc k kind s)" "unlogged l s \<Longrightarrow> unlogged l (meterProviderFailure d rc err s)"
  by (auto simp: meterSuccess_def meterCacheHit_def meterFailure_def meterProviderFailure_def Let_def
      intro: unlogged_rows split: prod.split)

lemma unlogged_store [simp]: "unlogged l (storeAsync d rc t x u v s) = unlogged l s"
  by (simp add: storeAsync_def)

lemma unlogged_serve [unlogged_intros]:
  "unlogged l s \<Longrightarrow> unlogged l (serveFromCache d rc res s)" "unlogged l s \<Longrightarrow> unlogged l (serveUnary d rc ts lk c s)"
  "unlogged l s \<Longrightarrow> unlogged l (serveStream d rc ts lk c s)"
  by (auto simp: serveFromCache_def serveUnary_def serveStream_def Let_def intro!: unlogged_intros
      split: option.split prod.split go.split)

lemma unlogged_chat [unlogged_intros]: "unlogged l s \<Longrightarrow> unlogged l (handleChatCompletions d rq s)"
  by (auto simp: handleChatCompletions_def serve_chat_def Let_def intro!: unlogged_intros
      split: option.split prod.split sum.split route_error.split)

lemma unlogged_embeddings [unlogged_intros]: "unlogged l s \<Longrightarrow> unlogged l (handleEmbeddings d rq s)"
  by (auto simp: handleEmbeddings_def embeddings_error_def intro!: unlogged_intros
      split: option.split prod.split sum.split route_error.split)

lemma unlogged_protected:
  assumes "\<And>rq s. unlogged l s \<Longrightarrow> unlogged l (h rq s)" "unlogged l s"
  shows "unlogged l (protected auth limit h rq s)"
  using assms by (auto simp: protected_def withAuth_def withRateLimit_def Let_def split: prod.split sum.split option.split)

lemma unlogged_endpoint: "(p, h) \<in> set (routes d) \<Longrightarrow> unlogged l s \<Longrightarrow> unlogged l (h rq s)"
  by (auto simp: routes_def api_routes_def metrics_page_def handleModels_def handleHealth_def handleReady_def Let_def
      intro!: unlogged_protected unlogged_intros split: option.splits)

lemma unlogged_mux:
  assumes "NewServer d = Some m" "unlogged l s"
  shows "unlogged l (mux m rq s)"
proof (cases "mux_find m (rq_Host rq) (rq_Method rq) (rq_Path rq)")
  case None
  then show ?thesis using assms(2) by (simp add: mux_def Let_def)
next
  case (Some x)
  obtain p h where x: "x = (p, h)" by (cases x)
  obtain pat where "(pat, h) \<in> set (routes d)" using served_route[OF assms(1)] Some x by blast
  from unlogged_endpoint[OF this, of l "s\<lparr>sv_pattern := pt_str p\<rparr>" rq]
  show ?thesis using Some x assms(2) by (simp add: mux_def)
qed

lemma unlogged_recovered:
  assumes "NewServer d = Some m" "unlogged l s"
  shows "sv_log (withRecovery (mux m) rq s) = l \<and> sv_panic (withRecovery (mux m) rq s) = None"
  using unlogged_mux[OF assms, of rq]
  by (auto simp: withRecovery_def Let_def unlogged_def respond_def split: option.split panic.split)

text \<open>The status a client gets: a response nobody wrote is a 200.\<close>

definition client_status :: "response_writer \<Rightarrow> int" where
  "client_status w = (case rw_sent w of None \<Rightarrow> 200 | Some (c, h) \<Rightarrow> c)"

definition accounted :: "string \<Rightarrow> status_recorder \<Rightarrow> bool" where
  "accounted rid r \<longleftrightarrow> rw_Header (sr_w r) ''X-Request-Id'' = Some rid \<and> sr_status r = client_status (sr_w r) \<and>
     (sr_wroteHeader r \<longleftrightarrow> rw_sent (sr_w r) \<noteq> None) \<and>
     (\<forall>c h. rw_sent (sr_w r) = Some (c, h) \<longrightarrow> h ''X-Request-Id'' = Some rid)"

lemma rw_Write_sent: "rw_sent w = Some x \<Longrightarrow> rw_sent (snd (rw_Write b w)) = Some x \<and> rw_Header (snd (rw_Write b w)) = rw_Header w"
  by (auto simp: rw_Write_def rw_WriteHeader_def Let_def split: list.split option.split)

lemma accounted_header: "accounted rid r \<Longrightarrow> accounted rid (WriteHeader c r)"
  by (auto simp: accounted_def client_status_def WriteHeader_def rw_WriteHeader_def split: option.splits)

lemma accounted_write:
  assumes "accounted rid r"
  shows "accounted rid (snd (Write b r))"
proof -
  define r1 where "r1 = (if sr_wroteHeader r then r else WriteHeader 200 r)"
  have r1: "accounted rid r1" using assms accounted_header by (simp add: r1_def)
  have "sr_wroteHeader r1" by (simp add: r1_def WriteHeader_def)
  then obtain x where x: "rw_sent (sr_w r1) = Some x" using r1 by (auto simp: accounted_def)
  obtain n e w where w: "rw_Write b (sr_w r1) = ((n, e), w)" by (metis surj_pair)
  have "rw_sent w = Some x" "rw_Header w = rw_Header (sr_w r1)" using rw_Write_sent[OF x, of b] w by simp_all
  moreover have "snd (Write b r) = r1\<lparr>sr_w := w, sr_written := sr_written r1 + n\<rparr>"
    unfolding Write_def Let_def r1_def[symmetric] w by simp
  ultimately show ?thesis using r1 x by (simp add: accounted_def client_status_def)
qed

lemma accounted_set: "k \<noteq> ''X-Request-Id'' \<Longrightarrow> accounted rid r \<Longrightarrow> accounted rid (Set_header k v r)"
  by (simp add: accounted_def Set_header_def client_status_def)

interpretation account: response_invariant "accounted rid" for rid
  by (rule response_invariant.intro) (fact accounted_set accounted_header accounted_write)+

text \<open>
  C22. Whatever a request is and whatever its handler does, a panic included, no panic leaves the server, exactly one line is
  added to the access log, and it tells what the client saw: the status that went out (200 when nobody set
  one) and the request id in the \<open>X-Request-Id\<close> header of the response.
\<close>

theorem every_request_logged:
  assumes "NewServer d = Some m" "sv_panic s = None" "rw_sent w = None"
  shows "\<exists>s' w' line. Handler d m rq (s, w) = (s', w') \<and> sv_panic s' = None \<and> sv_log s' = sv_log s @ [line] \<and>
    al_status line = client_status w' \<and> rw_Header w' ''X-Request-Id'' = Some (al_request_id line) \<and>
    (\<forall>c h. rw_sent w' = Some (c, h) \<longrightarrow> h ''X-Request-Id'' = Some (al_request_id line))"
proof -
  obtain rid world where r: "(if rq_Header rq ''X-Request-Id'' = '''' then dp_newID d (sv_world s)
      else (rq_Header rq ''X-Request-Id'', sv_world s)) = (rid, world)" by (metis surj_pair)
  define s0 where "s0 = s\<lparr>sv_world := world, sv_rec := new_recorder (w\<lparr>rw_Header := (rw_Header w)(''X-Request-Id'' \<mapsto> rid)\<rparr>),
    sv_pattern := ''''\<rparr>"
  let ?rq = "rq\<lparr>rq_RequestID := rid\<rparr>"
  define s1 where "s1 = withRecovery (mux m) ?rq s0"
  have "accounted rid (sv_rec s0)"
    using assms(3) by (simp add: s0_def new_recorder_def accounted_def client_status_def)
  then have a: "accounted rid (sv_rec s1)" unfolding s1_def by (rule account.K_recovered[OF assms(1)])
  have q: "sv_log s1 = sv_log s" "sv_panic s1 = None"
    using unlogged_recovered[OF assms(1), of "sv_log s" s0 ?rq] assms(2) by (simp_all add: s1_def unlogged_def s0_def)
  show ?thesis
    using a q r
    by (simp add: Handler_def withRequestID_def withAccessLog_def Let_def s0_def[symmetric] s1_def[symmetric] accounted_def)
qed


theorem every_request_logged_witness:
  "\<exists>s' w' line. Handler demo_gateway (api_mux demo_gateway) (demo_rq ''GET'' ''/healthz'' None) (demo_srv (), demo_writer) = (s', w') \<and>
     sv_log s' = [line] \<and> al_status line = client_status w'"
proof -
  have "sv_panic (demo_srv ()) = None" "rw_sent demo_writer = None" "sv_log (demo_srv ()) = []"
    by (simp_all add: demo_srv_def demo_writer_def)
  then show ?thesis
    using every_request_logged[OF demo_serves[of None], of "demo_srv ()" demo_writer "demo_rq ''GET'' ''/healthz'' None"] by auto
qed

text \<open>
  The access log never tells who called or what the cache did. Tenant and cache status go into the context of the copy
  of the request that the inner handlers see; the access log reads the request it was given, where they are
  unset, for every route and every outcome, and the request metric is labelled with the empty cache status.
\<close>

theorem access_log_blind:
  assumes "NewServer d = Some m" "sv_panic s = None" "rq_Tenant rq = None" "rq_CacheStatus rq = None"
  shows "\<exists>line. sv_log (fst (Handler d m rq (s, w))) = sv_log s @ [line] \<and> al_tenant line = None \<and> al_cache line = '''' \<and>
    (\<exists>route dur mx. sv_metrics (fst (Handler d m rq (s, w)))
       = map_option (obs_RecordRequest (routePattern route) (al_status line) '''' dur) mx)"
proof -
  obtain rid world where r: "(if rq_Header rq ''X-Request-Id'' = '''' then dp_newID d (sv_world s)
      else (rq_Header rq ''X-Request-Id'', sv_world s)) = (rid, world)" by (metis surj_pair)
  define s0 where "s0 = s\<lparr>sv_world := world, sv_rec := new_recorder (w\<lparr>rw_Header := (rw_Header w)(''X-Request-Id'' \<mapsto> rid)\<rparr>),
    sv_pattern := ''''\<rparr>"
  define s1 where "s1 = withRecovery (mux m) (rq\<lparr>rq_RequestID := rid\<rparr>) s0"
  have q: "sv_log s1 = sv_log s" "sv_panic s1 = None"
    using unlogged_recovered[OF assms(1), of "sv_log s" s0 "rq\<lparr>rq_RequestID := rid\<rparr>"] assms(2) by (simp_all add: s1_def unlogged_def s0_def)
  show ?thesis
    using q r assms(3,4)
    by (simp add: Handler_def withRequestID_def withAccessLog_def Let_def s0_def[symmetric] s1_def[symmetric])
      (intro exI, rule refl)
qed

theorem access_log_blind_witness:
  "\<exists>line. sv_log (fst (Handler demo_gateway (api_mux demo_gateway) (demo_rq ''POST'' ''/v1/chat/completions'' None) (demo_srv (), demo_writer))) = [line]
     \<and> al_tenant line = None"
proof -
  have "sv_panic (demo_srv ()) = None" "sv_log (demo_srv ()) = []"
    "rq_Tenant (demo_rq ''POST'' ''/v1/chat/completions'' None) = None" "rq_CacheStatus (demo_rq ''POST'' ''/v1/chat/completions'' None) = None"
    by (simp_all add: demo_srv_def demo_rq_def)
  then show ?thesis
    using access_log_blind[OF demo_serves[of None], of "demo_srv ()" "demo_rq ''POST'' ''/v1/chat/completions'' None" demo_writer] by auto
qed

end
