(* ===== verification/Delivery.thy ===== *)
theory Delivery
  imports Responses
begin

text \<open>
  What a client is sent for a completion, and what is kept of it: the unary answer, the stream, the replay of a cached
  entry, and that the three agree.
\<close>

section \<open>Unary answers\<close>

definition unary_call ::
  "(target \<Rightarrow> chat_request \<Rightarrow> 'w \<Rightarrow> (go_error + chat_response) \<times> 'w) \<Rightarrow> ('w \<times> chat_response option) caller" where
  "unary_call chat t r = (\<lambda>(w, resp).
     case chat t r w of (Inl e, w') \<Rightarrow> (Some e, (w', resp)) | (Inr out, w') \<Rightarrow> (None, (w', Some out)))"

text \<open>The variable of the closure holds what that target answered to that request.\<close>

definition answered ::
  "(target \<Rightarrow> chat_request \<Rightarrow> 'w \<Rightarrow> (go_error + chat_response) \<times> 'w) \<Rightarrow> target \<Rightarrow> chat_request
    \<Rightarrow> 'w \<times> chat_response option \<Rightarrow> bool" where
  "answered chat t r p \<longleftrightarrow> (\<exists>out w w'. snd p = Some out \<and> chat t r w = (Inr out, w'))"

lemma answeredI: "chat t r w = (Inr out, w') \<Longrightarrow> snd p = Some out \<Longrightarrow> answered chat t r p"
  unfolding answered_def by blast

lemma unary_call_answered: "unary_call chat t r w = (None, w') \<Longrightarrow> answered chat t r w'"
  by (cases w; cases "chat t r (fst w)"; cases "fst (chat t r (fst w))")
    (auto simp: unary_call_def intro: answeredI)

lemma answered_frame [simp]:
  "answered chat t r (ee_record (lift_env env) n ok p) = answered chat t r p"
  "answered chat t r (ee_report (lift_env env) i p) = answered chat t r p"
  by (simp_all add: answered_def lift_env_def split_beta)

interpretation unary: exec_success "lift_env env" "unary_call chat" "\<lambda>_. True" "answered chat" for env chat
  by unfold_locales (simp_all add: unary_call_answered)

lemma exec_Chat_success:
  assumes "exec_Chat env cfg chat ts req w = (Ret (resp, t, None), w')"
  shows "\<exists>tg out v v'. tg \<in> set ts \<and> t = Some tg \<and> resp = Some out \<and> chat tg (call_request req tg) v = (Inr out, v')"
proof -
  obtain x where "exec_do (lift_env env) cfg (unary_call chat) (\<lambda>_. False) req ts (w, None) = (Ret (t, None), (w', x))" "x = resp"
    using assms unfolding exec_Chat_def unary_call_def Let_def by (auto split: prod.splits go.splits)
  from unary.Q_exec_do[OF TrueI this(1)] this(2) show ?thesis by (auto simp: answered_def)
qed

text \<open>The cache write that a served completion starts, if any.\<close>

definition stored_job :: "('w, 'b) deps \<Rightarrow> request_context \<Rightarrow> target \<Rightarrow> string \<Rightarrow> usage \<Rightarrow> cache_result \<Rightarrow> cache_job list" where
  "stored_job d rc t txt u lookup =
     (if dp_cache d = None \<or> txt = '''' then []
      else [\<lparr>cj_Tenant = tn_ID (rc_tenant rc), cj_Req = rc_req rc,
          cj_Entry = \<lparr>ce_Completion = txt, ce_Model = cr_Model (rc_req rc), ce_UpstreamModel = tg_Model t,
            ce_Provider = provider_Name (tg_Provider t), ce_Temp = Temp (rc_req rc), ce_MaxTokens = MaxTok (rc_req rc),
            ce_PromptTokens = us_PromptTokens u, ce_CompletionTokens = us_CompletionTokens u, ce_CreatedAt = 0,
            ce_Prompt = ''''\<rparr>,
          cj_Vec = cres_Vector lookup\<rparr>])"

lemma storeAsync_jobs: "sv_jobs (storeAsync d rc t txt u (cres_Vector lk) s) = sv_jobs s @ stored_job d rc t txt u lk"
  by (simp add: storeAsync_def stored_job_def)

lemma panic_with_frame [simp]: "sv_rec (panic_with v s) = sv_rec s" "sv_jobs (panic_with v s) = sv_jobs s"
  by (simp_all add: panic_with_def)

lemma meter_jobs [simp]:
  "sv_jobs (meterSuccess d rc t u st s) = sv_jobs s" "sv_jobs (meterProviderFailure d rc e s) = sv_jobs s"
  "sv_jobs (meterCacheHit d rc st en s) = sv_jobs s" "sv_jobs (meterFailure d rc k kind s) = sv_jobs s"
  by (simp_all add: meterSuccess_def meterProviderFailure_def meterCacheHit_def meterFailure_def Let_def split: prod.split)

text \<open>The first response on a connection that holds.\<close>

definition untouched :: "status_recorder \<Rightarrow> bool" where
  "untouched r \<longleftrightarrow> fresh r \<and> rw_faults (sr_w r) = [] \<and> rw_body (sr_w r) = []"

lemma untouched_headers [simp]: "untouched (Set_header k v r) = untouched r" "untouched (set_headers hs r) = untouched r"
proof -
  show one: "untouched (Set_header k v r) = untouched r" for k v r by (simp add: untouched_def)
  show "untouched (set_headers hs r) = untouched r"
    by (induction hs arbitrary: r) (simp add: set_headers_def, simp only: set_headers_Cons one)
qed

lemma untouched_writeJSON:
  assumes "untouched r"
  shows "sr_status (writeJSON c v r) = c" "rw_body (sr_w (writeJSON c v r)) = [v]"
  using assms by (simp_all add: untouched_def fresh_writeJSON_status writeJSON_body)

lemma writeProviderError_json:
  "\<exists>detail. writeProviderError e r = writeJSON (fst (failure_code e)) (ErrorJSON detail) r"
  by (auto simp: writeProviderError_def writeError_def failure_code_def split: option.split)


section \<open>Streams\<close>

definition chunk_text :: "chat_chunk \<Rightarrow> string" where
  "chunk_text c = concat (map (\<lambda>ch. sd_Content (sc_Delta ch)) (ck_Choices c))"

text \<open>The usage of the last chunk that carries one.\<close>

fun last_usage :: "usage \<Rightarrow> chat_chunk list \<Rightarrow> usage" where
  "last_usage u [] = u"
| "last_usage u (c # cs) = last_usage (case ck_Usage c of None \<Rightarrow> u | Some v \<Rightarrow> v) cs"

lemma last_usage_snoc: "last_usage u (cs @ [c]) = (case ck_Usage c of None \<Rightarrow> last_usage u cs | Some v \<Rightarrow> v)"
  by (induction cs arbitrary: u) (simp_all split: option.split)

text \<open>Between chunks: the variables of the callback describe the events on the wire.\<close>

definition streaming :: "int \<times> (string \<rightharpoonup> string) \<Rightarrow> string \<Rightarrow> stream_state \<Rightarrow> bool" where
  "streaming x alias_name st \<longleftrightarrow>
     committed_as x (ss_rec st) \<and> rw_faults (sr_w (ss_rec st)) = [] \<and>
     (\<exists>cs. rw_body (sr_w (ss_rec st)) = map EventChunk cs \<and> list_all (\<lambda>c. ck_Model c = alias_name) cs \<and>
        ss_full st = concat (map chunk_text cs) \<and> ss_usage st = last_usage zero_usage cs \<and> (ss_wrote st \<longleftrightarrow> cs \<noteq> []))"

lemma streaming_chunk:
  assumes "streaming x a st"
  shows "streaming x a (snd (snd (stream_onChunk a c ((), st))))"
proof -
  obtain cs where cs: "rw_body (sr_w (ss_rec st)) = map EventChunk cs" "list_all (\<lambda>c. ck_Model c = a) cs"
    "ss_full st = concat (map chunk_text cs)" "ss_usage st = last_usage zero_usage cs"
    using assms unfolding streaming_def by blast
  have c: "committed_as x (ss_rec st)" "rw_faults (sr_w (ss_rec st)) = []" using assms by (simp_all add: streaming_def)
  let ?c = "c\<lparr>ck_Model := a\<rparr>"
  have send: "sw_send ?c (ss_rec st) = (None, snd (Write (EventChunk ?c) (ss_rec st)))"
    using Write_holds(1)[OF c, of "EventChunk ?c"] by (simp add: sw_send_def split_beta)
  have t: "chunk_text ?c = chunk_text c" by (simp add: chunk_text_def)
  show ?thesis
    using committed_Write[OF c(1)] Write_holds(2,3)[OF c] cs t
    by (auto simp: streaming_def stream_onChunk_def send Let_def last_usage_snoc chunk_text_def intro!: exI[of _ "cs @ [?c]"]
        split: option.split)
qed

interpretation streaming: stream_invariant "streaming x a" a for x a
  by unfold_locales (rule streaming_chunk)

interpretation any_run: exec_success env call "\<lambda>_. True" "\<lambda>t r w. True" for env call
  by unfold_locales simp_all

lemma streamed_target:
  assumes "exec_ChatStream env cfg op ts req oc w = (Ret (t, None), w')"
  shows "\<exists>tg \<in> set ts. t = Some tg"
proof -
  obtain b where "exec_do (lift_env env) cfg (stream_call op oc) snd req ts (w, False) = (Ret (t, None), (w', b))"
    using assms unfolding exec_ChatStream_def by (auto split: prod.splits)
  from any_run.Q_exec_do[OF TrueI this] show ?thesis by blast
qed


lemma streaming_start:
  assumes "untouched r"
  shows "\<exists>h. streaming (200, h) a \<lparr>ss_rec = newStreamWriter (Set_header k v r), ss_full = '''', ss_usage = zero_usage, ss_wrote = False\<rparr>"
proof -
  have "rw_faults (sr_w (newStreamWriter r')) = []" "rw_body (sr_w (newStreamWriter r')) = []" if "untouched r'" for r'
  proof -
    have "untouched (set_headers hs r')" for hs using that by simp
    then show "rw_faults (sr_w (newStreamWriter r')) = []" "rw_body (sr_w (newStreamWriter r')) = []"
      by (simp_all add: newStreamWriter_def untouched_def WriteHeader_def rw_WriteHeader_def fresh_def)
  qed
  moreover have "fresh (Set_header k v r)" "untouched (Set_header k v r)" using assms by (simp_all add: untouched_def)
  ultimately show ?thesis
    using newStreamWriter_committed[of "Set_header k v r"] unfolding streaming_def by (intro exI conjI) simp_all
qed

lemma stream_end:
  assumes "committed_as x r" "rw_faults (sr_w r) = []"
  shows "rw_body (sr_w (sw_done r)) = rw_body (sr_w r) @ [EventDone]" "sr_status (sw_done r) = fst x"
    "\<exists>e. rw_body (sr_w (sw_done (sw_sendError err r))) = rw_body (sr_w r) @ [EventError e, EventDone]"
    "sr_status (sw_done (sw_sendError err r)) = fst x"
    "\<exists>e. rw_body (sr_w (writeProviderError err r)) = rw_body (sr_w r) @ [ErrorJSON e]"
    "sr_status (writeProviderError err r) = fst x"
proof -
  note w = Write_holds[OF assms]
  show "rw_body (sr_w (sw_done r)) = rw_body (sr_w r) @ [EventDone]" by (simp add: sw_done_def w)
  obtain e where e: "sw_sendError err r = snd (Write (EventError e) r)" by (simp add: sw_sendError_def Let_def)
  note w' = Write_holds[OF committed_Write[OF assms(1)] w(3)]
  show "\<exists>e. rw_body (sr_w (sw_done (sw_sendError err r))) = rw_body (sr_w r) @ [EventError e, EventDone]"
    by (intro exI[of _ e]) (simp add: e sw_done_def w w')
  have "committed_as x (Set_header k v r)" "rw_faults (sr_w (Set_header k v r)) = []" for k v
    using assms by (simp_all add: committed_Set_header)
  note ws = Write_holds[OF this] and wh = committed_WriteHeader[OF this(1)]
  obtain c b where "writeProviderError err r = writeJSON c (ErrorJSON b) r" using writeProviderError_json by blast
  then show "\<exists>e. rw_body (sr_w (writeProviderError err r)) = rw_body (sr_w r) @ [ErrorJSON e]"
    by (intro exI[of _ b]) (simp add: writeJSON_def wh ws)
  have s: "sr_status r' = fst x" if "committed_as x r'" for r' using that by (simp add: committed_as_def)
  show "sr_status (sw_done r) = fst x" "sr_status (sw_done (sw_sendError err r)) = fst x"
    "sr_status (writeProviderError err r) = fst x"
    by (rule s, simp add: assms committed_stream_writes committed_writeProviderError)+
qed


text \<open>
  C38. A stream is answered 200 before any provider is called. When the failover then fails, the client has a 200 event
  stream, whatever the kind of the error, while the ledger books the request with the status of that kind.
\<close>

theorem failed_stream_is_200:
  assumes "untouched (sv_rec s)" "sv_meter s = Some m" "sv_panic (serveStream d rc ts lk c s) = None"
    and "exec_ChatStream (lift_env (dp_exec d)) (dp_exec_cfg d) (lift_open (dp_stream d)) ts (rc_req rc)
      (stream_onChunk (cr_Model (rc_req rc))) (sv_world s,
        \<lparr>ss_rec = newStreamWriter (Set_header ''X-Cache'' (cache_status_string (cres_Status lk)) (sv_rec s)),
         ss_full = '''', ss_usage = zero_usage, ss_wrote = False\<rparr>) = (Ret (t, Some err), (w, st))"
  shows "sr_status (sv_rec (serveStream d rc ts lk c s)) = 200 \<and>
    booked rc m (fst (failure_code err)) (serveStream d rc ts lk c s)"
proof -
  obtain h where st0: "streaming (200, h) (cr_Model (rc_req rc))
      \<lparr>ss_rec = newStreamWriter (Set_header ''X-Cache'' (cache_status_string (cres_Status lk)) (sv_rec s)),
       ss_full = '''', ss_usage = zero_usage, ss_wrote = False\<rparr>" using streaming_start[OF assms(1)] by blast
  have st: "streaming (200, h) (cr_Model (rc_req rc)) st" by (rule streaming.J_ChatStream[OF assms(4) st0])
  note ends = stream_end[of "(200, h)" "ss_rec st"]
  define r where "r = (if ss_wrote st then sw_done (sw_sendError err (ss_rec st)) else writeProviderError err (ss_rec st))"
  have s: "serveStream d rc ts lk c s = meterProviderFailure d rc err (s\<lparr>sv_world := w, sv_rec := r\<rparr>)"
    using assms(4) by (cases t) (simp_all add: serveStream_def r_def)
  have "sr_status r = 200" using ends st by (simp add: r_def streaming_def)
  then show ?thesis
    using meterProviderFailure_booked[of "s\<lparr>sv_world := w, sv_rec := r\<rparr>" m d rc err] assms(2,3) by (simp add: s)
qed


section \<open>Cache hits\<close>

lemma serveFromCache_row:
  assumes "cres_Entry lk = Some e" "sv_meter s = Some m" "sv_panic (serveFromCache d rc lk s) = None"
  shows "\<exists>now row. meter_Record now row m = sv_meter (serveFromCache d rc lk s) \<and> ur_CostUSD row = 0 \<and>
    ur_Attempts row = 0 \<and> ur_Provider row = ce_Provider e \<and> ur_TenantID row = tn_ID (rc_tenant rc)"
proof -
  obtain rid v where v: "dp_newID d (sv_world s) = (rid, v)" by (metis surj_pair)
  obtain s2 where s2: "serveFromCache d rc lk s = meterCacheHit d rc (cres_Status lk) e s2" "sv_meter s2 = Some m"
    using assms(1,2) v by (simp add: serveFromCache_def Let_def)
  obtain s3 where s3: "serveFromCache d rc lk s = record_row d (hit_row d rc (cres_Status lk) e s3) s3" "sv_meter s3 = Some m"
    using assms(3) s2 by (auto simp: meterCacheHit_def Let_def split: if_splits)
  have "sv_panic (record_row d (hit_row d rc (cres_Status lk) e s3) s3) = None" using assms(3) s3(1) by simp
  from record_row_meter[OF s3(2) this] show ?thesis
    unfolding s3(1) by (intro exI conjI) (assumption, simp_all add: hit_row_def)
qed


text \<open>
  C3. What was served is served again. A unary completion that may be cached starts one cache write, and once it has run, over
  a Redis that keeps its values, every request of that tenant with equal key fields is an exact hit whose response
  has the text, the prompt and the completion tokens of the provider's answer, under the alias it asks for. The
  reason the completion finished is not kept: the replay says \<open>stop\<close>, also for a completion that was cut at its
  token limit.
\<close>

theorem served_then_cached:
  fixes digest embed_fn search upsert now metric
  defines "x \<equiv> map_env digest embed_fn search upsert now metric"
  assumes "exec_Chat (dp_exec d) (dp_exec_cfg d) (dp_chat d) ts (rc_req rc) (sv_world s) = (Ret (Some out, Some t, None), w)"
    and "dp_cache d \<noteq> None" "Text out \<noteq> ''''"
    and "same_key_fields (tn_ID (rc_tenant rc)) (rc_req rc) (tn_ID (rc_tenant rc)) req'"
  shows "\<exists>job e. sv_jobs (serveUnary d rc ts lk True s) = sv_jobs s @ [job] \<and>
    fst (Lookup x c' (tn_ID (rc_tenant rc)) req' (run_job x c job w')) = result_of StatusExactHit (Some e) 0 None \<and>
    Text (cached_response rid t' (cr_Model req') e) = Text out \<and>
    resp_Usage (cached_response rid t' (cr_Model req') e) =
      (resp_Usage out)\<lparr>us_TotalTokens := us_PromptTokens (resp_Usage out) + us_CompletionTokens (resp_Usage out)\<rparr> \<and>
    map ch_FinishReason (resp_Choices (cached_response rid t' (cr_Model req') e)) = [''stop'']"
proof -
  obtain job where job: "stored_job d rc t (Text out) (resp_Usage out) lk = [job]" using assms(3,4) by (simp add: stored_job_def)
  have "Text (out\<lparr>resp_Model := cr_Model (rc_req rc)\<rparr>) = Text out" by (simp add: Text_def)
  then have jobs: "sv_jobs (serveUnary d rc ts lk True s) = sv_jobs s @ [job]"
    using assms(2) job by (simp add: serveUnary_def Let_def storeAsync_jobs)
  have fields: "cj_Tenant job = tn_ID (rc_tenant rc)" "cj_Req job = rc_req rc" "ce_Completion (cj_Entry job) = Text out"
    "ce_PromptTokens (cj_Entry job) = us_PromptTokens (resp_Usage out)"
    "ce_CompletionTokens (cj_Entry job) = us_CompletionTokens (resp_Usage out)"
    using job by (auto simp: stored_job_def split: if_splits)
  let ?e = "(cj_Entry job)\<lparr>ce_CreatedAt := unix_seconds (xe_now x w')\<rparr>"
  have hit: "fst (Lookup x c' (tn_ID (rc_tenant rc)) req' (run_job x c job w')) = result_of StatusExactHit (Some ?e) 0 None"
    using map_store.store_then_hit[where digest = digest and embed_fn = embed_fn and search = search and upsert = upsert
      and now = now and metric = metric and t = "cj_Tenant job" and req = "cj_Req job" and e = "cj_Entry job" and w = w' and c = c
      and t' = "tn_ID (rc_tenant rc)" and req' = req' and c' = c' and vec = "cj_Vec job"] assms(5) fields(1,2)
    unfolding x_def run_job_def by simp
  show ?thesis
    using jobs hit fields by (intro exI[of _ job] exI[of _ ?e]) (simp add: cached_response_def Text_def)
qed


section \<open>On the small gateway\<close>

definition demo_served :: "(string \<rightharpoonup> cache_entry) \<times> unit \<Rightarrow> ((string \<rightharpoonup> cache_entry) \<times> unit) srv" where
  "demo_served w = serveUnary (demo_deps (Some (demo_cache_env, demo_cache))) (demo_rc False) [demo_target ''dev'']
     (result_of StatusMiss None 0 None) True (demo_srv w)"

lemma demo_untouched [simp]: "untouched (sv_rec (demo_srv w))"
  by (simp add: demo_srv_def untouched_def fresh_def new_recorder_def demo_writer_def)

lemma demo_meter_row [simp]: "sv_meter s = Some (meter_New demo_options) \<Longrightarrow> sv_panic (record_row d row s) = sv_panic s"
  by (simp add: record_row_def meter_Record_def record_send_def meter_New_def Let_def)

lemma demo_srv_simps [simp]: "sv_meter (demo_srv w) = Some (meter_New demo_options)" "sv_metrics (demo_srv w) = None"
  "sv_panic (demo_srv w) = None" "sv_world (demo_srv w) = w" "sv_jobs (demo_srv w) = []"
  by (simp_all add: demo_srv_def)

lemma no_metrics [simp]: "sv_metrics s = None \<Longrightarrow> record_usage p m i j c v st s = s"
  by (simp add: record_usage_def)

lemma metrics_frame [simp]: "sv_metrics (respond f s) = sv_metrics s" "sv_metrics (storeAsync d rc t x u v s) = sv_metrics s"
  by (simp_all add: respond_def storeAsync_def)

lemma demo_meterings [simp]:
  "sv_meter s = Some (meter_New demo_options) \<Longrightarrow> sv_metrics s = None \<Longrightarrow> sv_panic (meterSuccess d rc t u st s) = sv_panic s"
  "sv_meter s = Some (meter_New demo_options) \<Longrightarrow> sv_panic (meterFailure d rc k kd s) = sv_panic s"
  "sv_meter s = Some (meter_New demo_options) \<Longrightarrow> sv_panic (meterProviderFailure d rc err s) = sv_panic s"
  "sv_meter s = Some (meter_New demo_options) \<Longrightarrow> sv_metrics s = None \<Longrightarrow> sv_panic (meterCacheHit d rc st e s) = sv_panic s"
  by (simp_all add: meterSuccess_def meterFailure_def meterProviderFailure_def meterCacheHit_def Let_def split: prod.split)

lemma demo_deps_simps [simp]: "dp_chat (demo_deps c) = (\<lambda>t r w. (Inr (demo_answer ''Paris'' ''length''), w))"
  "dp_stream (demo_deps c) = (\<lambda>t r w. (([], Some (fault KindAuth)), w))" "dp_exec (demo_deps c) = demo_exec"
  "dp_exec_cfg (demo_deps c) = default_exec" "dp_cache (demo_deps c) = c" "dp_newID (demo_deps c) = (\<lambda>w. (''id'', w))"
  by (simp_all add: demo_deps_def)


text \<open>The only target refuses the stream before its first chunk.\<close>

definition demo_failed_stream :: "unit srv" where
  "demo_failed_stream = serveStream demo_gateway (demo_rc True) [demo_target ''dev''] (result_of StatusMiss None 0 None) True (demo_srv ())"

lemma demo_stream_run:
  "exec_ChatStream (lift_env demo_exec) default_exec (lift_open (\<lambda>t r w. (([], Some (fault KindAuth)), w))) [demo_target ''dev'']
     req oc (w, st) = (Ret (None, Some (fault KindAuth)), (w, st))"
  by (simp add: exec_ChatStream_def exec_do_def stream_call_def lift_open_def fault_def Errorf_def attemptWithRetries_def
      attempt_loop.simps max_attempts_def default_exec_def Let_def report_attempt_def record_fault_def Retryable_def
      Failoverable_def joinErrors_def)

lemma demo_stream_quiet: "sv_panic demo_failed_stream = None"
  by (simp add: demo_failed_stream_def serveStream_def Let_def demo_stream_run)


theorem failed_stream_is_200_witness:
  "sr_status (sv_rec demo_failed_stream) = 200 \<and> booked (demo_rc True) (meter_New demo_options) 502 demo_failed_stream"
proof -
  have "fst (failure_code (fault KindAuth)) = 502"
    by (simp add: failure_code_def fault_def Errorf_def HTTPStatus_def)
  moreover have "exec_ChatStream (lift_env (dp_exec demo_gateway)) (dp_exec_cfg demo_gateway) (lift_open (dp_stream demo_gateway))
      [demo_target ''dev''] (rc_req (demo_rc True)) oc (sv_world (demo_srv ()), st) = (Ret (None, Some (fault KindAuth)), ((), st))" for oc st
    by (simp add: demo_stream_run)
  ultimately show ?thesis
    using failed_stream_is_200[OF demo_untouched _ demo_stream_quiet[unfolded demo_failed_stream_def]]
    unfolding demo_failed_stream_def by fastforce
qed

definition demo_hit :: cache_result where
  "demo_hit = result_of StatusExactHit (Some demo_entry) 0 None"


theorem served_then_cached_witness:
  "\<exists>job e. sv_jobs (demo_served (Map.empty, ())) = [job] \<and>
     fst (Lookup demo_cache_env demo_cache ''acme'' (ask [say ''user'' ''hi'']) (run_job demo_cache_env demo_cache job (Map.empty, ())))
       = result_of StatusExactHit (Some e) 0 None \<and> Text (cached_response ''x'' 0 ''fast'' e) = ''Paris''"
proof -
  have f: "same_key_fields (tn_ID (rc_tenant (demo_rc False))) (rc_req (demo_rc False)) (tn_ID (rc_tenant (demo_rc False)))
      (ask [say ''user'' ''hi''])"
    by (simp add: same_key_fields_def demo_rc_def)
  have t: "Text (demo_answer ''Paris'' ''length'') = ''Paris''" by (simp add: Text_def demo_answer_def say_def)
  have run: "exec_Chat (dp_exec (demo_deps c)) (dp_exec_cfg (demo_deps c)) (dp_chat (demo_deps c)) [demo_target ''dev'']
      (rc_req (demo_rc False)) (sv_world (demo_srv w))
    = (Ret (Some (demo_answer ''Paris'' ''length''), Some (demo_target ''dev''), None), w)" for w c
    by (simp add: demo_unary)
  have "dp_cache (demo_deps (Some (demo_cache_env, demo_cache))) \<noteq> None" by simp
  from served_then_cached[OF run this _ f, where digest = "\<lambda>s. s" and embed_fn = "\<lambda>ts v. (Inr [[1]], v)"
      and search = "\<lambda>col q v. (Inr [\<lparr>sp_ID = ''1'', sp_Score = 99 / 100,
        sp_Payload = semantic_payload ''t'' (ask [say ''user'' ''hi'']) demo_entry\<rparr>], v)"
      and upsert = "\<lambda>col ps v. (None, v)" and now = "\<lambda>v. 0" and metric = "\<lambda>m v. v" and c = demo_cache and c' = demo_cache
      and w = "(Map.empty, ())" and w' = "(Map.empty, ())" and lk = "result_of StatusMiss None 0 None" and rid = "''x''" and t' = 0,
      unfolded demo_cache_env_def[symmetric] demo_served_def[symmetric]]
  show ?thesis by (auto simp: t demo_rc_def demo_guest_def ask_def)
qed

end
