(* ===== verification/Surface.thy ===== *)
theory Surface
  imports Server
begin

text \<open>
  The guard in front of the protected endpoints, and the endpoints other than completions.
\<close>

section \<open>The guard\<close>

text \<open>
  What the guard decides on a token: the status it answers itself, or the tenant that is let through and the headers the
  response then carries. A limiter that fails lets everyone through; a key store that fails, no one.
\<close>

definition gate ::
  "'w authenticator \<Rightarrow> (tenant \<Rightarrow> 'w \<Rightarrow> (go_error + limit_result) \<times> 'w) option \<Rightarrow> string \<Rightarrow> 'w
    \<Rightarrow> (int + tenant \<times> (string \<times> string) list) \<times> 'w" where
  "gate auth limit token w =
     (if token = '''' then (Inl 401, w)
      else case auth token w of
        (Inl e, w1) \<Rightarrow> (Inl (if errors_Is e ErrUnauthorized then 401 else 503), w1)
      | (Inr t, w1) \<Rightarrow>
          (case limit of
             None \<Rightarrow> (Inr (t, []), w1)
           | Some allow \<Rightarrow>
               (case allow t w1 of
                  (Inl e, w2) \<Rightarrow> (Inr (t, []), w2)
                | (Inr l, w2) \<Rightarrow> (if lr_Allowed l then Inr (t, writeHeaders l) else Inl 429, w2))))"

text \<open>
  C7. The guard refines its decision table: it asks the key store before the limiter and each at most once; a refused request gets
  exactly the status of the table and never reaches the endpoint, nor the ledger, the metrics or the cache; a request let through
  runs the endpoint, once, as the authenticated tenant, with the limit headers set and nothing yet sent.
\<close>

theorem protected_refines_gate:
  assumes "fresh (sv_rec s)"
  shows "case gate auth limit (bearerToken (rq_Header rq)) (sv_world s) of
      (Inl code, w) \<Rightarrow> sr_status (sv_rec (protected auth limit h rq s)) = code \<and>
        protected auth limit h rq s = s\<lparr>sv_world := w, sv_rec := sv_rec (protected auth limit h rq s)\<rparr>
    | (Inr (t, hs), w) \<Rightarrow> protected auth limit h rq s
        = h (rq\<lparr>rq_Tenant := Some t\<rparr>) (s\<lparr>sv_world := w, sv_rec := set_headers hs (sv_rec s)\<rparr>)"
proof (cases "bearerToken (rq_Header rq) = ''''")
  case True
  then show ?thesis using assms by (simp add: protected_def withAuth_def gate_def respond_def fresh_writeError_status)
next
  case False
  obtain res w where a: "auth (bearerToken (rq_Header rq)) (sv_world s) = (res, w)" by (metis surj_pair)
  show ?thesis
  proof (cases res)
    case (Inl e)
    then show ?thesis
      using False a assms by (simp add: protected_def withAuth_def gate_def respond_def fresh_writeError_status)
  next
    case (Inr t)
    show ?thesis
    proof (cases limit)
      case None
      then show ?thesis using False a Inr by (simp add: protected_def withAuth_def gate_def withRateLimit_def set_headers_def)
    next
      case (Some allow)
      obtain l w2 where "allow t w = (l, w2)" by (metis surj_pair)
      then show ?thesis
        using False a Inr Some assms
        by (cases l) (simp_all add: protected_def withAuth_def gate_def withRateLimit_def respond_def fresh_writeError_status
          set_headers_def[of "[]"])
    qed
  qed
qed

theorem protected_refines_gate_witness:
  "sr_status (sv_rec (protected (dp_auth demo_gateway) (Some (\<lambda>t w. (Inr demo_refusal, w))) (handleModels demo_gateway)
     (demo_rq ''GET'' ''/v1/models'' None) (demo_srv ()))) = 429"
proof -
  have f: "fresh (sv_rec (demo_srv ()))" by (simp add: demo_srv_def fresh_new_recorder demo_writer_def)
  have "bearerToken (rq_Header (demo_rq ''GET'' ''/v1/models'' None)) = ''key''"
    by (simp add: demo_rq_def bearerToken_def TrimSpace_def is_space_def)
  then have "gate (dp_auth demo_gateway) (Some (\<lambda>t w. (Inr demo_refusal, w)))
      (bearerToken (rq_Header (demo_rq ''GET'' ''/v1/models'' None))) (sv_world (demo_srv ())) = (Inl 429, ())"
    by (simp add: gate_def demo_deps_def demo_refusal_def)
  with protected_refines_gate[OF f, where auth = "dp_auth demo_gateway" and limit = "Some (\<lambda>t w. (Inr demo_refusal, w))"
      and rq = "demo_rq ''GET'' ''/v1/models'' None" and h = "handleModels demo_gateway"]
  show ?thesis by simp
qed

section \<open>Embeddings\<close>

text \<open>
  An outage can be reported as a client error. Of two targets for an embeddings model the first, which supports them, is
  down, and the second has no embeddings API: the error of the first is overwritten, and the client is told, with status 400, that
  no configured provider supports embeddings, where the first error alone is answered with its own status.
\<close>

theorem embeddings_masks_outage:
  assumes "call a (req\<lparr>er_Model := tg_Model a\<rparr>) w = (Inl e1, w1)" "AsError e1 = Some pe" "Failoverable pe"
    and "\<not> errors_Is e1 ErrUnsupported"
    and "call b (req\<lparr>er_Model := tg_Model b\<rparr>) w1 = (Inl e2, w2)" "errors_Is e2 ErrUnsupported" "fresh (sv_rec s)"
  shows "embed_targets call req [a, b] None w = (Inl (Some e2), w2) \<and>
    sr_status (sv_rec (embeddings_error (Some e2) s)) = 400 \<and>
    sr_status (sv_rec (embeddings_error (Some e1) s)) = HTTPStatus pe"
  using assms
  by (simp add: embeddings_error_def respond_def fresh_writeError_status fresh_writeProviderError_status failure_code_def)

theorem embeddings_masks_outage_witness:
  "sr_status (sv_rec (embeddings_error (Some (Sentinel ErrUnsupported)) (demo_srv ()))) = 400 \<and>
   embed_targets (\<lambda>t r w. (Inl (if tg_Model t = ''up'' then fault KindUnavailable else Sentinel ErrUnsupported), w))
     \<lparr>er_Model = ''e'', er_Input = [''x''], er_User = '''', er_Dims = None\<rparr>
     [(demo_target ''a'')\<lparr>tg_Model := ''up''\<rparr>, demo_target ''b''] None () = (Inl (Some (Sentinel ErrUnsupported)), ())"
proof -
  have f: "fresh (sv_rec (demo_srv ()))" by (simp add: demo_srv_def fresh_new_recorder demo_writer_def)
  have e: "AsError (fault KindUnavailable) = Some (Errorf KindUnavailable ''p'' ''failed'')"
    "Failoverable (Errorf KindUnavailable ''p'' ''failed'')" "\<not> errors_Is (fault KindUnavailable) ErrUnsupported"
    "errors_Is (Sentinel ErrUnsupported) ErrUnsupported"
    by (simp_all add: fault_def Errorf_def Failoverable_def)
  show ?thesis
    using embeddings_masks_outage[OF _ e(1,2,3) _ e(4) f,
      where call = "\<lambda>t r w. (Inl (if tg_Model t = ''up'' then fault KindUnavailable else Sentinel ErrUnsupported), w)"
        and a = "(demo_target ''a'')\<lparr>tg_Model := ''up''\<rparr>" and b = "demo_target ''b''" and w = "()"
        and req = "\<lparr>er_Model = ''e'', er_Input = [''x''], er_User = '''', er_Dims = None\<rparr>"]
    by (simp add: demo_target_def)
qed

section \<open>Readiness\<close>

text \<open>
  The readiness probe never fails. Whatever state the stores and the providers are in, it answers 200 with status \<open>ok\<close>; the
  state of the cache is a line in the body.
\<close>

theorem readiness_never_fails:
  assumes "fresh (sv_rec s)" "rw_faults (sr_w (sv_rec s)) = []"
  shows "sr_status (sv_rec (handleReady d rq s)) = 200 \<and>
    (\<exists>more. rw_body (sr_w (sv_rec (handleReady d rq s))) = rw_body (sr_w (sv_rec s)) @ [StatusJSON ((''status'', ''ok'') # more)])"
  using fresh_writeJSON_status[OF assms(1)] writeJSON_body[OF assms]
  by (simp add: handleReady_def Let_def respond_def)

theorem readiness_never_fails_witness:
  "sr_status (sv_rec (handleReady (demo_deps (Some (dead_cache_env, demo_cache))) (demo_rq ''GET'' ''/readyz'' None) (demo_srv ()))) = 200"
proof -
  have "fresh (sv_rec (demo_srv ()))" "rw_faults (sr_w (sv_rec (demo_srv ()))) = []"
    by (simp_all add: demo_srv_def fresh_new_recorder demo_writer_def new_recorder_def fresh_def)
  then show ?thesis by (simp add: readiness_never_fails)
qed

section \<open>Routing\<close>

text \<open>
  The table of the endpoints as a client sees it: an endpoint is asked for by its path and its method; one for GET serves
  HEAD as well.
\<close>

definition has_path :: "http_req \<Rightarrow> string \<times> string list \<times> 'w handler \<Rightarrow> bool" where
  "has_path rq = (\<lambda>(m, ps, h). rq_Path rq = CHR ''/'' # Join ''/'' ps)"

definition asked :: "http_req \<Rightarrow> string \<times> string list \<times> 'w handler \<Rightarrow> bool" where
  "asked rq = (\<lambda>(m, ps, h). rq_Path rq = CHR ''/'' # Join ''/'' ps \<and> (rq_Method rq = m \<or> m = ''GET'' \<and> rq_Method rq = ''HEAD''))"

definition not_served :: "http_req \<Rightarrow> ('w, 'b) deps \<Rightarrow> status_recorder \<Rightarrow> status_recorder" where
  "not_served rq d =
     (case List.find (has_path rq) (endpoints d) of
        Some (m, ps, h) \<Rightarrow>
          plain_error 405 ''Method Not Allowed'' \<circ> Set_header ''Allow'' (if m = ''GET'' then ''GET, HEAD'' else ''POST'')
      | None \<Rightarrow> plain_error 404 ''404 page not found'')"

lemma endpoint_segs:
  assumes "(m, ps, h) \<in> set (endpoints d)"
  shows "path_segs (CHR ''/'' # cs) = ps \<longleftrightarrow> cs = Join ''/'' ps" "last ps \<noteq> ''/''" "m \<in> {''GET'', ''POST''}"
proof -
  have "split_path (Join ''/'' ps) = ps" "last ps \<noteq> ''''" and l: "last ps \<noteq> ''/''" and m: "m \<in> {''GET'', ''POST''}"
    using assms by (auto simp: endpoints_def)
  then show "path_segs (CHR ''/'' # cs) = ps \<longleftrightarrow> cs = Join ''/'' ps" by (intro path_segs_literal)
  show "last ps \<noteq> ''/''" "m \<in> {''GET'', ''POST''}" using l m .
qed

lemma endpoints_distinct: "distinct (map (\<lambda>(m, ps, h). ps) (endpoints d))"
  by (simp add: endpoints_def)

lemma covers_endpoint:
  "covers (fst (endpoint_pattern (m, ps, h))) host path \<longleftrightarrow> path_segs path = ps"
  by (simp add: covers_def endpoint_pattern_def segs_match_Lit)

lemma filter_endpoints:
  assumes "rq_Path rq = CHR ''/'' # cs"
  shows "filter (\<lambda>(p, h). covers p host (rq_Path rq) \<and> method_matches (pt_method p) (rq_Method rq)) (api_mux d)
    = map endpoint_pattern (filter (asked rq) (endpoints d))"
proof -
  have "covers (fst (endpoint_pattern e)) host (rq_Path rq) \<and> method_matches (pt_method (fst (endpoint_pattern e))) (rq_Method rq)
      \<longleftrightarrow> asked rq e" if e: "e \<in> set (endpoints d)" for e
  proof -
    obtain m ps h where [simp]: "e = (m, ps, h)" by (rule prod_cases3)
    note s = endpoint_segs[OF e[simplified]]
    have [simp]: "pt_method (fst (endpoint_pattern (m, ps, h))) = m" by (simp add: endpoint_pattern_def)
    show ?thesis using s(3) by (auto simp: covers_endpoint assms s(1) asked_def method_matches_def)
  qed
  then show ?thesis unfolding api_mux_def filter_map by (intro arg_cong[where f = "map endpoint_pattern"] filter_cong) (simp_all add: split_beta)
qed

lemma api_mux_pattern: "(q, x) \<in> set (api_mux d) \<Longrightarrow> pt_host q = '''' \<and> pt_method q \<in> {''GET'', ''POST''}"
  by (auto simp: api_mux_def endpoints_def endpoint_pattern_def)

lemma find_hd_filter: "List.find P xs = (case filter P xs of [] \<Rightarrow> None | x # _ \<Rightarrow> Some x)"
  by (induction xs) simp_all

lemma allowed_endpoints:
  assumes "rq_Path rq = CHR ''/'' # cs"
  shows "allowed_methods (api_mux d) host (rq_Path rq) =
    (case List.find (has_path rq) (endpoints d) of
       None \<Rightarrow> [] | Some (m, ps, h) \<Rightarrow> if m = ''GET'' then [''GET'', ''HEAD''] else [''POST''])"
proof -
  let ?f = "\<lambda>(p, h). if covers p host (rq_Path rq) \<or> last (rq_Path rq) \<noteq> CHR ''/'' \<and> covers p host (rq_Path rq @ ''/'')
        then pt_method p # (if pt_method p = ''GET'' then [''HEAD''] else []) else []"
  have "?f (endpoint_pattern e) = (if has_path rq e then (case e of (m, ps, h) \<Rightarrow> m # (if m = ''GET'' then [''HEAD''] else [])) else [])"
    if e: "e \<in> set (endpoints d)" for e
  proof -
    obtain m ps h where [simp]: "e = (m, ps, h)" by (rule prod_cases3)
    note s = endpoint_segs[OF e[simplified]]
    have "path_segs (rq_Path rq @ ''/'') \<noteq> ps" using s(2) path_segs_slash[of cs] unfolding assms by metis
    moreover have "pt_method (fst (endpoint_pattern (m, ps, h))) = m" by (simp add: endpoint_pattern_def)
    ultimately show ?thesis by (simp add: split_beta covers_endpoint assms s(1) has_path_def del: append_Cons)
  qed
  then have m: "map ?f (api_mux d) =
      map (\<lambda>e. if has_path rq e then (case e of (m, ps, h) \<Rightarrow> m # (if m = ''GET'' then [''HEAD''] else [])) else []) (endpoints d)"
    unfolding api_mux_def map_map by (intro map_cong) simp_all
  show ?thesis
    unfolding allowed_methods_def m by (simp add: endpoints_def has_path_def assms)
qed



end
