(* ===== verification/Failover.thy ===== *)
theory Failover
  imports ExecRules
begin

text \<open>
  The executor of \<open>internal/resilience/executor.go\<close> on the breaker of \<open>breaker.go\<close>, as \<open>main.go\<close>
  wires them: \<open>with_breaker\<close> is the executor's environment whose \<open>Allow\<close> and \<open>Record\<close> are the
  guard's, over a store of circuits kept beside the rest of the world. The properties are proved in
  the context of the store interface \<open>breaker_store\<close>, so they hold of both stores: how many calls a
  provider that is down gets over any sequence of requests, and what a store that is down costs.
\<close>

section \<open>The composed environment\<close>

definition with_breaker ::
  "bool \<Rightarrow> (instant \<Rightarrow> string \<Rightarrow> 's \<Rightarrow> (go_error + breaker_state) \<times> 's)
    \<Rightarrow> (instant \<Rightarrow> string \<Rightarrow> 's \<Rightarrow> (go_error + breaker_state) \<times> 's)
    \<Rightarrow> (instant \<Rightarrow> string \<Rightarrow> 's \<Rightarrow> (go_error + breaker_state) \<times> 's)
    \<Rightarrow> ('x \<Rightarrow> instant) \<Rightarrow> 'x exec_env \<Rightarrow> ('s \<times> 'x) exec_env" where
  "with_breaker enabled snapshot success failure clock env =
     \<lparr>ee_ctx_err = (\<lambda>(s, x). ee_ctx_err env x),
      ee_wait = (\<lambda>d (s, x). let (e, x') = ee_wait env d x in (e, (s, x'))),
      ee_int63n = (\<lambda>n (s, x). let (i, x') = ee_int63n env n x in (i, (s, x'))),
      ee_allow = (\<lambda>p (s, x). let (a, s') = Allow enabled snapshot (clock x) p s in (a, (s', x))),
      ee_record = (\<lambda>p ok (s, x). (breaker_Record enabled success failure (clock x) p ok s, x)),
      ee_report = (\<lambda>i (s, x). (s, ee_report env i x))\<rparr>"

text \<open>A provider call does not touch the circuits.\<close>

definition beside :: "'x caller \<Rightarrow> ('s \<times> 'x) caller" where
  "beside call t r = (\<lambda>(s, x). let (e, x') = call t r x in (e, (s, x')))"

text \<open>A gateway that serves a list of requests, each with its routed targets, one after the other.\<close>

fun serve_all :: "'w exec_env \<Rightarrow> exec_config \<Rightarrow> 'w caller \<Rightarrow> ('w \<Rightarrow> bool)
    \<Rightarrow> (chat_request \<times> target list) list \<Rightarrow> 'w \<times> exec_event list \<Rightarrow> 'w \<times> exec_event list" where
  "serve_all env cfg call com [] wl = wl"
| "serve_all env cfg call com ((req, ts) # rs) wl =
     serve_all env cfg call com rs
       (snd (exec_do (traced env) cfg (traced_call call) (\<lambda>(w, l). com w) req ts wl))"

section \<open>What is counted in the log\<close>

fun calls_to :: "string \<Rightarrow> exec_event list \<Rightarrow> int" where
  "calls_to p [] = 0"
| "calls_to p (ECall t r e # es) = (if provider_Name (tg_Provider t) = p then 1 else 0) + calls_to p es"
| "calls_to p (_ # es) = calls_to p es"

fun faults :: "string \<Rightarrow> exec_event list \<Rightarrow> int" where
  "faults p [] = 0"
| "faults p (ERecord q ok # es) = (if q = p \<and> \<not> ok then 1 else 0) + faults p es"
| "faults p (_ # es) = faults p es"

text \<open>No success of the provider was recorded.\<close>

fun unsuccessful :: "string \<Rightarrow> exec_event list \<Rightarrow> bool" where
  "unsuccessful p [] = True"
| "unsuccessful p (ERecord q ok # es) = ((q = p \<longrightarrow> \<not> ok) \<and> unsuccessful p es)"
| "unsuccessful p (_ # es) = unsuccessful p es"

text \<open>After \<open>n\<close> faults, the provider is admitted exactly while fewer than \<open>k\<close> faults are recorded.\<close>

fun rationed :: "string \<Rightarrow> int \<Rightarrow> int \<Rightarrow> exec_event list \<Rightarrow> bool" where
  "rationed p k n [] = True"
| "rationed p k n (EAllow q ok st # es) = ((q = p \<longrightarrow> (ok \<longleftrightarrow> n < k)) \<and> rationed p k n es)"
| "rationed p k n (ERecord q ok # es) = rationed p k (if q = p \<and> \<not> ok then n + 1 else n) es"
| "rationed p k n (_ # es) = rationed p k n es"

text \<open>The provider is down: every call of it fails, with an error that counts against it.\<close>

definition is_fault :: "go_error option \<Rightarrow> bool" where
  "is_fault e \<longleftrightarrow> (\<exists>x pe. e = Some x \<and> AsError x = Some pe \<and> countsAgainstProvider (pe_Kind pe))"

fun faulty :: "string \<Rightarrow> exec_event \<Rightarrow> bool" where
  "faulty p (ECall t r e) = (provider_Name (tg_Provider t) = p \<longrightarrow> is_fault e)"
| "faulty p _ = True"

definition provider_down :: "'x caller \<Rightarrow> string \<Rightarrow> bool" where
  "provider_down call p \<longleftrightarrow>
     (\<forall>t r x. provider_Name (tg_Provider t) = p \<longrightarrow> is_fault (fst (call t r x)))"

text \<open>Time does not run backwards.\<close>

definition clock_advances :: "('x \<Rightarrow> instant) \<Rightarrow> 'x exec_env \<Rightarrow> 'x caller \<Rightarrow> bool" where
  "clock_advances clock env call \<longleftrightarrow>
     (\<forall>x. (\<forall>d. clock x \<le> clock (snd (ee_wait env d x))) \<and>
          (\<forall>n. clock x \<le> clock (snd (ee_int63n env n x))) \<and>
          (\<forall>i. clock x \<le> clock (ee_report env i x)) \<and>
          (\<forall>t r. clock x \<le> clock (snd (call t r x))))"

lemma calls_to_append [simp]: "calls_to p (xs @ ys) = calls_to p xs + calls_to p ys"
  by (induction p xs rule: calls_to.induct) auto

lemma faults_append [simp]: "faults p (xs @ ys) = faults p xs + faults p ys"
  by (induction p xs rule: faults.induct) auto

lemma unsuccessful_append [simp]: "unsuccessful p (xs @ ys) = (unsuccessful p xs \<and> unsuccessful p ys)"
  by (induction p xs rule: unsuccessful.induct) auto

lemma rationed_append [simp]:
  "rationed p k n (xs @ ys) = (rationed p k n xs \<and> rationed p k (n + faults p xs) ys)"
  by (induction p k n xs rule: rationed.induct) (auto simp: add.assoc)

lemma faults_nonneg [simp]: "0 \<le> faults p l"
  by (induction p l rule: faults.induct) auto

lemma calls_to_le: "calls_to p l \<le> n_calls l"
  by (induction p l rule: calls_to.induct) (auto simp: n_calls_def)

section \<open>A provider that is down, in the protocol\<close>

lemma failed_call_counts:
  assumes "faulty p (ECall t r (Some e))"
  shows "unsuccessful p (failed_call t r st a e)" "rationed p k n (failed_call t r st a e)"
    "calls_to p (failed_call t r st a e) = faults p (failed_call t r st a e)"
    "provider_Name (tg_Provider t) \<noteq> p \<Longrightarrow> faults p (failed_call t r st a e) = 0"
  using assms by (auto simp: failed_call_def fault_events_def report_of_def is_fault_def split: option.splits)

lemma failed_call_faulty [simp]:
  "list_all (faulty p) (failed_call t r st a e) = faulty p (ECall t r (Some e))"
  by (auto simp: failed_call_def fault_events_def report_of_def split: option.splits)

lemma attempt_trace_counts:
  assumes "attempt_trace cfg t r st a es res" "list_all (faulty p) es"
  shows "unsuccessful p es \<and> rationed p k n es \<and> calls_to p es = faults p es \<and>
    (provider_Name (tg_Provider t) \<noteq> p \<longrightarrow> faults p es = 0)"
  using assms
  by (induction arbitrary: n rule: attempt_trace.induct)
     (auto simp: report_of_def is_fault_def failed_call_counts simp del: faulty.simps(1), auto simp: is_fault_def)

text \<open>
  An admission that finds the provider short of the limit spends at most the attempts of one target.
\<close>

lemma attempt_trace_rationed:
  assumes "attempt_trace cfg t r st 1 es res" "list_all (faulty p) es"
    and "provider_Name (tg_Provider t) = p \<Longrightarrow> n < k"
  shows "n + faults p es \<le> max n (k - 1 + max_attempts cfg)"
  using attempt_trace_counts[OF assms(1,2)] attempt_trace_log(1)[OF assms(1)] calls_to_le[of p es] assms(3)
  by (cases "provider_Name (tg_Provider t) = p") auto

lemma failover_trace_counts:
  assumes "failover_trace cfg req errs ts es res" "list_all (faulty p) es"
  shows "unsuccessful p es \<and> calls_to p es = faults p es"
  using assms
  by (induction rule: failover_trace.induct) (auto simp: report_of_def dest: attempt_trace_counts)

lemma failover_trace_rationed:
  assumes "failover_trace cfg req errs ts es res" "list_all (faulty p) es" "rationed p k n es"
  shows "n + faults p es \<le> max n (k - 1 + max_attempts cfg)"
  using assms
proof (induction arbitrary: n rule: failover_trace.induct)
  case (ft_next t st es e errs ts es' res)
  have "n + faults p es \<le> max n (k - 1 + max_attempts cfg)"
    using ft_next.prems by (intro attempt_trace_rationed[OF ft_next.hyps(1)]) auto
  moreover have "n + faults p es + faults p es' \<le> max (n + faults p es) (k - 1 + max_attempts cfg)"
    using ft_next.prems by (intro ft_next.IH) auto
  ultimately show ?case by simp
qed (auto simp: report_of_def dest: attempt_trace_rationed[where p = p])

section \<open>The circuit of a provider that is down\<close>

text \<open>The circuit of \<open>p\<close> against the log: it has counted the faults, and is open from the limit on.\<close>

definition ledger :: "breaker_config \<Rightarrow> breaker_entry \<Rightarrow> instant \<Rightarrow> string \<Rightarrow> exec_event list \<Rightarrow> bool" where
  "ledger cfg e t0 p l \<longleftrightarrow>
     be_failures e = faults p l \<and>
     be_state e = (if faults p l < bc_FailureThreshold cfg then StateClosed else StateOpen) \<and>
     (bc_FailureThreshold cfg \<le> faults p l \<longrightarrow> t0 \<le> be_openedAt e) \<and>
     rationed p (bc_FailureThreshold cfg) 0 l"

lemma ledger_start: "1 \<le> bc_FailureThreshold cfg \<Longrightarrow> ledger cfg new_entry t0 p []"
  by (simp add: ledger_def new_entry_def)

lemma ledger_hot: "ledger cfg e t0 p l \<Longrightarrow> now < t0 + bc_OpenDuration cfg \<Longrightarrow> \<not> cooled cfg now e"
  by (auto simp: ledger_def cooled_def)

lemma ledger_allow:
  assumes "ledger cfg e t0 p l" "\<not> cooled cfg now e"
  shows "be_state (entry_snapshot cfg now e) \<noteq> StateOpen \<longleftrightarrow> faults p l < bc_FailureThreshold cfg"
    and "ledger cfg (entry_snapshot cfg now e) t0 p (l @ [EAllow q ok st]) \<longleftrightarrow>
      (q = p \<longrightarrow> (ok \<longleftrightarrow> faults p l < bc_FailureThreshold cfg))"
  using assms by (auto simp: snapshot_not_cooled ledger_def)

lemma ledger_fault:
  assumes "ledger cfg e t0 p l" "t0 \<le> now"
  shows "ledger cfg (entry_failure cfg now e) t0 p (l @ [ERecord p False])"
  using assms by (auto simp: ledger_def entry_failure_def Let_def)

lemma ledger_other [simp]:
  "ledger cfg e t0 p (l @ [ECall t r x]) = ledger cfg e t0 p l"
  "ledger cfg e t0 p (l @ [EReport i]) = ledger cfg e t0 p l"
  "ledger cfg e t0 p (l @ [EWait d x]) = ledger cfg e t0 p l"
  "ledger cfg e t0 p (l @ [EOpen t cs fin]) = ledger cfg e t0 p l"
  "ledger cfg e t0 p (l @ [EChunk ch]) = ledger cfg e t0 p l"
  "q \<noteq> p \<Longrightarrow> ledger cfg e t0 p (l @ [ERecord q ok]) = ledger cfg e t0 p l"
  "q \<noteq> p \<Longrightarrow> ledger cfg e t0 p (l @ [EAllow q ok st]) = ledger cfg e t0 p l"
  by (auto simp: ledger_def)

lemma with_breaker_simps [frame_simps]:
  "ee_ctx_err (with_breaker en sn su fa clock env) (s, x) = ee_ctx_err env x"
  "ee_wait (with_breaker en sn su fa clock env) d (s, x) = (fst (ee_wait env d x), (s, snd (ee_wait env d x)))"
  "ee_int63n (with_breaker en sn su fa clock env) n (s, x) =
     (fst (ee_int63n env n x), (s, snd (ee_int63n env n x)))"
  "ee_allow (with_breaker en sn su fa clock env) p (s, x) =
     (fst (Allow en sn (clock x) p s), (snd (Allow en sn (clock x) p s), x))"
  "ee_record (with_breaker en sn su fa clock env) p ok (s, x) = (breaker_Record en su fa (clock x) p ok s, x)"
  "ee_report (with_breaker en sn su fa clock env) i (s, x) = (s, ee_report env i x)"
  "beside call t r (s, x) = (fst (call t r x), (s, snd (call t r x)))"
  by (simp_all add: with_breaker_def beside_def split_beta)

definition under_ledger ::
  "('s \<Rightarrow> bool) \<Rightarrow> ('s \<Rightarrow> string \<Rightarrow> breaker_entry) \<Rightarrow> breaker_config \<Rightarrow> ('x \<Rightarrow> instant) \<Rightarrow> instant \<Rightarrow> string
    \<Rightarrow> ('s \<times> 'x) \<times> exec_event list \<Rightarrow> bool" where
  "under_ledger up view cfg clock t0 p = (\<lambda>((s, x), l).
     up s \<and> t0 \<le> clock x \<and>
     (clock x < t0 + bc_OpenDuration cfg \<and> unsuccessful p l \<longrightarrow> ledger cfg (view s p) t0 p l))"

lemma clock_advancesD:
  assumes "clock_advances clock env call"
  shows "clock x \<le> clock (snd (ee_wait env d x))" "clock x \<le> clock (snd (ee_int63n env n x))"
    "clock x \<le> clock (ee_report env i x)" "clock x \<le> clock (snd (call t r x))"
  using assms by (simp_all add: clock_advances_def)

text \<open>A step that moves time on, leaves the circuits alone and logs no admission and no record.\<close>

lemma under_ledger_step:
  assumes "under_ledger up view cfg clock t0 p ((s, x), l)" "clock x \<le> clock x'"
    "ledger cfg (view s p) t0 p (l @ es) = ledger cfg (view s p) t0 p l" "unsuccessful p es"
  shows "under_ledger up view cfg clock t0 p ((s, x'), l @ es)"
  using assms by (auto simp: under_ledger_def)

context breaker_store
begin

lemma Allow_ledger:
  assumes "under_ledger up view cfg clock t0 p ((s, x), l)" "Allow True snapshot (clock x) q s = ((ok, st), s')"
  shows "under_ledger up view cfg clock t0 p ((s', x), l @ [EAllow q ok st])"
proof -
  have up: "up s" using assms(1) by (simp add: under_ledger_def)
  have s': "up s'" "view s' = (view s)(q := entry_snapshot cfg (clock x) (view s q))"
    and ok: "ok \<longleftrightarrow> be_state (entry_snapshot cfg (clock x) (view s q)) \<noteq> StateOpen"
    using assms(2) up_snapshot[of "clock x" q s] snapshot_view[OF up, of "clock x" q]
      snapshot_result[OF up, of "clock x" q] up
    by (auto simp: Allow_def split: prod.splits sum.splits)
  have l: "ledger cfg (view s' p) t0 p (l @ [EAllow q ok st])" if "ledger cfg (view s p) t0 p l"
      "clock x < t0 + bc_OpenDuration cfg"
    using that s' ok ledger_hot[OF that] ledger_allow[OF that(1) ledger_hot[OF that]] by (cases "q = p") auto
  show ?thesis using assms(1) l s'(1) by (auto simp: under_ledger_def)
qed

lemma Record_ledger:
  assumes "under_ledger up view cfg clock t0 p ((s, x), l)"
  shows "under_ledger up view cfg clock t0 p
    ((breaker_Record True success failure (clock x) q ok s, x), l @ [ERecord q ok])"
proof -
  have up: "up s" and t0: "t0 \<le> clock x" using assms by (auto simp: under_ledger_def)
  have l: "ledger cfg (view (breaker_Record True success failure (clock x) q ok s) p) t0 p (l @ [ERecord q ok])"
    if "ledger cfg (view s p) t0 p l" "clock x < t0 + bc_OpenDuration cfg" "q = p \<longrightarrow> \<not> ok"
    using that up t0 ledger_hot[OF that(1,2)] ledger_fault[OF that(1) t0]
    by (cases "q = p") (auto simp: breaker_Record_def failure_view success_frame failure_frame)
  show ?thesis using assms l up by (auto simp: under_ledger_def breaker_Record_def up_success up_failure)
qed

lemma keeps_ledger:
  assumes "clock_advances clock env call"
  shows "exec_invariant (traced (with_breaker True snapshot success failure clock env))
    (traced_call (beside call)) (under_ledger up view cfg clock t0 p)"
proof -
  note adv = clock_advancesD[OF assms]
  show ?thesis
  proof (unfold_locales, goal_cases)
    case (1 w d)
    then show ?case by (cases w; cases "fst w") (auto simp: frame_simps intro!: under_ledger_step adv)
  next
    case (2 w n)
    then show ?case
      by (cases w; cases "fst w") (auto simp: frame_simps intro: under_ledger_step[where es = "[]", simplified] adv)
  next
    case (3 w q)
    then show ?case by (cases w; cases "fst w") (auto simp: frame_simps intro: Allow_ledger)
  next
    case (4 w q ok)
    then show ?case by (cases w; cases "fst w") (auto simp: frame_simps intro: Record_ledger)
  next
    case (5 w i)
    then show ?case by (cases w; cases "fst w") (auto simp: frame_simps intro!: under_ledger_step adv)
  next
    case (6 w t r)
    then show ?case by (cases w; cases "fst w") (auto simp: frame_simps intro!: under_ledger_step adv)
  qed
qed

end

section \<open>How many calls a provider that is down gets\<close>

lemma clock_invariant:
  assumes "clock_advances clock env call"
  shows "exec_invariant (traced (with_breaker en sn su fa clock env)) (traced_call (beside call))
    (\<lambda>wl. c \<le> clock (snd (fst wl)))"
proof -
  note adv = order_trans[OF _ clock_advancesD(1)[OF assms]] order_trans[OF _ clock_advancesD(2)[OF assms]]
    order_trans[OF _ clock_advancesD(3)[OF assms]] order_trans[OF _ clock_advancesD(4)[OF assms]]
  show ?thesis by unfold_locales (auto simp: frame_simps intro: adv)
qed

lemma faulty_invariant:
  assumes "provider_down call p"
  shows "exec_invariant (traced (with_breaker en sn su fa clock env)) (traced_call (beside call))
    (\<lambda>wl. \<exists>es. snd wl = pre @ es \<and> list_all (faulty p) es)"
  using assms by unfold_locales (auto simp: frame_simps provider_down_def)

definition contained ::
  "('s \<Rightarrow> bool) \<Rightarrow> ('s \<Rightarrow> string \<Rightarrow> breaker_entry) \<Rightarrow> breaker_config \<Rightarrow> exec_config \<Rightarrow> ('x \<Rightarrow> instant) \<Rightarrow> instant
    \<Rightarrow> string \<Rightarrow> ('s \<times> 'x) \<times> exec_event list \<Rightarrow> bool" where
  "contained up view cfg ecfg clock t0 p wl \<longleftrightarrow> under_ledger up view cfg clock t0 p wl \<and>
     (case wl of ((s, x), l) \<Rightarrow>
       unsuccessful p l \<and> calls_to p l = faults p l \<and>
       (clock x < t0 + bc_OpenDuration cfg \<longrightarrow>
          faults p l \<le> bc_FailureThreshold cfg - 1 + max_attempts ecfg))"

context breaker_store
begin

lemma contained_do:
  assumes adv: "clock_advances clock env call" and down: "provider_down call p"
    and wl: "contained up view cfg ecfg clock t0 p wl"
  shows "contained up view cfg ecfg clock t0 p
    (snd (exec_do (traced (with_breaker True snapshot success failure clock env)) ecfg
       (traced_call (beside call)) com req ts wl))"
proof (cases "ts = []")
  case True
  with wl show ?thesis by (simp add: exec_do_def)
next
  case False
  let ?run = "exec_do (traced (with_breaker True snapshot success failure clock env)) ecfg
       (traced_call (beside call)) com req ts wl"
  obtain s x l where l: "wl = ((s, x), l)" by (metis surj_pair)
  obtain res s' x' l' where run: "?run = (res, ((s', x'), l'))" by (metis surj_pair)
  have old: "unsuccessful p l" "calls_to p l = faults p l"
    "clock x < t0 + bc_OpenDuration cfg \<Longrightarrow> faults p l \<le> bc_FailureThreshold cfg - 1 + max_attempts ecfg"
    using wl by (simp_all add: contained_def l)
  have "under_ledger up view cfg clock t0 p (snd ?run)"
    using wl by (intro exec_invariant.I_exec_do[OF keeps_ledger[OF adv]]) (simp add: contained_def)
  then have u: "under_ledger up view cfg clock t0 p ((s', x'), l')" unfolding run by simp
  have "clock x \<le> clock (snd (fst (snd ?run)))"
    by (rule exec_invariant.I_exec_do[OF clock_invariant[OF adv, where c = "clock x"]]) (simp add: l)
  then have c: "clock x \<le> clock x'" unfolding run by simp
  have log: "\<exists>es. snd (snd ?run) = l @ es \<and> list_all (faulty p) es"
    by (rule exec_invariant.I_exec_do[OF faulty_invariant[OF down, where pre = l]]) (simp add: l)
  then obtain es where es: "l' = l @ es" "list_all (faulty p) es" unfolding run by auto
  have "do_loop (traced (with_breaker True snapshot success failure clock env)) ecfg
      (traced_call (beside call)) com req ts [] ((s, x), l) = (res, ((s', x'), l'))"
    using run False by (simp add: exec_do_def l)
  from do_loop_traced[OF this] es(1) have trace: "failover_trace ecfg req [] ts es res" by auto
  have counts: "unsuccessful p l'" "calls_to p l' = faults p l'"
    using failover_trace_counts[OF trace es(2)] old by (simp_all add: es(1))
  have "faults p l' \<le> bc_FailureThreshold cfg - 1 + max_attempts ecfg"
    if now: "clock x' < t0 + bc_OpenDuration cfg"
  proof -
    have "ledger cfg (view s' p) t0 p l'" using u now counts(1) by (simp add: under_ledger_def)
    then have "rationed p (bc_FailureThreshold cfg) (faults p l) es" by (simp add: ledger_def es(1))
    from failover_trace_rationed[OF trace es(2) this] old(3) c now show ?thesis by (simp add: es(1))
  qed
  with u counts show ?thesis unfolding run by (simp add: contained_def)
qed

lemma contained_serve_all:
  "clock_advances clock env call \<Longrightarrow> provider_down call p \<Longrightarrow> contained up view cfg ecfg clock t0 p wl \<Longrightarrow>
   contained up view cfg ecfg clock t0 p
     (serve_all (with_breaker True snapshot success failure clock env) ecfg (beside call) com rs wl)"
proof (induction rs arbitrary: wl)
  case (Cons r rs)
  then show ?case by (cases r) (simp add: contained_do)
qed simp

lemma outage_contained:
  assumes "clock_advances clock env call" "provider_down call p"
    and "up s" "view s p = new_entry" "1 \<le> bc_FailureThreshold cfg"
    and run: "serve_all (with_breaker True snapshot success failure clock env) ecfg (beside call) com rs ((s, x), [])
      = ((s', x'), l)"
    and now: "clock x' < clock x + bc_OpenDuration cfg"
  shows "calls_to p l \<le> bc_FailureThreshold cfg - 1 + max_attempts ecfg \<and>
    (fst (fst (Allow True snapshot (clock x') p s')) \<longleftrightarrow> calls_to p l < bc_FailureThreshold cfg) \<and>
    rationed p (bc_FailureThreshold cfg) 0 l"
proof -
  have "contained up view cfg ecfg clock (clock x) p ((s, x), [])"
    using assms(3-5) by (simp add: contained_def under_ledger_def ledger_start max_attempts_def)
  from contained_serve_all[OF assms(1,2) this, of com rs]
  have c: "contained up view cfg ecfg clock (clock x) p ((s', x'), l)" by (simp only: run)
  then have l: "ledger cfg (view s' p) (clock x) p l" "calls_to p l = faults p l" "up s'"
    "faults p l \<le> bc_FailureThreshold cfg - 1 + max_attempts ecfg"
    using now by (auto simp: contained_def under_ledger_def)
  moreover from l(1) have "rationed p (bc_FailureThreshold cfg) 0 l" by (simp add: ledger_def)
  moreover have "be_state (view s' p) = StateOpen \<and> clock x' - be_openedAt (view s' p) < bc_OpenDuration cfg
      \<longleftrightarrow> \<not> faults p l < bc_FailureThreshold cfg"
    using l(1) now by (auto simp: ledger_def)
  ultimately show ?thesis using Allow_iff[OF l(3), of "clock x'" p] by auto
qed

end

section \<open>Properties\<close>


text \<open>A world that is its clock, in nanoseconds: a call takes a second, a wait its delay.\<close>

definition clock_env :: "instant exec_env" where
  "clock_env =
     \<lparr>ee_ctx_err = (\<lambda>x. False), ee_wait = (\<lambda>d x. (None, x + max 0 d)), ee_int63n = (\<lambda>n x. (n - 1, x)),
      ee_allow = (\<lambda>p x. ((True, StateClosed), x)), ee_record = (\<lambda>p ok x. x), ee_report = (\<lambda>i x. x)\<rparr>"

definition one_down :: "string \<Rightarrow> instant caller" where
  "one_down p t r x =
     (if provider_Name (tg_Provider t) = p then Some (fault KindUnavailable) else None, x + Second)"

lemma clock_env_advances: "clock_advances (\<lambda>x. x) clock_env (one_down p)"
  by (simp add: clock_advances_def clock_env_def one_down_def duration_defs)

lemma one_down_down: "provider_down (one_down p) p"
  by (simp add: provider_down_def one_down_def is_fault_def fault_def Errorf_def)

definition outage_config :: breaker_config where
  "outage_config = \<lparr>bc_FailureThreshold = 3, bc_OpenDuration = 30 * Second, bc_HalfOpenProbes = 2\<rparr>"

definition outage_request :: "chat_request \<times> target list" where
  "outage_request = (demo_request, [demo_target ''groq'', demo_target ''openai''])"

definition outage_run :: "(local_store \<times> instant) \<times> exec_event list" where
  "outage_run = serve_all (with_breaker True (local_Snapshot outage_config) (local_RecordSuccess outage_config)
      (local_RecordFailure outage_config) (\<lambda>x. x) clock_env) (default_exec\<lparr>ec_MaxAttempts := 2\<rparr>) (beside (one_down ''groq'')) (\<lambda>_. False)
      [outage_request, outage_request, outage_request]
      ((NewLocalBreakerStore, 0), [])"

lemmas outage_defs = outage_run_def outage_request_def outage_config_def clock_env_def one_down_def script_simps
  exec_do_def attemptWithRetries_def attempt_loop.simps max_attempts_def Retryable_def Failoverable_def
  report_attempt_def record_fault_def sleepBackoff_def backoff_delay_def jitter_bound_def capped_backoff_def
  shift_backoff_def Allow_def breaker_Record_def with_breaker_def beside_def traced_def traced_call_def
  local_store_defs entry_defs entry_def NewLocalBreakerStore_def new_entry_def Let_def

lemma outage_run_eval:
  "calls_to ''groq'' (snd outage_run) = 4" "snd (fst outage_run) = 7 * Second + 200 * Millisecond"
  by (simp_all add: outage_defs)


text \<open>The same of the circuits in Redis, which every replica shares.\<close>

lemma redis_outage_containment:
  assumes "clock_advances clock env call" and "provider_down call p" and "1 \<le> bc_FailureThreshold cfg"
    and "rs_up db" and "live_hash db (breakerKey p) = None"
    and "serve_all (with_breaker True (redis_Snapshot cfg) (redis_RecordSuccess cfg) (redis_RecordFailure cfg)
           clock env) ecfg (beside call) com rs ((db, x), []) = ((db', x'), l)"
    and "clock x' < clock x + open_millis cfg"
  shows "calls_to p l \<le> bc_FailureThreshold cfg - 1 + max_attempts ecfg"
proof -
  have "redis_view db p = new_entry"
    using assms(5) by (simp add: redis_view_def hash_entry_def empty_hash_def new_entry_def)
  then show ?thesis using rbs.outage_contained[OF assms(1,2,4) _ _ assms(6)] assms(3,7)
    by (simp add: in_millis_def)
qed

text \<open>Two environments that agree on the worlds of an invariant run alike.\<close>

definition agree_on :: "('w \<Rightarrow> bool) \<Rightarrow> 'w exec_env \<Rightarrow> 'w exec_env \<Rightarrow> bool" where
  "agree_on I env env' \<longleftrightarrow> (\<forall>w. I w \<longrightarrow>
     ee_ctx_err env w = ee_ctx_err env' w \<and> (\<forall>d. ee_wait env d w = ee_wait env' d w) \<and>
     (\<forall>n. ee_int63n env n w = ee_int63n env' n w) \<and> (\<forall>p. ee_allow env p w = ee_allow env' p w) \<and>
     (\<forall>p ok. ee_record env p ok w = ee_record env' p ok w) \<and> (\<forall>i. ee_report env i w = ee_report env' i w))"

lemma agree_onD:
  assumes "agree_on I env env'" "I w"
  shows "ee_ctx_err env' w = ee_ctx_err env w" "ee_wait env' d w = ee_wait env d w"
    "ee_int63n env' n w = ee_int63n env n w" "ee_allow env' p w = ee_allow env p w"
    "ee_record env' p ok w = ee_record env p ok w" "ee_report env' i w = ee_report env i w"
  using assms by (simp_all add: agree_on_def)

context exec_invariant
begin

lemma agree_steps:
  assumes "agree_on I env env'" "I w"
  shows "sleepBackoff env' cfg k d w = sleepBackoff env cfg k d w"
    "report_attempt env' t k e st sk w = report_attempt env t k e st sk w"
    "record_fault env' t pe w = record_fault env t pe w"
  using agree_onD[OF assms(1) I_int63n[OF assms(2)]] agree_onD[OF assms]
  by (auto simp: sleepBackoff_def backoff_delay_def report_attempt_def record_fault_def Let_def split_beta
      split: option.split prod.split go.split)

lemma agree_attempt_loop:
  assumes "agree_on I env env'"
  shows "I w \<Longrightarrow> attempt_loop env' cfg call com t req st n k le w = attempt_loop env cfg call com t req st n k le w"
proof (induction "nat (n + 1 - k)" arbitrary: k le w rule: less_induct)
  case less
  obtain err w1 where c: "call t req w = (err, w1)" by (metis surj_pair)
  let ?w2 = "report_attempt env t k err st False w1"
  have w1: "I w1" using I_call[OF less.prems, of t req] c by simp
  then have w2: "I ?w2" by (rule I_report_attempt)
  note one = agree_steps(2)[OF assms w1] agree_onD[OF assms w2] agree_steps(3)[OF assms w2]
  show ?case
  proof (cases "k \<le> n \<and> err \<noteq> None")
    case False
    then show ?thesis using c one
      by (auto simp: attempt_loop.simps[of _ cfg call com t req st n k] Let_def)
  next
    case True
    then obtain e where e: "err = Some e" by auto
    have w3: "I (record_fault env t (AsError e) ?w2)" by (rule I_record_fault[OF w2])
    have again: "attempt_loop env' cfg call com t req st n (k + 1) (Some e) w4
        = attempt_loop env cfg call com t req st n (k + 1) (Some e) w4"
      if "sleepBackoff env cfg k d (record_fault env t (AsError e) ?w2) = (x, w4)" for d x w4
      using less.hyps[of "k + 1" w4 "Some e"] I_sleep[OF w3, of cfg k d] that True by simp
    show ?thesis
      using True c e one again agree_onD(1)[OF assms w3] agree_steps(1)[OF assms w3]
      by (auto simp: attempt_loop.simps[of _ cfg call com t req st n k] Let_def
          split: option.split prod.split go.split)
  qed
qed

lemma agree_do_loop:
  assumes "agree_on I env env'"
  shows "I w \<Longrightarrow> do_loop env' cfg call com req ts errs w = do_loop env cfg call com req ts errs w"
proof (induction ts arbitrary: errs w)
  case (Cons t ts)
  obtain ok st w1 where a: "ee_allow env (provider_Name (tg_Provider t)) w = ((ok, st), w1)" by (metis surj_pair)
  have w1: "I w1" using I_allow[OF Cons.prems] a by (metis snd_conv)
  obtain r w2 where r: "attemptWithRetries env cfg call com t req st w1 = (r, w2)" by (metis surj_pair)
  have w2: "I w2" using I_attempt_loop[OF w1] r by (metis attemptWithRetries_def snd_conv)
  have r': "attemptWithRetries env' cfg call com t req st w1 = (r, w2)"
    using agree_attempt_loop[OF assms w1] r by (simp add: attemptWithRetries_def)
  show ?case
    using Cons.IH[OF I_report_attempt[OF w1]] Cons.IH[OF w2] a r r'
      agree_onD(1)[OF assms w2] agree_onD(4)[OF assms Cons.prems] agree_steps(2)[OF assms w1]
    by (auto simp: Let_def split: go.split option.split)
qed simp

lemma agree_exec_do:
  "agree_on I env env' \<Longrightarrow> I w \<Longrightarrow> exec_do env' cfg call com req ts w = exec_do env cfg call com req ts w"
  by (simp add: exec_do_def agree_do_loop)

end

text \<open>
  C17. A breaker whose store is down is no breaker: while Redis is unreachable a failover over any targets, with
  any provider behaviour, has the same outcome, makes the same calls and leaves the same world as with
  the breaker disabled. No request is refused for want of Redis, and no circuit protects a provider.
\<close>

theorem redis_outage_disables_breaker:
  assumes "\<not> rs_up db"
  shows "exec_do (with_breaker True (redis_Snapshot cfg) (redis_RecordSuccess cfg) (redis_RecordFailure cfg) clock env)
           ecfg (beside call) com req ts (db, x)
       = exec_do (with_breaker False (redis_Snapshot cfg) (redis_RecordSuccess cfg) (redis_RecordFailure cfg) clock env)
           ecfg (beside call) com req ts (db, x)"
proof -
  let ?env = "\<lambda>on. with_breaker on (redis_Snapshot cfg) (redis_RecordSuccess cfg) (redis_RecordFailure cfg) clock env"
  let ?I = "\<lambda>w :: redis_server \<times> 'a. \<not> rs_up (fst w)"
  have down: "redis_run cfg ev now p d = (Inl (ErrorText (''breaker '' @ event_string ev) None), d)"
    if "\<not> rs_up d" for ev now p d using that by (rule redis_run_down)
  have inv: "exec_invariant (?env False) (beside call) ?I"
    by unfold_locales (auto simp: frame_simps Allow_def breaker_Record_def split: prod.split)
  have agree: "agree_on ?I (?env False) (?env True)"
    by (auto simp: agree_on_def frame_simps Allow_def breaker_Record_def redis_op_defs down)
  show ?thesis using exec_invariant.agree_exec_do[OF inv agree] assms by simp
qed

theorem redis_outage_disables_breaker_witness:
  "exec_do (with_breaker True (redis_Snapshot example_breaker) (redis_RecordSuccess example_breaker)
      (redis_RecordFailure example_breaker) (\<lambda>x. x) clock_env) default_exec (beside (one_down ''groq'')) (\<lambda>_. False)
      demo_request [demo_target ''groq''] (example_redis\<lparr>rs_up := False\<rparr>, 0)
   = exec_do (with_breaker False (redis_Snapshot example_breaker) (redis_RecordSuccess example_breaker)
      (redis_RecordFailure example_breaker) (\<lambda>x. x) clock_env) default_exec (beside (one_down ''groq'')) (\<lambda>_. False)
      demo_request [demo_target ''groq''] (example_redis\<lparr>rs_up := False\<rparr>, 0)"
  by (rule redis_outage_disables_breaker) simp

section \<open>A provider that is back\<close>

definition provider_up :: "'x caller \<Rightarrow> string \<Rightarrow> bool" where
  "provider_up call p \<longleftrightarrow> (\<forall>t r x. provider_Name (tg_Provider t) = p \<longrightarrow> fst (call t r x) = None)"

text \<open>The circuit after \<open>n\<close> successes since its cooldown was over.\<close>

definition recovering :: "breaker_config \<Rightarrow> instant \<Rightarrow> breaker_entry \<Rightarrow> nat \<Rightarrow> bool" where
  "recovering cfg now e n \<longleftrightarrow>
     (if n = 0 then be_state e = StateOpen \<and> bc_OpenDuration cfg \<le> now - be_openedAt e
      else if int n < bc_HalfOpenProbes cfg then be_state e = StateHalfOpen \<and> be_successes e = int n
      else be_state e = StateClosed \<and> be_failures e = 0)"

lemma recovering_step:
  assumes "recovering cfg now e n" "1 \<le> bc_HalfOpenProbes cfg"
  shows "be_state (entry_snapshot cfg now e) \<noteq> StateOpen"
    and "recovering cfg now' (entry_success cfg (entry_snapshot cfg now e)) (Suc n)"
  using assms by (auto simp: recovering_def entry_snapshot_def entry_success_def Let_def split: if_splits)

context breaker_store
begin

lemma recovering_request:
  assumes up: "provider_up call p" and t: "provider_Name (tg_Provider t) = p" and probes: "1 \<le> bc_HalfOpenProbes cfg"
    and s: "up s" "recovering cfg (clock x) (view s p) n"
  shows "\<exists>s' x' es. exec_do (traced (with_breaker True snapshot success failure clock env)) ecfg (traced_call (beside call))
      com req (t # ts) ((s, x), l) = (Ret (Some t, None), ((s', x'), l @ es)) \<and>
    up s' \<and> recovering cfg (clock x') (view s' p) (Suc n) \<and>
    filter is_call es = [ECall t (call_request req t) None]"
proof -
  let ?env = "with_breaker True snapshot success failure clock env"
  obtain st s1 where a: "Allow True snapshot (clock x) p s = ((True, st), s1)" "up s1"
    "view s1 p = entry_snapshot cfg (clock x) (view s p)"
    using recovering_step(1)[OF s(2) probes] snapshot_result[OF s(1), of "clock x" p]
      snapshot_view[OF s(1), of "clock x" p] up_snapshot[of "clock x" p s] s(1)
    by (cases "snapshot (clock x) p s") (auto simp: Allow_def)
  obtain x1 where c: "call t (call_request req t) x = (None, x1)"
    using up t by (metis provider_up_def prod.collapse)
  have b: "beside call t (call_request req t) (s1, x) = (None, (s1, x1))" using c by (simp add: beside_def)
  define x2 where "x2 = snd (report_attempt ?env t 1 None st False (s1, x1))"
  have rep: "report_attempt ?env t 1 None st False (s1, x1) = (s1, x2)"
    by (simp add: x2_def report_attempt_def frame_simps)
  define s2 where "s2 = breaker_Record True success failure (clock x2) p True s1"
  let ?es = "[EAllow p True st, ECall t (call_request req t) None, report_of t st 1 None False, ERecord p True]"
  have one: "(1 :: int) \<le> max_attempts ecfg" by (simp add: max_attempts_def)
  have tc: "traced_call (beside call) t (call_request req t) ((s1, x), l @ [EAllow p True st])
      = (None, ((s1, x1), l @ [EAllow p True st, ECall t (call_request req t) None]))"
    using b by (simp add: traced_simps)
  have "attempt_loop (traced ?env) ecfg (traced_call (beside call)) com t (call_request req t) st (max_attempts ecfg) 1
      None ((s1, x), l @ [EAllow p True st]) = (Ret None, ((s2, x2), l @ ?es))"
    unfolding attempt_loop_succeeded[where call = "traced_call (beside call)" and t = t and r = "call_request req t"
      and w = "((s1, x), l @ [EAllow p True st])", OF one tc] by (simp add: t report_traced rep traced_simps with_breaker_simps s2_def)
  then have run: "exec_do (traced ?env) ecfg (traced_call (beside call)) com req (t # ts) ((s, x), l)
      = (Ret (Some t, None), ((s2, x2), l @ ?es))"
    by (simp add: exec_do_def attemptWithRetries_def call_request_def[symmetric] t a(1) traced_simps with_breaker_simps Let_def)
  have "\<not> cooled cfg (clock x2) (view s1 p)"
    using recovering_step(1)[OF s(2) probes] a(3) by (simp add: cooled_def)
  then have "view s2 p = entry_success cfg (view s1 p)" "up s2"
    using a(2) by (simp_all add: s2_def breaker_Record_def success_view up_success)
  then show ?thesis
    using run recovering_step(2)[OF s(2) probes] a(3) by (auto simp: report_of_def intro!: exI[of _ s2] exI[of _ x2] exI[of _ ?es])
qed

lemma recovering_serve_all:
  assumes up: "provider_up call p" and probes: "1 \<le> bc_HalfOpenProbes cfg"
  shows "up s \<Longrightarrow> recovering cfg (clock x) (view s p) n \<Longrightarrow>
    \<forall>r\<in>set rs. snd r \<noteq> [] \<and> provider_Name (tg_Provider (hd (snd r))) = p \<Longrightarrow>
    \<exists>s' x' es. serve_all (with_breaker True snapshot success failure clock env) ecfg (beside call) com rs ((s, x), l)
        = ((s', x'), l @ es) \<and>
      recovering cfg (clock x') (view s' p) (n + length rs) \<and>
      filter is_call es = map (\<lambda>(req, ts). ECall (hd ts) (call_request req (hd ts)) None) rs"
proof (induction rs arbitrary: s x l n)
  case Nil
  then show ?case by simp
next
  case (Cons r rs)
  obtain req t ts where r: "r = (req, t # ts)" "provider_Name (tg_Provider t) = p"
    using Cons.prems(3) by (cases r; cases "snd r") auto
  obtain s1 x1 es where one: "exec_do (traced (with_breaker True snapshot success failure clock env)) ecfg
      (traced_call (beside call)) (\<lambda>(w, l). com w) req (t # ts) ((s, x), l) = (Ret (Some t, None), ((s1, x1), l @ es))"
    "up s1" "recovering cfg (clock x1) (view s1 p) (Suc n)" "filter is_call es = [ECall t (call_request req t) None]"
    using recovering_request[where clock = clock and x = x, OF up r(2) probes Cons.prems(1,2)] by blast
  obtain s2 x2 es' where "serve_all (with_breaker True snapshot success failure clock env) ecfg (beside call) com rs
      ((s1, x1), l @ es) = ((s2, x2), (l @ es) @ es')" "recovering cfg (clock x2) (view s2 p) (Suc n + length rs)"
    "filter is_call es' = map (\<lambda>(req, ts). ECall (hd ts) (call_request req (hd ts)) None) rs"
    using Cons.IH[of s1 x1 "Suc n" "l @ es"] one(2,3) Cons.prems(3) by force
  then show ?case using one(1,4) r(1) by (auto intro!: exI[of _ s2] exI[of _ x2] exI[of _ "es @ es'"])
qed

end

text \<open>
  C18. A provider that is back is used again. Once the open duration of its circuit has elapsed, every request routed to it
  first is answered by it, at the first attempt and by exactly one call, and after \<open>HalfOpenProbes\<close> of them its circuit is
  closed and has forgotten its failures.
\<close>

theorem recovery_serves:
  assumes "provider_up call p" and "1 \<le> bc_HalfOpenProbes cfg"
    and "be_state (entry m p) = StateOpen" and "bc_OpenDuration cfg \<le> clock x - be_openedAt (entry m p)"
    and "\<forall>r\<in>set rs. snd r \<noteq> [] \<and> provider_Name (tg_Provider (hd (snd r))) = p"
  shows "\<exists>m' x' l. serve_all (with_breaker True (local_Snapshot cfg) (local_RecordSuccess cfg) (local_RecordFailure cfg)
         clock env) ecfg (beside call) com rs ((m, x), []) = ((m', x'), l) \<and>
      filter is_call l = map (\<lambda>(req, ts). ECall (hd ts) (call_request req (hd ts)) None) rs \<and>
      (bc_HalfOpenProbes cfg \<le> int (length rs) \<longrightarrow>
         be_state (entry m' p) = StateClosed \<and> be_failures (entry m' p) = 0)"
proof -
  have "recovering cfg (clock x) (entry m p) 0" using assms(3,4) by (simp add: recovering_def)
  from lbs.recovering_serve_all[where com = com and l = "[]" and clock = clock and x = x and env = env and ecfg = ecfg,
      OF assms(1,2) TrueI this assms(5)]
  obtain m' x' l where run: "serve_all (with_breaker True (local_Snapshot cfg) (local_RecordSuccess cfg)
        (local_RecordFailure cfg) clock env) ecfg (beside call) com rs ((m, x), []) = ((m', x'), l)"
    "recovering cfg (clock x') (entry m' p) (length rs)"
    "filter is_call l = map (\<lambda>(req, ts). ECall (hd ts) (call_request req (hd ts)) None) rs" by auto
  moreover have "be_state (entry m' p) = StateClosed \<and> be_failures (entry m' p) = 0"
    if "bc_HalfOpenProbes cfg \<le> int (length rs)"
    using run(2) that assms(2) by (auto simp: recovering_def split: if_splits)
  ultimately show ?thesis by blast
qed

theorem recovery_serves_witness:
  "\<exists>m' x' l. serve_all (with_breaker True (local_Snapshot example_breaker) (local_RecordSuccess example_breaker)
        (local_RecordFailure example_breaker) (\<lambda>x. x) clock_env) default_exec (beside (one_down ''openai'')) (\<lambda>_. False)
        [outage_request, outage_request]
        ((NewLocalBreakerStore(''groq'' \<mapsto> new_entry\<lparr>be_state := StateOpen, be_failures := 5\<rparr>), 30 * Second), []) = ((m', x'), l) \<and>
     length (filter is_call l) = 2 \<and> be_state (entry m' ''groq'') = StateClosed"
proof -
  let ?m = "NewLocalBreakerStore(''groq'' \<mapsto> new_entry\<lparr>be_state := StateOpen, be_failures := 5\<rparr>)"
  have "provider_up (one_down ''openai'') ''groq''" by (simp add: provider_up_def one_down_def)
  moreover have "be_state (entry ?m ''groq'') = StateOpen" "be_openedAt (entry ?m ''groq'') = 0"
    by (simp_all add: entry_def new_entry_def)
  ultimately show ?thesis
    using recovery_serves[of "one_down ''openai''" "''groq''" example_breaker ?m "\<lambda>x. x" "30 * Second"
        "[outage_request, outage_request]" clock_env default_exec "\<lambda>_. False"]
    by (auto simp: example_breaker_def outage_request_def demo_target_def mock_of_def)
qed

end
