(* ===== verification/Simulation.thy ===== *)
theory Simulation
  imports Failover Obs
begin

text \<open>
  Two environments of the executor whose steps correspond run alike: a relation between their worlds that every step, call and
  commit test keeps is kept by a whole failover, and the results are equal. The instances compare the executor with and
  without its log, with and without the metrics hook, and over the shared and the in-memory circuit.
\<close>

locale exec_simulation =
  fixes env1 :: "'w exec_env" and env2 :: "'v exec_env"
    and call1 :: "'w caller" and call2 :: "'v caller"
    and com1 :: "'w \<Rightarrow> bool" and com2 :: "'v \<Rightarrow> bool"
    and R :: "'w \<Rightarrow> 'v \<Rightarrow> bool"
  assumes R_ctx: "R w v \<Longrightarrow> ee_ctx_err env1 w = ee_ctx_err env2 v"
    and R_com: "R w v \<Longrightarrow> com1 w = com2 v"
    and R_wait: "R w v \<Longrightarrow> rel_prod (=) R (ee_wait env1 d w) (ee_wait env2 d v)"
    and R_int63n: "R w v \<Longrightarrow> rel_prod (=) R (ee_int63n env1 n w) (ee_int63n env2 n v)"
    and R_allow: "R w v \<Longrightarrow> rel_prod (=) R (ee_allow env1 p w) (ee_allow env2 p v)"
    and R_record: "R w v \<Longrightarrow> R (ee_record env1 p ok w) (ee_record env2 p ok v)"
    and R_report: "R w v \<Longrightarrow> R (ee_report env1 i w) (ee_report env2 i v)"
    and R_call: "R w v \<Longrightarrow> rel_prod (=) R (call1 t r w) (call2 t r v)"
begin

lemma rel_pair: "rel_prod (=) R x y \<Longrightarrow> \<exists>a w v. x = (a, w) \<and> y = (a, v) \<and> R w v"
  by (cases x; cases y) auto

lemma R_sleep:
  assumes "R w v"
  shows "rel_prod (=) R (sleepBackoff env1 cfg k d w) (sleepBackoff env2 cfg k d v)"
proof -
  have b: "rel_prod (=) R (backoff_delay env1 cfg k d w) (backoff_delay env2 cfg k d v)"
    using R_int63n[OF assms, of "jitter_bound (capped_backoff cfg k)"] assms
    by (auto simp: backoff_delay_def Let_def split: prod.splits)
  then obtain a w' v' where d: "backoff_delay env1 cfg k d w = (a, w')" "backoff_delay env2 cfg k d v = (a, v')" and r: "R w' v'"
    using rel_pair by blast
  show ?thesis
  proof (cases a)
    case (Ret n)
    then show ?thesis using d rel_pair[OF R_wait[OF r, of n]] by (auto simp: sleepBackoff_def)
  qed (simp add: sleepBackoff_def d r)
qed

lemma R_report_attempt: "R w v \<Longrightarrow> R (report_attempt env1 t k e st sk w) (report_attempt env2 t k e st sk v)"
  by (simp add: report_attempt_def R_report)

lemma R_record_fault: "R w v \<Longrightarrow> R (record_fault env1 t pe w) (record_fault env2 t pe v)"
  by (auto simp: record_fault_def R_record split: option.split)

lemma R_attempt_loop:
  "R w v \<Longrightarrow> rel_prod (=) R (attempt_loop env1 cfg call1 com1 t req st n k le w) (attempt_loop env2 cfg call2 com2 t req st n k le v)"
proof (induction "nat (n + 1 - k)" arbitrary: k le w v rule: less_induct)
  case less
  obtain err w1 v1 where c: "call1 t req w = (err, w1)" "call2 t req v = (err, v1)" "R w1 v1"
    using rel_pair[OF R_call[OF less.prems]] by blast
  let ?w2 = "report_attempt env1 t k err st False w1" and ?v2 = "report_attempt env2 t k err st False v1"
  have r2: "R ?w2 ?v2" by (rule R_report_attempt[OF c(3)])
  note unfold = attempt_loop.simps[of env1 cfg call1 com1 t req st n k] attempt_loop.simps[of env2 cfg call2 com2 t req st n k]
  show ?case
  proof (cases "k \<le> n \<and> err \<noteq> None")
    case False
    then show ?thesis using c r2 R_record[OF r2] less.prems by (auto simp: unfold Let_def)
  next
    case True
    then obtain e where e: "err = Some e" by auto
    let ?w3 = "record_fault env1 t (AsError e) ?w2" and ?v3 = "record_fault env2 t (AsError e) ?v2"
    have r3: "R ?w3 ?v3" by (rule R_record_fault[OF r2])
    show ?thesis
    proof (cases "ee_ctx_err env1 ?w3 \<or> com1 ?w3 \<or> AsError e = None \<or> \<not> Retryable (the (AsError e)) \<or> k = n")
      case True
      then show ?thesis
        using \<open>k \<le> n \<and> err \<noteq> None\<close> c e r3 R_ctx[OF r3] R_com[OF r3] by (auto simp: unfold Let_def split: option.split)
    next
      case False
      then obtain p where p: "AsError e = Some p" by auto
      obtain x w4 v4 where s: "sleepBackoff env1 cfg k (pe_RetryAfter p) ?w3 = (x, w4)"
          "sleepBackoff env2 cfg k (pe_RetryAfter p) ?v3 = (x, v4)" and r4: "R w4 v4"
        using rel_pair[OF R_sleep[OF r3, of cfg k "pe_RetryAfter p"]] by blast
      have "rel_prod (=) R (attempt_loop env1 cfg call1 com1 t req st n (k + 1) (Some e) w4)
          (attempt_loop env2 cfg call2 com2 t req st n (k + 1) (Some e) v4)"
        using less.hyps[of "k + 1" w4 v4 "Some e"] r4 True by simp
      then show ?thesis
        using True False c e p s r4 R_ctx[OF r3] R_com[OF r3] by (auto simp: unfold Let_def split: option.split go.split)
    qed
  qed
qed

lemma R_do_loop:
  "R w v \<Longrightarrow> rel_prod (=) R (do_loop env1 cfg call1 com1 req ts errs w) (do_loop env2 cfg call2 com2 req ts errs v)"
proof (induction ts arbitrary: errs w v)
  case (Cons t ts)
  obtain a w1 v1 where a: "ee_allow env1 (provider_Name (tg_Provider t)) w = (a, w1)"
      "ee_allow env2 (provider_Name (tg_Provider t)) v = (a, v1)" and r1: "R w1 v1"
    using rel_pair[OF R_allow[OF Cons.prems]] by blast
  obtain ok st where ok: "a = (ok, st)" by (cases a)
  obtain x w2 v2 where x: "attemptWithRetries env1 cfg call1 com1 t req st w1 = (x, w2)"
      "attemptWithRetries env2 cfg call2 com2 t req st v1 = (x, v2)" and r2: "R w2 v2"
    using rel_pair[OF R_attempt_loop[OF r1]] unfolding attemptWithRetries_def by blast
  show ?case
    using Cons.IH[OF R_report_attempt[OF r1]] Cons.IH[OF r2] a ok x r2 R_ctx[OF r2] R_com[OF r2]
    by (auto simp: Let_def split: go.split option.split)
qed simp

lemma R_exec_do:
  "R w v \<Longrightarrow> rel_prod (=) R (exec_do env1 cfg call1 com1 req ts w) (exec_do env2 cfg call2 com2 req ts v)"
  by (simp add: exec_do_def R_do_loop)

text \<open>Worlds that correspond are logged alike.\<close>

lemma traced_simulation:
  "exec_simulation (traced env1) (traced env2) (traced_call call1) (traced_call call2) (\<lambda>(w, l). com1 w) (\<lambda>(v, l). com2 v)
     (rel_prod R (=))"
proof (unfold_locales, goal_cases)
  case (3 w v d)
  then show ?case using rel_pair[OF R_wait, of "fst w" "fst v" d] by (cases w; cases v) (auto simp: frame_simps)
next
  case (4 w v n)
  then show ?case using rel_pair[OF R_int63n, of "fst w" "fst v" n] by (cases w; cases v) (auto simp: frame_simps)
next
  case (5 w v p)
  then show ?case using rel_pair[OF R_allow, of "fst w" "fst v" p] by (cases w; cases v) (auto simp: frame_simps)
next
  case (8 w v t r)
  then show ?case using rel_pair[OF R_call, of "fst w" "fst v" t r] by (cases w; cases v) (auto simp: frame_simps)
qed (auto simp: frame_simps R_ctx R_com R_record R_report)

lemma R_run:
  assumes "R w v" "exec_do env1 cfg call1 com1 req ts w = (res, w')"
  obtains v' where "exec_do env2 cfg call2 com2 req ts v = (res, v')" "R w' v'"
  using R_exec_do[OF assms(1), of cfg req ts] assms(2) by (cases "exec_do env2 cfg call2 com2 req ts v") auto

end

section \<open>The log and the metrics hook change nothing\<close>

interpretation tracing: exec_simulation "traced env" env "traced_call call" call "\<lambda>(w, l). com w" com "\<lambda>(w, l) v. w = v"
  for env call com
  by unfold_locales (auto simp: frame_simps rel_prod_sel split_beta)

interpretation metering: exec_simulation "observed now env" env "timed_call now call" call "\<lambda>(w, x). com w" com "\<lambda>(w, x) v. w = v"
  for now env call com
  by unfold_locales (auto simp: observed_def timed_call_def rel_prod_sel split_beta)

text \<open>
  The hook only watches. A failover whose attempts are timed and reported to the collectors has the result of the failover
  without them, calls the same providers in the same worlds, and leaves the same world.
\<close>

theorem metrics_hook_inert:
  "exec_do env cfg call com req ts w =
     (case exec_do (observed now env) cfg (timed_call now call) (\<lambda>(w, x). com w) req ts (w, start, m) of (res, (w', x)) \<Rightarrow> (res, w'))"
  using metering.R_exec_do[of "(w, start, m)" w now env cfg call com req ts]
  by (cases "exec_do env cfg call com req ts w") (auto simp: rel_prod_sel split: prod.splits)

section \<open>The shared circuit under the executor\<close>

text \<open>The in-memory store with a look at the clock before each record, as the script takes it.\<close>

definition eager ::
  "breaker_config \<Rightarrow> (instant \<Rightarrow> string \<Rightarrow> local_store \<Rightarrow> (go_error + breaker_state) \<times> local_store)
    \<Rightarrow> instant \<Rightarrow> string \<Rightarrow> local_store \<Rightarrow> (go_error + breaker_state) \<times> local_store" where
  "eager cfg record now p m = record now p (snd (local_Snapshot cfg now p m))"

definition same_circuits :: "redis_server \<times> 'x \<Rightarrow> local_store \<times> 'x \<Rightarrow> bool" where
  "same_circuits = (\<lambda>(db, x) (m, y). rs_up db \<and> redis_view db = entry m \<and> x = y)"

lemma same_snapshot:
  assumes "rs_up db" "redis_view db = entry m"
  shows "fst (redis_Snapshot cfg now p db) = fst (local_Snapshot (in_millis cfg) now p m)"
    "redis_view (snd (redis_Snapshot cfg now p db)) = entry (snd (local_Snapshot (in_millis cfg) now p m))"
  using assms by (simp_all add: rbs.snapshot_result rbs.snapshot_view lbs.snapshot_result lbs.snapshot_view)

lemma same_record:
  assumes "rs_up db" "redis_view db = entry m"
  shows "redis_view (snd (redis_RecordSuccess cfg now p db)) = entry (snd (eager (in_millis cfg) (local_RecordSuccess (in_millis cfg)) now p m))"
    "redis_view (snd (redis_RecordFailure cfg now p db)) = entry (snd (eager (in_millis cfg) (local_RecordFailure (in_millis cfg)) now p m))"
proof -
  have v: "entry (snd (local_Snapshot (in_millis cfg) now p m)) = (entry m)(p := entry_snapshot (in_millis cfg) now (entry m p))"
    using lbs.snapshot_view by simp
  show "redis_view (snd (redis_RecordSuccess cfg now p db)) = entry (snd (eager (in_millis cfg) (local_RecordSuccess (in_millis cfg)) now p m))"
    "redis_view (snd (redis_RecordFailure cfg now p db)) = entry (snd (eager (in_millis cfg) (local_RecordFailure (in_millis cfg)) now p m))"
    using assms v by (auto simp: redis_op_defs redis_run_view eager_def local_RecordSuccess_def local_RecordFailure_def Let_def entry_def fun_eq_iff)
qed

interpretation shared: exec_simulation
    "with_breaker en (redis_Snapshot cfg) (redis_RecordSuccess cfg) (redis_RecordFailure cfg) clock env"
    "with_breaker en (local_Snapshot (in_millis cfg)) (eager (in_millis cfg) (local_RecordSuccess (in_millis cfg)))
       (eager (in_millis cfg) (local_RecordFailure (in_millis cfg))) clock env"
    "beside call" "beside call" "\<lambda>(db, x). com x" "\<lambda>(m, x). com x" same_circuits
  for en cfg clock env call com
proof (unfold_locales, goal_cases)
  case (5 w v p)
  then show ?case
    using same_snapshot[of "fst w" "fst v" cfg "clock (snd w)" p]
    by (cases w; cases v)
      (auto simp: same_circuits_def frame_simps Allow_def rel_prod_sel split_beta redis_op_defs split: sum.split)
next
  case (6 w v p ok)
  then show ?case
    using same_record[of "fst w" "fst v" cfg "clock (snd w)" p]
    by (cases w; cases v) (auto simp: same_circuits_def frame_simps breaker_Record_def redis_op_defs)
qed (auto simp: same_circuits_def frame_simps rel_prod_sel)



end
