(* ===== verification/FrontDoor.thy ===== *)
theory FrontDoor
  imports Delivery Surface Simulation
begin

text \<open>
  The HTTP server in front of the guarded executor. A predicate on the world that every collaborator keeps is kept by every
  request, whatever its route and outcome, and by every background cache write; with it the containment of an outage is carried
  from the executor to the front door.
\<close>

section \<open>What every collaborator keeps, a request keeps\<close>

locale cache_invariant =
  fixes x :: "('w, 'b) cache_env"
    and I :: "'w \<Rightarrow> bool"
  assumes I_get: "I w \<Longrightarrow> I (snd (xe_get x k w))"
    and I_set: "I w \<Longrightarrow> I (snd (xe_set x k v ttl w))"
    and I_del: "I w \<Longrightarrow> I (snd (xe_del x k w))"
    and I_embed: "I w \<Longrightarrow> I (snd (xe_embed x txts w))"
    and I_search: "I w \<Longrightarrow> I (snd (xe_search x coll q w))"
    and I_upsert: "I w \<Longrightarrow> I (snd (xe_upsert x coll pts w))"
    and I_metric: "I w \<Longrightarrow> I (xe_metric x m w)"
begin

lemma I_exact_Get: "I w \<Longrightarrow> I (snd (exact_Get x k w))"
  using I_get[of w "key_Redis k"] I_del by (auto simp: exact_Get_def split: prod.split sum.split)

lemma I_exact_Set: "I w \<Longrightarrow> I (snd (exact_Set x k e ttl w))"
  using I_set[of w "key_Redis k" "xe_encode x e" ttl] by (auto simp: exact_Set_def split: prod.split option.split)

lemma I_embed_prompt: "embed_prompt x req w = (r, w') \<Longrightarrow> I w \<Longrightarrow> I w'"
  using I_embed[of w "[PromptText req]"] by (auto simp: embed_prompt_def split_beta)

lemma I_semantic_Search: "semantic_Search x cfg t req vec th w = (r, w') \<Longrightarrow> I w \<Longrightarrow> I w'"
  using I_search[of w "sem_Collection cfg" "semantic_query cfg t req vec th"]
  by (auto simp: semantic_Search_def Let_def split: prod.splits sum.splits list.splits if_splits)

lemma I_lookup_semantic: "I w \<Longrightarrow> I (snd (lookup_semantic x c t req w))"
  by (auto simp: lookup_semantic_def Let_def intro!: I_metric dest: I_embed_prompt I_semantic_Search
      split: prod.split sum.split option.split)

lemma I_Lookup: "I w \<Longrightarrow> I (snd (Lookup x c t req w))"
  using I_exact_Get[of w "ExactKey (xe_digest x) t req"]
  by (auto simp: Lookup_def Let_def I_metric intro!: I_lookup_semantic split: prod.split sum.split option.split)

lemma I_semantic_Upsert: "semantic_Upsert x cfg t req e vec w = (r, w') \<Longrightarrow> I w \<Longrightarrow> I w'"
  by (metis I_upsert semantic_Upsert_def snd_conv)

lemma I_store_semantic: "I w \<Longrightarrow> I (store_semantic x c t req e vec w)"
  by (auto simp: store_semantic_def Let_def intro!: I_metric dest: I_embed_prompt I_semantic_Upsert
      split: prod.splits sum.split option.splits)

lemma I_run_job: "I w \<Longrightarrow> I (run_job x c j w)"
  using I_exact_Set[of w]
  by (auto simp: run_job_def cache_Store_def Let_def split_beta intro!: I_store_semantic I_metric)

end

locale world_invariant =
  fixes d :: "('w, 'b) deps"
    and I :: "'w \<Rightarrow> bool"
  assumes I_intn: "I w \<Longrightarrow> I (snd (dp_intn d n w))"
    and I_Chat: "I w \<Longrightarrow> I (snd (exec_Chat (dp_exec d) (dp_exec_cfg d) (dp_chat d) ts req w))"
    and I_ChatStream: "I w \<Longrightarrow> I (fst (snd (exec_ChatStream (lift_env (dp_exec d)) (dp_exec_cfg d) (lift_open (dp_stream d)) ts req
      (stream_onChunk a) (w, st))))"
    and I_dembed: "I w \<Longrightarrow> I (snd (dp_embed d t er w))"
    and I_auth: "I w \<Longrightarrow> I (snd (dp_auth d k w))"
    and I_limit: "dp_limit d = Some allow \<Longrightarrow> I w \<Longrightarrow> I (snd (allow tn w))"
    and I_cache: "dp_cache d = Some (x, c) \<Longrightarrow> cache_invariant x I"
    and I_newID: "I w \<Longrightarrow> I (snd (dp_newID d w))"
begin

lemma I_weighted_loop: "I g \<Longrightarrow> weighted_loop (dp_intn d) g ts ws tot out = Some (us, g') \<Longrightarrow> I g'"
proof (induction ts arbitrary: g ws tot out rule: measure_induct_rule[of "length"])
  case (less ts)
  have "I (snd (dp_intn d tot g))" by (rule I_intn[OF less.prems(1)])
  then show ?case
    using less.prems less.IH[of "remove_at (pick_index (fst (dp_intn d tot g)) ws) ts" "snd (dp_intn d tot g)"]
    by (subst (asm) weighted_loop.simps) (auto simp: Let_def split_beta split: if_splits)
qed

lemma I_Route: "I w \<Longrightarrow> I (snd (Route (dp_intn d) r m w))"
  by (auto simp: Route_def ordered_targets_def weightedOrder_def split: option.split dest: I_weighted_loop)

lemma I_embed_targets: "I w \<Longrightarrow> I (snd (embed_targets (dp_embed d) req ts err w))"
proof (induction ts arbitrary: err w)
  case (Cons t ts)
  then show ?case using I_dembed[OF Cons.prems, of t "req\<lparr>er_Model := tg_Model t\<rparr>"] by (auto split: prod.split sum.split)
qed simp

end

text \<open>Rows, metrics and responses are not part of the world.\<close>

lemma world_frame [simp]:
  "sv_world (respond f s) = sv_world s" "sv_world (panic_with v s) = sv_world s"
  "sv_world (record_row d row s) = sv_world s" "sv_world (record_usage p md i j cost sav st s) = sv_world s"
  "sv_world (meterSuccess d rc t u cs s) = sv_world s" "sv_world (meterCacheHit d rc cs e s) = sv_world s"
  "sv_world (meterFailure d rc code kind s) = sv_world s" "sv_world (meterProviderFailure d rc err s) = sv_world s"
  "sv_world (storeAsync d rc t txt u vec s) = sv_world s" "sv_world (embeddings_error err' s) = sv_world s"
proof -
  show "sv_world (record_row d row s) = sv_world s" for row and s :: "'a srv"
    by (simp add: record_row_def panic_with_def split: option.split)
  moreover show "sv_world (record_usage p md i j cost sav st s) = sv_world s" for p md i j cost sav st and s :: "'a srv"
    by (simp add: record_usage_def panic_with_def split: option.split)
  ultimately show "sv_world (meterSuccess d rc t u cs s) = sv_world s" "sv_world (meterCacheHit d rc cs e s) = sv_world s"
    "sv_world (meterFailure d rc code kind s) = sv_world s" "sv_world (meterProviderFailure d rc err s) = sv_world s"
    by (simp_all add: meterSuccess_def meterCacheHit_def meterFailure_def meterProviderFailure_def Let_def split: prod.split)
qed (simp_all add: respond_def panic_with_def storeAsync_def embeddings_error_def split: option.split)

context world_invariant
begin

lemma I_serveFromCache: "I (sv_world s) \<Longrightarrow> I (sv_world (serveFromCache d rc res s))"
  using I_newID[of "sv_world s"] by (simp add: serveFromCache_def Let_def split_beta split: option.split)

lemma I_serveUnary: "I (sv_world s) \<Longrightarrow> I (sv_world (serveUnary d rc ts lk c s))"
  using I_Chat[of "sv_world s" ts "rc_req rc"] by (auto simp: serveUnary_def Let_def split: prod.split go.split option.split)

lemma I_stream_run:
  "exec_ChatStream (lift_env (dp_exec d)) (dp_exec_cfg d) (lift_open (dp_stream d)) ts req (stream_onChunk a) (w, st)
     = (res, (w', st')) \<Longrightarrow> I w \<Longrightarrow> I w'"
  using I_ChatStream[of w ts req a st] by simp

lemma I_serveStream: "I (sv_world s) \<Longrightarrow> I (sv_world (serveStream d rc ts lk c s))"
  by (auto simp: serveStream_def Let_def dest: I_stream_run split: prod.split go.split option.split)

lemma I_serve_chat: "I (sv_world s) \<Longrightarrow> I (sv_world (serve_chat d rc c lk s))"
  using I_Route[of "sv_world s" "dp_router d" "cr_Model (rc_req rc)"]
  by (auto simp: serve_chat_def I_serveFromCache split: prod.splits sum.split route_error.split
      intro!: I_serveUnary I_serveStream)

lemma I_lookup_stage: "I w \<Longrightarrow> I (snd (lookup_stage d rq t req w))"
  using cache_invariant.I_Lookup[OF I_cache]
  by (auto simp: lookup_stage_def Let_def split_beta split: option.split prod.split)

lemma I_handleChatCompletions: "I (sv_world s) \<Longrightarrow> I (sv_world (handleChatCompletions d rq s))"
  using I_lookup_stage[of "sv_world s" rq]
  by (auto simp: handleChatCompletions_def Let_def split_beta intro!: I_serve_chat split: option.split prod.split)

lemma I_handleEmbeddings: "I (sv_world s) \<Longrightarrow> I (sv_world (handleEmbeddings d rq s))"
proof -
  assume "I (sv_world s)"
  then have "I w" if "Route (dp_intn d) (dp_router d) m (sv_world s) = (a, w)" for m a w using I_Route that by (metis snd_conv)
  moreover have "I w'" if "embed_targets (dp_embed d) req ts e w = (a, w')" "I w" for req ts e w a w'
    using I_embed_targets that by (metis snd_conv)
  ultimately show ?thesis using \<open>I (sv_world s)\<close>
    by (auto simp: handleEmbeddings_def split: option.split prod.split sum.split route_error.split)
qed

lemma I_protected:
  assumes "\<And>rq s. I (sv_world s) \<Longrightarrow> I (sv_world (h rq s))" "I (sv_world s)"
  shows "I (sv_world (protected (dp_auth d) (dp_limit d) h rq s))"
  using assms I_auth[OF assms(2)] I_limit
  by (auto simp: protected_def withAuth_def withRateLimit_def Let_def split_beta split: sum.split option.split)

lemma I_endpoint: "(p, h) \<in> set (routes d) \<Longrightarrow> I (sv_world s) \<Longrightarrow> I (sv_world (h rq s))"
  by (auto simp: routes_def api_routes_def metrics_page_def handleModels_def handleHealth_def handleReady_def Let_def
      intro!: I_protected I_handleChatCompletions I_handleEmbeddings split: option.splits)

lemma I_mux:
  assumes "NewServer d = Some m" "I (sv_world s)"
  shows "I (sv_world (mux m rq s))"
proof (cases "mux_find m (rq_Host rq) (rq_Method rq) (rq_Path rq)")
  case None
  then show ?thesis using assms(2) by (simp add: mux_def Let_def)
next
  case (Some x)
  obtain p h where x: "x = (p, h)" by (cases x)
  obtain pat where "(pat, h) \<in> set (routes d)" using served_route[OF assms(1)] Some x by blast
  from I_endpoint[OF this] show ?thesis using Some x assms(2) by (simp add: mux_def)
qed

lemma I_Handler:
  assumes "NewServer d = Some m" "I (sv_world s)"
  shows "I (sv_world (fst (Handler d m rq (s, w))))"
proof -
  have r: "I (sv_world (withRecovery (mux m) rq' s'))" if "I (sv_world s')" for rq' s'
    using I_mux[OF assms(1) that, of rq'] by (simp add: withRecovery_def Let_def split: option.split panic.split)
  show ?thesis
    using assms(2) I_newID[OF assms(2)]
    by (auto simp: Handler_def withRequestID_def withAccessLog_def Let_def split_beta intro!: r)
qed

end


section \<open>The gateway over its circuits\<close>

text \<open>
  The collaborators with the store of circuits beside their world, as \<open>main.go\<close> puts them together: the executor's guard works
  on the store, nothing else touches it, and breaker and server read the same clock. A third component counts the calls
  of one provider; it decides nothing.
\<close>

definition apart :: "('x \<Rightarrow> 'a \<times> 'x) \<Rightarrow> 's \<times> ('x \<times> int) \<Rightarrow> 'a \<times> ('s \<times> ('x \<times> int))" where
  "apart f = (\<lambda>(s, (x, n)). let (a, x') = f x in (a, (s, (x', n))))"

definition tallied :: "string \<Rightarrow> target \<Rightarrow> ('x \<Rightarrow> 'a \<times> 'x) \<Rightarrow> 's \<times> ('x \<times> int) \<Rightarrow> 'a \<times> ('s \<times> ('x \<times> int))" where
  "tallied p t f = (\<lambda>(s, (x, n)). let (a, x') = f x in (a, (s, (x', if provider_Name (tg_Provider t) = p then n + 1 else n))))"

definition cache_apart :: "('x, 'b) cache_env \<Rightarrow> ('s \<times> ('x \<times> int), 'b) cache_env" where
  "cache_apart e =
     \<lparr>xe_digest = xe_digest e, xe_point_digest = xe_point_digest e, xe_encode = xe_encode e, xe_decode = xe_decode e,
      xe_get = (\<lambda>k. apart (xe_get e k)), xe_set = (\<lambda>k v ttl. apart (xe_set e k v ttl)), xe_del = (\<lambda>k. apart (xe_del e k)),
      xe_redis_ping = (\<lambda>(s, (x, n)). xe_redis_ping e x), xe_embed = (\<lambda>txts. apart (xe_embed e txts)),
      xe_search = (\<lambda>coll q. apart (xe_search e coll q)), xe_upsert = (\<lambda>coll pts. apart (xe_upsert e coll pts)),
      xe_qdrant_ping = (\<lambda>(s, (x, n)). xe_qdrant_ping e x), xe_now = (\<lambda>(s, (x, n)). xe_now e x),
      xe_metric = (\<lambda>m (s, (x, n)). (s, (xe_metric e m x, n)))\<rparr>"

definition guarded ::
  "bool \<Rightarrow> (instant \<Rightarrow> string \<Rightarrow> 's \<Rightarrow> (go_error + breaker_state) \<times> 's)
    \<Rightarrow> (instant \<Rightarrow> string \<Rightarrow> 's \<Rightarrow> (go_error + breaker_state) \<times> 's)
    \<Rightarrow> (instant \<Rightarrow> string \<Rightarrow> 's \<Rightarrow> (go_error + breaker_state) \<times> 's)
    \<Rightarrow> string \<Rightarrow> ('x, 'b) deps \<Rightarrow> ('s \<times> ('x \<times> int), 'b) deps" where
  "guarded enabled snapshot success failure p d =
     \<lparr>dp_MaxBodyBytes = dp_MaxBodyBytes d, dp_decode_chat = dp_decode_chat d, dp_decode_embed = dp_decode_embed d,
      dp_router = dp_router d, dp_intn = (\<lambda>n. apart (dp_intn d n)),
      dp_exec = with_breaker enabled snapshot success failure (\<lambda>(x, n). dp_now d x) (lift_env (dp_exec d)),
      dp_exec_cfg = dp_exec_cfg d,
      dp_chat = (\<lambda>t r. tallied p t (dp_chat d t r)), dp_stream = (\<lambda>t r. tallied p t (dp_stream d t r)),
      dp_embed = (\<lambda>t r. apart (dp_embed d t r)), dp_auth = (\<lambda>k. apart (dp_auth d k)),
      dp_limit = map_option (\<lambda>allow t. apart (allow t)) (dp_limit d),
      dp_cache = map_option (\<lambda>(e, c). (cache_apart e, c)) (dp_cache d), dp_prices = dp_prices d,
      dp_now = (\<lambda>(s, (x, n)). dp_now d x), dp_newID = apart (dp_newID d), dp_metrics_page = dp_metrics_page d\<rparr>"

text \<open>Nothing the gateway calls turns the clock back.\<close>

definition forward :: "('x \<Rightarrow> instant) \<Rightarrow> ('x \<Rightarrow> 'a \<times> 'x) \<Rightarrow> bool" where
  "forward now f \<longleftrightarrow> (\<forall>x. now x \<le> now (snd (f x)))"

definition cache_advances :: "('x \<Rightarrow> instant) \<Rightarrow> ('x, 'b) cache_env \<Rightarrow> bool" where
  "cache_advances now e \<longleftrightarrow>
     (\<forall>k. forward now (xe_get e k)) \<and> (\<forall>k v ttl. forward now (xe_set e k v ttl)) \<and> (\<forall>k. forward now (xe_del e k)) \<and>
     (\<forall>txts. forward now (xe_embed e txts)) \<and> (\<forall>coll q. forward now (xe_search e coll q)) \<and>
     (\<forall>coll pts. forward now (xe_upsert e coll pts)) \<and> (\<forall>m x. now x \<le> now (xe_metric e m x))"

definition gateway_advances :: "('x, 'b) deps \<Rightarrow> bool" where
  "gateway_advances d \<longleftrightarrow>
     (\<forall>n. forward (dp_now d) (dp_intn d n)) \<and> (\<forall>dur. forward (dp_now d) (ee_wait (dp_exec d) dur)) \<and>
     (\<forall>n. forward (dp_now d) (ee_int63n (dp_exec d) n)) \<and> (\<forall>i x. dp_now d x \<le> dp_now d (ee_report (dp_exec d) i x)) \<and>
     (\<forall>t r. forward (dp_now d) (dp_chat d t r)) \<and> (\<forall>t r. forward (dp_now d) (dp_stream d t r)) \<and>
     (\<forall>t r. forward (dp_now d) (dp_embed d t r)) \<and> (\<forall>k. forward (dp_now d) (dp_auth d k)) \<and>
     (\<forall>allow t. dp_limit d = Some allow \<longrightarrow> forward (dp_now d) (allow t)) \<and>
     (\<forall>e c. dp_cache d = Some (e, c) \<longrightarrow> cache_advances (dp_now d) e) \<and> forward (dp_now d) (dp_newID d)"

text \<open>The provider is down: a completion fails, a stream fails before its first chunk, with an error that counts.\<close>

definition gateway_down :: "('x, 'b) deps \<Rightarrow> string \<Rightarrow> bool" where
  "gateway_down d p \<longleftrightarrow>
     (\<forall>t r x. provider_Name (tg_Provider t) = p \<longrightarrow>
        (\<exists>e. fst (dp_chat d t r x) = Inl e \<and> is_fault (Some e)) \<and>
        (\<exists>fin. fst (dp_stream d t r x) = ([], fin) \<and> is_fault fin))"

lemma apart_simps [simp]:
  "apart f (s, (x, n)) = (fst (f x), (s, (snd (f x), n)))"
  "tallied p t f (s, (x, n)) = (fst (f x), (s, (snd (f x), if provider_Name (tg_Provider t) = p then n + 1 else n)))"
  by (simp_all add: apart_def tallied_def split_beta)

section \<open>A completion in the terms of the executor\<close>

text \<open>
  The world of a completion, with the variable its closure writes to, against the world of the logged failover it runs: the same
  circuits, and the calls counted are those of the log.
\<close>

definition unary_rel :: "string \<Rightarrow> ('s \<times> ('x \<times> int)) \<times> 'y \<Rightarrow> ('s \<times> (('x \<times> int) \<times> 'y)) \<times> exec_event list \<Rightarrow> bool" where
  "unary_rel p = (\<lambda>((s, (x, n)), y) ((s', z), l). s' = s \<and> z = ((x, n), y) \<and> n = calls_to p l)"

definition unary_tally :: "string \<Rightarrow> ('x, 'b) deps \<Rightarrow> (('x \<times> int) \<times> chat_response option) caller" where
  "unary_tally p d = unary_call (\<lambda>t r (x, n). let (out, x') = dp_chat d t r x
     in (out, (x', if provider_Name (tg_Provider t) = p then n + 1 else n)))"

interpretation unary_sim: exec_simulation "lift_env (dp_exec (guarded True sn su fa p d))"
    "traced (with_breaker True sn su fa (\<lambda>((x, n), y). dp_now d x) (lift_env (lift_env (dp_exec d))))"
    "unary_call (dp_chat (guarded True sn su fa p d))" "traced_call (beside (unary_tally p d))"
    "\<lambda>_. False" "\<lambda>(w, l). False" "unary_rel p"
  for sn su fa p d
  by unfold_locales
    (auto simp: unary_rel_def guarded_def lift_env_def frame_simps split_beta rel_prod_sel unary_tally_def unary_call_def
      split: sum.split)


text \<open>What the callback does with a chunk does not depend on the world.\<close>

lemma onChunk_world:
  "fst (stream_onChunk a c (w, st)) = fst (stream_onChunk a c (v, st))"
  "fst (snd (stream_onChunk a c (w, st))) = w"
  "snd (snd (stream_onChunk a c (w, st))) = snd (snd (stream_onChunk a c (v, st)))"
  by (simp_all add: stream_onChunk_def Let_def split_beta)

lemma feed_world:
  "fst (feed (counted (stream_onChunk a)) cs fin ((w, st), b)) = fst (feed (counted (stream_onChunk a)) cs fin ((v, st), b)) \<and>
   fst (fst (snd (feed (counted (stream_onChunk a)) cs fin ((w, st), b)))) = w \<and>
   snd (fst (snd (feed (counted (stream_onChunk a)) cs fin ((w, st), b))))
     = snd (fst (snd (feed (counted (stream_onChunk a)) cs fin ((v, st), b)))) \<and>
   snd (snd (feed (counted (stream_onChunk a)) cs fin ((w, st), b))) = snd (snd (feed (counted (stream_onChunk a)) cs fin ((v, st), b)))"
proof (induction cs arbitrary: st b)
  case (Cons c cs)
  obtain e w' st1 where w: "stream_onChunk a c (w, st) = (e, (w', st1))" by (metis surj_pair)
  moreover from this have "stream_onChunk a c (v, st) = (e, (v, st1))" "w' = w"
    using onChunk_world(1,3)[of a c w st v] onChunk_world(2)[of a c w st] onChunk_world(2)[of a c v st] by (auto simp: prod_eq_iff)
  ultimately show ?case using Cons.IH[of st1 True] by (cases e) (auto simp: counted_def)
qed simp

definition stream_rel ::
  "string \<Rightarrow> (('s \<times> ('x \<times> int)) \<times> 'y) \<times> bool \<Rightarrow> ('s \<times> ((('x \<times> int) \<times> 'y) \<times> bool)) \<times> exec_event list \<Rightarrow> bool" where
  "stream_rel p = (\<lambda>(((s, (x, n)), y), b) ((s', z), l). s' = s \<and> z = (((x, n), y), b) \<and> n = calls_to p l)"

definition stream_tally :: "string \<Rightarrow> ('x, 'b) deps \<Rightarrow> string \<Rightarrow> ((('x \<times> int) \<times> stream_state) \<times> bool) caller" where
  "stream_tally p d a = stream_call (lift_open (\<lambda>t r (x, n). let (out, x') = dp_stream d t r x
     in (out, (x', if provider_Name (tg_Provider t) = p then n + 1 else n)))) (stream_onChunk a)"

lemma stream_rel_call:
  assumes "stream_rel p w v"
  shows "rel_prod (=) (stream_rel p) (stream_call (lift_open (dp_stream (guarded True sn su fa p d))) (stream_onChunk a) t r w)
    (traced_call (beside (stream_tally p d a)) t r v)"
proof -
  obtain s x n y b l where w: "w = (((s, (x, n)), y), b)" and v: "v = ((s, (((x, n), y), b)), l)" "n = calls_to p l"
    using assms by (auto simp: stream_rel_def)
  obtain cs fin x' where o: "dp_stream d t r x = ((cs, fin), x')" by (metis surj_pair)
  let ?n = "if provider_Name (tg_Provider t) = p then n + 1 else n"
  show ?thesis
    using feed_world[of a cs fin "(s, (x', ?n))" y b "(x', ?n)"] feed_world[of a cs fin "(x', ?n)" y b "(s, (x', ?n))"]
    by (auto simp: w v o guarded_def stream_tally_def stream_call_def lift_open_def frame_simps split_beta rel_prod_sel stream_rel_def
        prod_eq_iff)
qed

interpretation stream_sim: exec_simulation "lift_env (lift_env (dp_exec (guarded True sn su fa p d)))"
    "traced (with_breaker True sn su fa (\<lambda>(((x, n), y), b). dp_now d x) (lift_env (lift_env (lift_env (dp_exec d)))))"
    "stream_call (lift_open (dp_stream (guarded True sn su fa p d))) (stream_onChunk a)" "traced_call (beside (stream_tally p d a))"
    snd "\<lambda>((s, z), l). snd z" "stream_rel p"
  for sn su fa p d a
proof (unfold_locales, goal_cases)
  case (8 w v t r)
  then show ?case by (rule stream_rel_call)
qed (auto simp: stream_rel_def guarded_def lift_env_def frame_simps split_beta rel_prod_sel)


section \<open>Sheltered from an outage\<close>

text \<open>The calls counted are those of a log in which the outage is contained.\<close>

definition sheltered ::
  "('s \<Rightarrow> bool) \<Rightarrow> ('s \<Rightarrow> string \<Rightarrow> breaker_entry) \<Rightarrow> breaker_config \<Rightarrow> exec_config \<Rightarrow> ('x \<Rightarrow> instant) \<Rightarrow> instant
    \<Rightarrow> string \<Rightarrow> 's \<times> ('x \<times> int) \<Rightarrow> bool" where
  "sheltered up view cfg ecfg now t0 p = (\<lambda>(s, (x, n)).
     \<exists>l. contained up view cfg ecfg now t0 p ((s, x), l) \<and> n = calls_to p l)"

lemma contained_clock:
  "contained up view cfg ecfg clock t0 p ((s, x), l) \<Longrightarrow> clock' z = clock x \<Longrightarrow>
   contained up view cfg ecfg clock' t0 p ((s, z), l)"
  by (simp add: contained_def under_ledger_def)

lemma sheltered_later:
  assumes "sheltered up view cfg ecfg now t0 p (s, (x, n))" "now x \<le> now x'"
  shows "sheltered up view cfg ecfg now t0 p (s, (x', n))"
  using assms by (fastforce simp: sheltered_def contained_def under_ledger_def)

lemma sheltered_apart:
  assumes "forward now f" "sheltered up view cfg ecfg now t0 p w"
  shows "sheltered up view cfg ecfg now t0 p (snd (apart f w))"
  using assms by (cases w) (auto simp: forward_def split: prod.splits intro: sheltered_later)

interpretation cache_apart: cache_invariant "cache_apart e"
    "\<lambda>w. cache_advances now e \<longrightarrow> sheltered up view cfg ecfg now t0 p w"
  for e now up view cfg ecfg t0 p
  by unfold_locales (auto simp: cache_apart_def cache_advances_def intro: sheltered_apart sheltered_later split: prod.splits)

text \<open>What the executor is told of time and of the provider follows from what the gateway is.\<close>

lemma gateway_downD:
  assumes "gateway_down d p" "provider_Name (tg_Provider t) = p"
  obtains e fin where "fst (dp_chat d t r x) = Inl e" "is_fault (Some e)" "fst (dp_stream d t r x) = ([], fin)" "is_fault fin"
  using assms unfolding gateway_down_def by blast

lemma unary_tally_advances:
  assumes "gateway_advances d"
  shows "clock_advances (\<lambda>((x, n), y). dp_now d x) (lift_env (lift_env (dp_exec d))) (unary_tally p d)"
  using assms
  by (auto simp: clock_advances_def gateway_advances_def forward_def lift_env_def unary_tally_def unary_call_def split_beta
      split: sum.split)

lemma unary_tally_down:
  assumes "gateway_down d q"
  shows "provider_down (unary_tally p d) q"
  unfolding provider_down_def
proof (intro allI impI)
  fix t :: target and r and z :: "('a \<times> int) \<times> chat_response option"
  assume t: "provider_Name (tg_Provider t) = q"
  show "is_fault (fst (unary_tally p d t r z))"
    by (rule gateway_downD[OF assms t, of r "fst (fst z)"]) (cases z; simp add: unary_tally_def unary_call_def split_beta)
qed

lemma stream_tally_advances:
  assumes "gateway_advances d"
  shows "clock_advances (\<lambda>(((x, n), y), b). dp_now d x) (lift_env (lift_env (lift_env (dp_exec d)))) (stream_tally p d a)"
proof -
  have f: "fst (fst (snd (feed (counted (stream_onChunk a)) cs fin ((w, st), b)))) = w" for cs fin w st b
    using feed_world[of a cs fin w st b w] by simp
  show ?thesis
    using assms
    by (auto simp: clock_advances_def gateway_advances_def forward_def lift_env_def stream_tally_def stream_call_def lift_open_def
        split_beta f)
qed

lemma stream_tally_down:
  assumes "gateway_down d q"
  shows "provider_down (stream_tally p d a) q"
  unfolding provider_down_def
proof (intro allI impI)
  fix t :: target and r and z :: "(('a \<times> int) \<times> stream_state) \<times> bool"
  assume t: "provider_Name (tg_Provider t) = q"
  show "is_fault (fst (stream_tally p d a t r z))"
    by (rule gateway_downD[OF assms t, of r "fst (fst (fst z))"])
      (cases z; simp add: stream_tally_def stream_call_def lift_open_def split_beta)
qed

lemma exec_Chat_world:
  "snd (exec_Chat env cfg chat ts req w) = fst (snd (exec_do (lift_env env) cfg (unary_call chat) (\<lambda>_. False) req ts (w, None)))"
  unfolding exec_Chat_def unary_call_def Let_def by (auto split: prod.split go.split)

context breaker_store
begin

lemma sheltered_Chat:
  assumes d: "gateway_advances d" "gateway_down d p"
    and w: "sheltered up view cfg (dp_exec_cfg d) (dp_now d) t0 p w"
  shows "sheltered up view cfg (dp_exec_cfg d) (dp_now d) t0 p
    (snd (exec_Chat (dp_exec (guarded True snapshot success failure p d)) (dp_exec_cfg d)
      (dp_chat (guarded True snapshot success failure p d)) ts req w))"
proof -
  let ?clock = "\<lambda>((x, n), y). dp_now d x"
  obtain s x n l where l: "w = (s, (x, n))" "contained up view cfg (dp_exec_cfg d) (dp_now d) t0 p ((s, x), l)" "n = calls_to p l"
    using w by (auto simp: sheltered_def)
  let ?v = "((s, ((x, n), None)), l)"
  have rel: "unary_rel p (w, None) ?v" using l by (simp add: unary_rel_def)
  have "contained up view cfg (dp_exec_cfg d) ?clock t0 p ?v" by (rule contained_clock[OF l(2)]) simp
  from contained_do[OF unary_tally_advances[OF d(1)] unary_tally_down[OF d(2)] this, where com = "\<lambda>(w, l). False" and req = req and ts = ts]
  have c: "contained up view cfg (dp_exec_cfg d) ?clock t0 p
    (snd (exec_do (traced (with_breaker True snapshot success failure ?clock (lift_env (lift_env (dp_exec d))))) (dp_exec_cfg d)
      (traced_call (beside (unary_tally p d))) (\<lambda>(w, l). False) req ts ?v))" .
  obtain res s' x' n' y where run: "exec_do (lift_env (dp_exec (guarded True snapshot success failure p d))) (dp_exec_cfg d)
      (unary_call (dp_chat (guarded True snapshot success failure p d))) (\<lambda>_. False) req ts (w, None) = (res, ((s', (x', n')), y))"
    by (metis surj_pair)
  from unary_sim.R_run[OF rel run] obtain v' where v': "unary_rel p ((s', (x', n')), y) v'"
    "contained up view cfg (dp_exec_cfg d) ?clock t0 p v'" using c by (metis snd_conv)
  then show ?thesis
    unfolding exec_Chat_world run
    by (cases v') (auto simp: unary_rel_def sheltered_def intro: contained_clock[where clock = ?clock])
qed

lemma sheltered_ChatStream:
  assumes d: "gateway_advances d" "gateway_down d p"
    and w: "sheltered up view cfg (dp_exec_cfg d) (dp_now d) t0 p w"
  shows "sheltered up view cfg (dp_exec_cfg d) (dp_now d) t0 p
    (fst (snd (exec_ChatStream (lift_env (dp_exec (guarded True snapshot success failure p d))) (dp_exec_cfg d)
      (lift_open (dp_stream (guarded True snapshot success failure p d))) ts req (stream_onChunk a) (w, st))))"
proof -
  let ?clock = "\<lambda>(((x, n), y), b). dp_now d x"
  obtain s x n l where l: "w = (s, (x, n))" "contained up view cfg (dp_exec_cfg d) (dp_now d) t0 p ((s, x), l)" "n = calls_to p l"
    using w by (auto simp: sheltered_def)
  let ?v = "((s, (((x, n), st), False)), l)"
  have rel: "stream_rel p ((w, st), False) ?v" using l by (simp add: stream_rel_def)
  have "contained up view cfg (dp_exec_cfg d) ?clock t0 p ?v" by (rule contained_clock[OF l(2)]) simp
  from contained_do[OF stream_tally_advances[OF d(1)] stream_tally_down[OF d(2)] this, where com = "\<lambda>((s, z), l). snd z" and req = req and ts = ts]
  have c: "contained up view cfg (dp_exec_cfg d) ?clock t0 p
    (snd (exec_do (traced (with_breaker True snapshot success failure ?clock (lift_env (lift_env (lift_env (dp_exec d)))))) (dp_exec_cfg d)
      (traced_call (beside (stream_tally p d a))) (\<lambda>((s, z), l). snd z) req ts ?v))" .
  obtain res s' x' n' y b where run: "exec_do (lift_env (lift_env (dp_exec (guarded True snapshot success failure p d)))) (dp_exec_cfg d)
      (stream_call (lift_open (dp_stream (guarded True snapshot success failure p d))) (stream_onChunk a)) snd req ts ((w, st), False)
      = (res, (((s', (x', n')), y), b))"
    by (metis surj_pair)
  from stream_sim.R_run[OF rel run] obtain v' where v': "stream_rel p (((s', (x', n')), y), b) v'"
    "contained up view cfg (dp_exec_cfg d) ?clock t0 p v'" using c by (metis snd_conv)
  then show ?thesis
    unfolding exec_ChatStream_def run
    by (cases v') (auto simp: stream_rel_def sheltered_def intro: contained_clock[where clock = ?clock])
qed

end


context breaker_store
begin

lemma guarded_invariant:
  "world_invariant (guarded True snapshot success failure p d)
     (\<lambda>w. gateway_advances d \<and> gateway_down d p \<longrightarrow> sheltered up view cfg (dp_exec_cfg d) (dp_now d) t0 p w)"
proof (rule world_invariant.intro, goal_cases)
  case (2 w ts req)
  then show ?case using sheltered_Chat[of d p t0 w ts req] by (auto simp: guarded_def)
next
  case (3 w ts req a st)
  then show ?case using sheltered_ChatStream[of d p t0 w ts req a st] by (auto simp: guarded_def)
next
  case (6 allow w tn)
  then show ?case by (auto simp: guarded_def gateway_advances_def intro: sheltered_apart)
next
  case (7 e c)
  then obtain e' where e: "e = cache_apart e'" "dp_cache d = Some (e', c)" by (auto simp: guarded_def)
  show ?case
  proof (cases "gateway_advances d \<and> gateway_down d p")
    case True
    then have "cache_advances (dp_now d) e'" using e(2) by (auto simp: gateway_advances_def)
    with True show ?thesis
      using cache_apart.cache_invariant_axioms[of e' "dp_now d" up view cfg "dp_exec_cfg d" t0 p] by (simp add: e(1))
  next
    case False
    then show ?thesis by (auto simp: cache_invariant_def)
  qed
qed (auto simp: guarded_def gateway_advances_def intro: sheltered_apart)

end

interpretation local_door: world_invariant
    "guarded True (local_Snapshot cfg) (local_RecordSuccess cfg) (local_RecordFailure cfg) p d"
    "\<lambda>w. gateway_advances d \<and> gateway_down d p \<longrightarrow> sheltered (\<lambda>_. True) entry cfg (dp_exec_cfg d) (dp_now d) t0 p w"
  for cfg p d t0
  by (rule lbs.guarded_invariant)

interpretation redis_door: world_invariant
    "guarded True (redis_Snapshot cfg) (redis_RecordSuccess cfg) (redis_RecordFailure cfg) p d"
    "\<lambda>w. gateway_advances d \<and> gateway_down d p \<longrightarrow> sheltered rs_up redis_view (in_millis cfg) (dp_exec_cfg d) (dp_now d) t0 p w"
  for cfg p d t0
  by (rule rbs.guarded_invariant)

section \<open>The front door\<close>

text \<open>
  What happens to a running server: a request with its connection, one of the cache writes it has started, in any order, or
  the world moving on by itself, to any state whose clock is not behind.
\<close>

datatype 'x door_event = Request http_req response_writer | CacheWrite nat | Elsewhere 'x

definition finish_job :: "('w, 'b) deps \<Rightarrow> nat \<Rightarrow> 'w srv \<Rightarrow> 'w srv" where
  "finish_job d k s =
     (case dp_cache d of
        Some (e, c) \<Rightarrow>
          if k < length (sv_jobs s)
          then s\<lparr>sv_world := run_job e c (sv_jobs s ! k) (sv_world s), sv_jobs := remove_at k (sv_jobs s)\<rparr> else s
      | None \<Rightarrow> s)"

fun door_step :: "('s \<times> ('x \<times> int), 'b) deps \<Rightarrow> (pattern \<times> ('s \<times> ('x \<times> int)) handler) list \<Rightarrow> ('x \<Rightarrow> instant) \<Rightarrow> 'x door_event
    \<Rightarrow> ('s \<times> ('x \<times> int)) srv \<Rightarrow> ('s \<times> ('x \<times> int)) srv" where
  "door_step d m now (Request rq w) s = fst (Handler d m rq (s, w))"
| "door_step d m now (CacheWrite k) s = finish_job d k s"
| "door_step d m now (Elsewhere y) s =
     (case sv_world s of (c, (x, n)) \<Rightarrow> if now x \<le> now y then s\<lparr>sv_world := (c, (y, n))\<rparr> else s)"

definition front_door :: "('s \<times> ('x \<times> int), 'b) deps \<Rightarrow> (pattern \<times> ('s \<times> ('x \<times> int)) handler) list \<Rightarrow> ('x \<Rightarrow> instant)
    \<Rightarrow> 'x door_event list \<Rightarrow> ('s \<times> ('x \<times> int)) srv \<Rightarrow> ('s \<times> ('x \<times> int)) srv" where
  "front_door d m now es s = foldl (\<lambda>s e. door_step d m now e s) s es"

context breaker_store
begin

lemma sheltered_step:
  assumes d: "gateway_advances d" "gateway_down d p"
    and m: "NewServer (guarded True snapshot success failure p d) = Some m"
    and s: "sheltered up view cfg (dp_exec_cfg d) (dp_now d) t0 p (sv_world s)"
  shows "sheltered up view cfg (dp_exec_cfg d) (dp_now d) t0 p
    (sv_world (door_step (guarded True snapshot success failure p d) m (dp_now d) e s))"
proof (cases e)
  case (Request rq w)
  then show ?thesis using world_invariant.I_Handler[OF guarded_invariant[of p d t0] m, of s rq w] d s by simp
next
  case (CacheWrite k)
  have "sheltered up view cfg (dp_exec_cfg d) (dp_now d) t0 p (run_job x c j (sv_world s))"
    if "dp_cache (guarded True snapshot success failure p d) = Some (x, c)" for x c j
    using cache_invariant.I_run_job[OF world_invariant.I_cache[OF guarded_invariant that]] d s by blast
  with CacheWrite s show ?thesis by (auto simp: finish_job_def split: option.split)
next
  case (Elsewhere y)
  with s show ?thesis by (auto intro: sheltered_later split: prod.split)
qed

lemma sheltered_door:
  assumes "gateway_advances d" "gateway_down d p" "NewServer (guarded True snapshot success failure p d) = Some m"
  shows "sheltered up view cfg (dp_exec_cfg d) (dp_now d) t0 p (sv_world s) \<Longrightarrow>
    sheltered up view cfg (dp_exec_cfg d) (dp_now d) t0 p
      (sv_world (front_door (guarded True snapshot success failure p d) m (dp_now d) es s))"
proof (induction es arbitrary: s)
  case (Cons e es)
  show ?case using Cons.IH[OF sheltered_step[OF assms Cons.prems, of e]] by (simp add: front_door_def)
qed (simp add: front_door_def)

lemma door_contained:
  assumes "gateway_advances d" "gateway_down d p" "NewServer (guarded True snapshot success failure p d) = Some m"
    and "1 \<le> bc_FailureThreshold cfg" "up c" "view c p = new_entry" "sv_world s = (c, (x, 0))"
    and run: "sv_world (front_door (guarded True snapshot success failure p d) m (dp_now d) es s) = (c', (x', n))"
    and now: "dp_now d x' < dp_now d x + bc_OpenDuration cfg"
  shows "n \<le> bc_FailureThreshold cfg - 1 + max_attempts (dp_exec_cfg d) \<and>
    (fst (fst (Allow True snapshot (dp_now d x') p c')) \<longleftrightarrow> n < bc_FailureThreshold cfg)"
proof -
  have "contained up view cfg (dp_exec_cfg d) (dp_now d) (dp_now d x) p ((c, x), [])"
    using assms(4-6) by (simp add: contained_def under_ledger_def ledger_start max_attempts_def)
  then have "sheltered up view cfg (dp_exec_cfg d) (dp_now d) (dp_now d x) p (sv_world s)"
    using assms(7) by (auto simp: sheltered_def)
  from sheltered_door[OF assms(1-3) this, of es, unfolded run] obtain l where
    c: "contained up view cfg (dp_exec_cfg d) (dp_now d) (dp_now d x) p ((c', x'), l)" "n = calls_to p l"
    by (auto simp: sheltered_def)
  then have l: "ledger cfg (view c' p) (dp_now d x) p l" "n = faults p l" "up c'"
    "faults p l \<le> bc_FailureThreshold cfg - 1 + max_attempts (dp_exec_cfg d)"
    using now by (auto simp: contained_def under_ledger_def)
  have "be_state (view c' p) = StateOpen \<and> dp_now d x' - be_openedAt (view c' p) < bc_OpenDuration cfg
      \<longleftrightarrow> \<not> faults p l < bc_FailureThreshold cfg"
    using l(1) now by (auto simp: ledger_def)
  with l show ?thesis using Allow_iff[OF l(3), of "dp_now d x'" p] by auto
qed

end


text \<open>A gateway whose only provider is down: a call takes a second.\<close>

definition dark_gateway :: "(instant, unit) deps" where
  "dark_gateway = (demo_deps None)\<lparr>dp_exec := clock_env, dp_now := (\<lambda>x. x),
     dp_chat := (\<lambda>t r x. (Inl (fault KindUnavailable), x + Second)),
     dp_stream := (\<lambda>t r x. (([], Some (fault KindUnavailable)), x + Second))\<rparr>"

lemma mux_completions:
  assumes "rq_Method rq = ''POST''" "rq_Path rq = ''/v1/chat/completions''"
  shows "mux (api_mux d) rq s = protected (dp_auth d) (dp_limit d) (handleChatCompletions d) rq
     (s\<lparr>sv_pattern := ''POST /v1/chat/completions''\<rparr>)"
proof -
  have p: "rq_Path rq = CHR ''/'' # ''v1/chat/completions''" using assms(2) by simp
  have "filter (Surface.asked rq) (endpoints d) = [(''POST'', [''v1'', ''chat'', ''completions''], protected (dp_auth d) (dp_limit d) (handleChatCompletions d))]"
    by (simp add: endpoints_def Surface.asked_def assms)
  with filter_endpoints[OF p, of "rq_Host rq" d] show ?thesis
    by (simp add: mux_def mux_find_def Let_def endpoint_pattern_def assms more_specific_def comparePathsAndMethods_def compareMethods_def comparePaths_def ends_multi_def)
qed
abbreviation dark_door :: "(local_store \<times> (instant \<times> int), unit) deps" where
  "dark_door \<equiv> guarded True (local_Snapshot outage_config) (local_RecordSuccess outage_config) (local_RecordFailure outage_config)
     ''dev'' dark_gateway"

abbreviation dark_store :: local_store where
  "dark_store \<equiv> [''dev'' \<mapsto> \<lparr>be_state = StateOpen, be_failures = 3, be_successes = 0, be_openedAt = 3300000000, be_probesInFlgt = 0\<rparr>]"

lemmas dark_defs = exec_Chat_def guarded_def dark_gateway_def demo_deps_def outage_defs lift_env_def tallied_def

lemma dark_chat:
  "snd (exec_Chat (dp_exec dark_door) (dp_exec_cfg dark_door) (dp_chat dark_door) [demo_target ''dev''] r (NewLocalBreakerStore, (0, 0)))
     = (dark_store, (3300000000, 3))"
  "snd (exec_Chat (dp_exec dark_door) (dp_exec_cfg dark_door) (dp_chat dark_door) [demo_target ''dev''] r (dark_store, (5000000000, 3)))
     = (dark_store, (5000000000, 3))"
  by (simp_all add: dark_defs)

lemma dark_fields:
  "dp_MaxBodyBytes dark_door = 100" "dp_decode_chat dark_door = (\<lambda>b. Complete (Inr (ask [say ''user'' b])))" "dp_cache dark_door = None"
  "dp_router dark_door = demo_router" "dp_limit dark_door = None"
  "dp_auth dark_door ''key'' w = (Inr demo_guest, w)" "dp_newID dark_door w = (''id'', w)"
  by (cases w; simp add: guarded_def dark_gateway_def demo_deps_def)+

lemma dark_handler:
  assumes "rq_Tenant rq = Some t" "rq_Body rq = ''hi''"
  shows "sv_world (handleChatCompletions dark_door rq s) =
    snd (exec_Chat (dp_exec dark_door) (dp_exec_cfg dark_door) (dp_chat dark_door) [demo_target ''dev''] (ask [say ''user'' ''hi''])
       (sv_world s))"
proof -
  have q: "cr_Model (ask [say ''user'' ''hi'']) = ''fast''" "cr_Stream (ask [say ''user'' ''hi'']) = False"
    "Validate (ask [say ''user'' ''hi'']) = None" by (simp_all add: ask_def say_def Validate_def)
  have w: "sv_world (serveUnary d rc ts lk c s) = snd (exec_Chat (dp_exec d) (dp_exec_cfg d) (dp_chat d) ts (rc_req rc) (sv_world s))"
    for d rc ts lk c and s :: "(local_store \<times> (instant \<times> int)) srv"
    by (auto simp: serveUnary_def Let_def split: prod.split go.split option.split)
  show ?thesis
    by (simp add: handleChatCompletions_def decodeJSON_def dark_fields assms q lookup_stage_def Let_def serve_chat_def bypassed_def result_of_def
      Hit_def demo_route w)
qed

lemma dark_request:
  "sv_world (fst (Handler dark_door (api_mux dark_door) (demo_rq ''POST'' ''/v1/chat/completions'' None) (s, w))) =
     snd (exec_Chat (dp_exec dark_door) (dp_exec_cfg dark_door) (dp_chat dark_door) [demo_target ''dev''] (ask [say ''user'' ''hi''])
       (sv_world s))"
proof -
  have b: "bearerToken (\<lambda>h. if h = ''Authorization'' then ''Bearer key'' else '''') = ''key''"
    by (simp add: bearerToken_def TrimSpace_def is_space_def)
  have h: "rq_Header (demo_rq ''POST'' ''/v1/chat/completions'' None) ''X-Request-Id'' = ''''" by (simp add: demo_rq_def)
  have m: "sv_world (mux (api_mux dark_door) ((demo_rq ''POST'' ''/v1/chat/completions'' None)\<lparr>rq_RequestID := rid\<rparr>) s') =
      snd (exec_Chat (dp_exec dark_door) (dp_exec_cfg dark_door) (dp_chat dark_door) [demo_target ''dev''] (ask [say ''user'' ''hi''])
       (sv_world s'))" for s' rid
    by (subst mux_completions)
      (simp_all add: demo_rq_def b protected_def withAuth_def withRateLimit_def dark_fields dark_handler)
  show ?thesis
    by (auto simp: Handler_def withRequestID_def withAccessLog_def withRecovery_def h dark_fields Let_def m split: option.split panic.split)
qed

definition dark_run :: "local_store \<times> (instant \<times> int)" where
  "dark_run = sv_world (front_door dark_door (api_mux dark_door) (\<lambda>x. x)
     [Request (demo_rq ''POST'' ''/v1/chat/completions'' None) demo_writer, Elsewhere (5 * Second),
      Request (demo_rq ''POST'' ''/v1/chat/completions'' None) demo_writer] (demo_srv (NewLocalBreakerStore, (0, 0))))"

lemma dark_run_eval: "dark_run = (dark_store, (5000000000, 3))"
  by (simp add: dark_run_def front_door_def dark_request dark_chat demo_srv_def duration_defs)

lemma dark_facts:
  "gateway_advances dark_gateway" "gateway_down dark_gateway ''dev''" "NewServer dark_door = Some (api_mux dark_door)"
proof -
  show "gateway_advances dark_gateway"
    by (auto simp: gateway_advances_def forward_def dark_gateway_def demo_deps_def clock_env_def duration_defs)
  show "gateway_down dark_gateway ''dev''"
    by (simp add: gateway_down_def dark_gateway_def is_fault_def fault_def Errorf_def)
  show "NewServer dark_door = Some (api_mux dark_door)"
    by (simp add: NewServer_eq guarded_def dark_gateway_def demo_deps_def)
qed

section \<open>Properties\<close>

text \<open>
  C12. An outage is contained at the front door. A server starts over fresh circuits, and from then on provider \<open>p\<close> is down: its
  completions fail, and its streams before their first chunk, with a fault of the provider. Whatever requests arrive, for any
  endpoint, with any token and body, whatever the other providers, the stores, the cache and the clock do in between, and in
  whatever order the cache writes run, until the open duration has passed the server makes at most
  \<open>FailureThreshold - 1 + max_attempts\<close> calls of \<open>p\<close> for completions and streams, and the breaker admits \<open>p\<close> exactly
  while fewer than \<open>FailureThreshold\<close> calls were made.
\<close>

theorem front_door_containment:
  assumes "d = guarded True (local_Snapshot cfg) (local_RecordSuccess cfg) (local_RecordFailure cfg) p g"
    and "gateway_advances g" "gateway_down g p" "NewServer d = Some m" "1 \<le> bc_FailureThreshold cfg"
    and "sv_world s = (NewLocalBreakerStore, (x, 0))"
    and "sv_world (front_door d m (dp_now g) es s) = (c', (x', n))" "dp_now g x' < dp_now g x + bc_OpenDuration cfg"
  shows "n \<le> bc_FailureThreshold cfg - 1 + max_attempts (dp_exec_cfg g) \<and>
    (fst (fst (Allow True (local_Snapshot cfg) (dp_now g x') p c')) \<longleftrightarrow> n < bc_FailureThreshold cfg)"
  using lbs.door_contained[OF assms(2,3) _ assms(5) _ _ assms(6)] assms by simp

theorem front_door_containment_witness:
  "snd (snd dark_run) = 3 \<and> (3::int) \<le> bc_FailureThreshold outage_config - 1 + max_attempts default_exec \<and>
   \<not> fst (fst (Allow True (local_Snapshot outage_config) (5 * Second) ''dev'' (fst dark_run)))"
proof -
  have cfg: "1 \<le> bc_FailureThreshold outage_config" "dp_now dark_gateway = (\<lambda>x. x)" "dp_exec_cfg dark_gateway = default_exec"
    by (simp_all add: outage_config_def dark_gateway_def demo_deps_def)
  have run: "sv_world (front_door dark_door (api_mux dark_door) (dp_now dark_gateway)
     [Request (demo_rq ''POST'' ''/v1/chat/completions'' None) demo_writer, Elsewhere (5 * Second),
      Request (demo_rq ''POST'' ''/v1/chat/completions'' None) demo_writer] (demo_srv (NewLocalBreakerStore, (0, 0))))
     = (dark_store, (5000000000, 3))"
    using dark_run_eval unfolding dark_run_def cfg by simp
  show ?thesis
    using front_door_containment[OF refl dark_facts cfg(1) _ run] unfolding dark_run_eval
    by (simp add: cfg demo_srv_def outage_config_def duration_defs)
qed

text \<open>The same of the circuits in Redis.\<close>

lemma redis_front_door_containment:
  assumes "d = guarded True (redis_Snapshot cfg) (redis_RecordSuccess cfg) (redis_RecordFailure cfg) p g"
    and "gateway_advances g" "gateway_down g p" "NewServer d = Some m" "1 \<le> bc_FailureThreshold cfg"
    and "rs_up db" "live_hash db (breakerKey p) = None" "sv_world s = (db, (x, 0))"
    and "sv_world (front_door d m (dp_now g) es s) = (db', (x', n))" "dp_now g x' < dp_now g x + open_millis cfg"
  shows "n \<le> bc_FailureThreshold cfg - 1 + max_attempts (dp_exec_cfg g)"
proof -
  have "redis_view db p = new_entry"
    using assms(7) by (simp add: redis_view_def hash_entry_def empty_hash_def new_entry_def)
  then show ?thesis using rbs.door_contained[OF assms(2,3) _ _ assms(6) _ assms(8)] assms
    by (simp add: in_millis_def)
qed

end
