(* ===== verification/Platform.thy ===== *)
theory Platform
  imports Stores Config
begin

text \<open>
  What a start sets up outside the gateway's own state: the Redis client of \<open>internal/store/redis.go\<close>, the Postgres pool of
  \<open>postgres.go\<close>, the tracer provider and the spans of \<open>internal/obs/tracing.go\<close>, the logger of \<open>cmd/gateway/main.go\<close>. The client libraries
  answer through arguments; what the code decides with their answers is modelled.
\<close>

section \<open>Clients\<close>

text \<open>The answers of a client library: parsing the URL, opening, the ping.\<close>

record dial_env =
  dl_parse :: "string \<Rightarrow> go_error option"
  dl_open :: "go_error option"
  dl_ping :: "go_error option"

datatype client_event = Opened | Closed

record redis_options =
  ro_DialTimeout :: duration
  ro_ReadTimeout :: duration
  ro_WriteTimeout :: duration
  ro_PoolSize :: int
  ro_MinIdleConns :: int

definition redis_defaults :: redis_options where
  "redis_defaults =
     \<lparr>ro_DialTimeout = 2 * Second, ro_ReadTimeout = 500 * Millisecond, ro_WriteTimeout = 500 * Millisecond,
      ro_PoolSize = 50, ro_MinIdleConns = 5\<rparr>"

definition NewRedis :: "dial_env \<Rightarrow> string \<Rightarrow> (go_error + redis_options) \<times> client_event list" where
  "NewRedis d url =
     (case dl_parse d url of
        Some e \<Rightarrow> (Inl (wrapf ''redis: parse url'' e), [])
      | None \<Rightarrow>
          (case dl_ping d of
             Some e \<Rightarrow> (Inl (wrapf ''redis: ping'' e), [Opened, Closed])
           | None \<Rightarrow> (Inr redis_defaults, [Opened])))"

record pool_options =
  po_MaxConns :: int
  po_MinConns :: int
  po_MaxConnLifetime :: duration
  po_MaxConnIdleTime :: duration
  po_ConnectTimeout :: duration

definition pool_defaults :: pool_options where
  "pool_defaults =
     \<lparr>po_MaxConns = 10, po_MinConns = 2, po_MaxConnLifetime = Hour, po_MaxConnIdleTime = 30 * Minute,
      po_ConnectTimeout = 5 * Second\<rparr>"

definition NewPostgres :: "dial_env \<Rightarrow> string \<Rightarrow> (go_error + pool_options) \<times> client_event list" where
  "NewPostgres d url =
     (case dl_parse d url of
        Some e \<Rightarrow> (Inl (wrapf ''postgres: parse url'' e), [])
      | None \<Rightarrow>
          (case dl_open d of
             Some e \<Rightarrow> (Inl (wrapf ''postgres: pool'' e), [])
           | None \<Rightarrow>
               (case dl_ping d of
                  Some e \<Rightarrow> (Inl (wrapf ''postgres: ping'' e), [Opened, Closed])
                | None \<Rightarrow> (Inr pool_defaults, [Opened]))))"

definition dial_error :: "(go_error + 'a) \<times> client_event list \<Rightarrow> go_error option" where
  "dial_error r = (case fst r of Inl e \<Rightarrow> Some e | Inr opts \<Rightarrow> None)"

text \<open>A dial that fails leaves nothing open; one that succeeds leaves one client.\<close>

definition left_open :: "client_event list \<Rightarrow> int" where
  "left_open evs = int (count_list evs Opened) - int (count_list evs Closed)"

lemma dial_leaves:
  "left_open (snd (NewRedis d url)) = (if dial_error (NewRedis d url) = None then 1 else 0)"
  "left_open (snd (NewPostgres d url)) = (if dial_error (NewPostgres d url) = None then 1 else 0)"
  by (auto simp: NewRedis_def NewPostgres_def dial_error_def left_open_def split: option.split)

section \<open>Tracing\<close>

text \<open>The globals of OpenTelemetry that the code sets, and the spans recorded while a provider is installed; which of
  them the sampler keeps is left to the library.\<close>

record tracer_provider =
  tp_Endpoint :: string
  tp_Insecure :: bool
  tp_BatchTimeout :: duration
  tp_ServiceName :: string
  tp_ServiceVersion :: string
  tp_SampleRatio :: float64

record span =
  sp_Name :: string
  sp_Attrs :: "(string \<times> string) list"
  sp_Parent :: "nat option"
  sp_Ended :: bool

record otel =
  ot_propagators :: "string list"
  ot_provider :: "tracer_provider option"
  ot_spans :: "span list"

definition propagators :: "string list" where
  "propagators = [''tracecontext'', ''baggage'']"

text \<open>The result is the error, or whether there is a provider to shut down.\<close>

definition InitTracing ::
  "(string \<Rightarrow> go_error option) \<Rightarrow> go_error option \<Rightarrow> obs_cfg \<Rightarrow> string \<Rightarrow> otel \<Rightarrow> (go_error + bool) \<times> otel" where
  "InitTracing exporter merge cfg version g =
     (if ob_OTLPEndpoint cfg = '''' then (Inr False, g\<lparr>ot_propagators := propagators\<rparr>)
      else case exporter (ob_OTLPEndpoint cfg) of
        Some e \<Rightarrow> (Inl (wrapf ''otlp exporter'' e), g)
      | None \<Rightarrow>
          (case merge of
             Some e \<Rightarrow> (Inl (wrapf ''otel resource'' e), g)
           | None \<Rightarrow>
               (Inr True,
                g\<lparr>ot_provider := Some
                    \<lparr>tp_Endpoint = ob_OTLPEndpoint cfg, tp_Insecure = True, tp_BatchTimeout = 5 * Second,
                     tp_ServiceName = ob_ServiceName cfg, tp_ServiceVersion = version,
                     tp_SampleRatio = ob_SampleRatio cfg\<rparr>,
                  ot_propagators := propagators\<rparr>)))"

text \<open>
  \<open>StartSpan\<close> in the context of the span \<open>parent\<close>: the number of the new span, which is the context of its
  children and what \<open>end\<close> ends. Without a provider nothing is recorded.
\<close>

definition StartSpan :: "string \<Rightarrow> (string \<times> string) list \<Rightarrow> nat option \<Rightarrow> otel \<Rightarrow> nat option \<times> otel" where
  "StartSpan name attrs parent g =
     (if ot_provider g = None then (parent, g)
      else (Some (length (ot_spans g)),
            g\<lparr>ot_spans := ot_spans g @ [\<lparr>sp_Name = name, sp_Attrs = attrs, sp_Parent = parent, sp_Ended = False\<rparr>]\<rparr>))"

definition EndSpan :: "nat option \<Rightarrow> otel \<Rightarrow> otel" where
  "EndSpan s g =
     (case s of
        Some i \<Rightarrow> if i < length (ot_spans g) \<and> ot_provider g \<noteq> None
                  then g\<lparr>ot_spans := (ot_spans g)[i := (ot_spans g ! i)\<lparr>sp_Ended := True\<rparr>]\<rparr> else g
      | None \<Rightarrow> g)"

text \<open>Attributes for the span of a context; an ended span takes none.\<close>

definition SetAttributes :: "(string \<times> string) list \<Rightarrow> nat option \<Rightarrow> otel \<Rightarrow> otel" where
  "SetAttributes attrs s g =
     (case s of
        Some i \<Rightarrow> if i < length (ot_spans g) \<and> \<not> sp_Ended (ot_spans g ! i)
                  then g\<lparr>ot_spans := (ot_spans g)[i := (ot_spans g ! i)\<lparr>sp_Attrs := sp_Attrs (ot_spans g ! i) @ attrs\<rparr>]\<rparr>
                  else g
      | None \<Rightarrow> g)"

text \<open>Trace context is forwarded whether or not spans are exported; without an endpoint spans leave no trace.\<close>

lemma InitTracing_propagates:
  "InitTracing exporter merge cfg version g = (Inr b, g') \<Longrightarrow>
     ot_propagators g' = propagators \<and> (b \<longleftrightarrow> ob_OTLPEndpoint cfg \<noteq> '''') \<and> (b \<longrightarrow> ot_provider g' \<noteq> None)"
  by (auto simp: InitTracing_def split: if_splits option.splits)

lemma tracing_off:
  assumes "ot_provider g = None"
  shows "StartSpan name attrs parent g = (parent, g)" "EndSpan s g = g"
  using assms by (simp_all add: StartSpan_def EndSpan_def split: option.split)

section \<open>The log level\<close>

definition to_upper_char :: "char \<Rightarrow> char" where
  "to_upper_char c =
     (let n = (of_char c :: nat) in if 97 \<le> n \<and> n \<le> 122 then char_of (n - 32) else c)"

definition ToUpper :: "string \<Rightarrow> string" where
  "ToUpper s = map to_upper_char s"

text \<open>\<open>strconv.Atoi\<close>: a sign, digits, a value of 64 bits.\<close>

definition Atoi :: "string \<Rightarrow> int option" where
  "Atoi s =
     (let neg = (HasPrefix s ''-'');
          ds = (if neg \<or> HasPrefix s ''+'' then drop 1 s else s);
          v = (if neg then - int (digits_value ds) else int (digits_value ds))
      in if ds \<noteq> [] \<and> list_all is_digit ds \<and> - (2 ^ 63) \<le> v \<and> v < 2 ^ 63 then Some v else None)"

definition level_base :: "string \<Rightarrow> int option" where
  "level_base name =
     (if name = ''DEBUG'' then Some (- 4) else if name = ''INFO'' then Some 0
      else if name = ''WARN'' then Some 4 else if name = ''ERROR'' then Some 8 else None)"

text \<open>\<open>(*slog.Level).UnmarshalText\<close>: a name, and an offset from the first sign on.\<close>

definition parse_level :: "string \<Rightarrow> int option" where
  "parse_level s =
     (let name = takeWhile (\<lambda>c. c \<noteq> CHR ''+'' \<and> c \<noteq> CHR ''-'') s; rest = drop (length name) s in
      if rest = [] then level_base (ToUpper name)
      else case Atoi rest of
        None \<Rightarrow> None
      | Some off \<Rightarrow> map_option (\<lambda>b. b + off) (level_base (ToUpper name)))"

definition newLogger :: "string \<Rightarrow> int" where
  "newLogger level = (case parse_level level of None \<Rightarrow> 0 | Some l \<Rightarrow> l)"

lemma level_names:
  "newLogger ''debug'' = - 4" "newLogger ''Info'' = 0" "newLogger ''WARN'' = 4" "newLogger ''error'' = 8"
  "newLogger ''info+2'' = 2" "newLogger ''verbose'' = 0" "newLogger '''' = 0"
  by code_simp+

end
