(* ===== verification/Wiring.thy ===== *)
theory Wiring
  imports Surface Platform
begin

text \<open>
  \<open>cmd/gateway/main.go\<close>: which components \<open>build\<close> makes of a configuration, and the order in which \<open>close\<close> takes them down. What
  a start reaches outside the process, the trace exporter, Redis, Qdrant, Postgres and its migrations, answers through
  \<open>start_env\<close>. Logging and flag parsing are left out.
\<close>

section \<open>Building\<close>

record start_env =
  se_tracing :: "obs_cfg \<Rightarrow> go_error option"
  se_redis :: "string \<Rightarrow> go_error option"
  se_qdrant :: store_env
  se_size :: "http_response \<Rightarrow> go_error + int"
  se_postgres :: "string \<Rightarrow> go_error option"
  se_migrate :: "go_error option"

text \<open>The start environment that the client libraries make, through the constructors of \<open>internal/store\<close> and \<open>internal/obs\<close>.\<close>

record platform =
  pf_exporter :: "string \<Rightarrow> go_error option"
  pf_resource :: "go_error option"
  pf_redis :: dial_env
  pf_qdrant :: store_env
  pf_size :: "http_response \<Rightarrow> go_error + int"
  pf_postgres :: dial_env
  pf_migrate :: "go_error option"

definition no_tracing :: otel where
  "no_tracing = \<lparr>ot_propagators = [], ot_provider = None, ot_spans = []\<rparr>"

definition platform_start :: "platform \<Rightarrow> string \<Rightarrow> start_env" where
  "platform_start pf version =
     \<lparr>se_tracing = (\<lambda>c. case fst (InitTracing (pf_exporter pf) (pf_resource pf) c version no_tracing) of
        Inl e \<Rightarrow> Some e | Inr b \<Rightarrow> None),
      se_redis = (\<lambda>url. dial_error (NewRedis (pf_redis pf) url)), se_qdrant = pf_qdrant pf, se_size = pf_size pf,
      se_postgres = (\<lambda>url. dial_error (NewPostgres (pf_postgres pf) url)), se_migrate = pf_migrate pf\<rparr>"

text \<open>What \<open>close\<close> has to close.\<close>

datatype resource = Tracing | RedisClient | PostgresPool | UsageMeter

datatype breaker_choice = RedisBreaker breaker_config | LocalBreaker breaker_config

datatype auth_choice = AllowAll | CachingPostgres duration

datatype limiter_choice = RedisLimit redis_limiter | LocalLimit local_limiter

record application =
  app_router :: router
  app_breaker :: breaker_choice
  app_breaker_on :: bool
  app_exec :: exec_config
  app_cache :: "cache option"
  app_embedder :: "embedder option"
  app_auth :: auth_choice
  app_meter :: "meter_options option"
  app_limiter :: "limiter_choice option"
  app_inline :: bool
  app_resources :: "resource list"

definition wants_redis :: "config \<Rightarrow> bool" where
  "wants_redis c \<longleftrightarrow> st_RedisURL (cf_Stores c) \<noteq> '''' \<and>
     (cc_Enabled (cf_Cache c) \<or> rl_Enabled (cf_RateLimit c) \<or> br_Enabled (re_Breaker (cf_Resilience c)))"

definition breaker_config_of :: "config \<Rightarrow> breaker_config" where
  "breaker_config_of c =
     \<lparr>bc_FailureThreshold = br_FailureThreshold (re_Breaker (cf_Resilience c)),
      bc_OpenDuration = br_OpenDuration (re_Breaker (cf_Resilience c)),
      bc_HalfOpenProbes = br_HalfOpenProbes (re_Breaker (cf_Resilience c))\<rparr>"

definition choose_breaker :: "bool \<Rightarrow> config \<Rightarrow> breaker_choice" where
  "choose_breaker rdb c =
     (if rdb \<and> br_Enabled (re_Breaker (cf_Resilience c)) then RedisBreaker (breaker_config_of c)
      else LocalBreaker (breaker_config_of c))"

definition exec_config_of :: "config \<Rightarrow> exec_config" where
  "exec_config_of c =
     \<lparr>ec_MaxAttempts = re_MaxAttempts (cf_Resilience c), ec_BaseBackoff = re_BaseBackoff (cf_Resilience c),
      ec_MaxBackoff = re_MaxBackoff (cf_Resilience c)\<rparr>"

text \<open>The cache and its embedder: the semantic tier is made, and its collection checked, only when it is enabled.\<close>

definition build_cache :: "start_env \<Rightarrow> bool \<Rightarrow> config \<Rightarrow> go_error + cache option \<times> embedder option" where
  "build_cache x rdb c =
     (if \<not> cc_Enabled (cf_Cache c) then Inr (None, None)
      else if \<not> rdb then Inl (errorf ''cache.enabled requires stores.redis_url'')
      else if \<not> sem_Enabled (cc_Semantic (cf_Cache c)) then Inr (Some \<lparr>ca_cfg = cf_Cache c, ca_semantic = False\<rparr>, None)
      else case embed_Build (cf_Embed c) (sem_VectorSize (cc_Semantic (cf_Cache c))) of
        Inl e \<Rightarrow> Inl e
      | Inr emb \<Rightarrow>
          (case EnsureCollection (se_qdrant x) (se_size x) (NewQdrant (st_QdrantURL (cf_Stores c)) (st_QdrantAPIKey (cf_Stores c)))
                  (sem_Collection (cc_Semantic (cf_Cache c))) (sem_VectorSize (cc_Semantic (cf_Cache c))) ''Cosine'' of
             Some e \<Rightarrow> Inl (wrapf ''qdrant'' e)
           | None \<Rightarrow> Inr (Some \<lparr>ca_cfg = cf_Cache c, ca_semantic = True\<rparr>, Some emb)))"

text \<open>Authentication and metering, which share the pool: the choice and whether the pool was opened.\<close>

definition build_postgres :: "start_env \<Rightarrow> config \<Rightarrow> (go_error + auth_choice \<times> meter_options option) \<times> resource list" where
  "build_postgres x c =
     (if st_PostgresURL (cf_Stores c) = '''' then (Inr (AllowAll, None), [])
      else case se_postgres x (st_PostgresURL (cf_Stores c)) of
        Some e \<Rightarrow> (Inl e, [])
      | None \<Rightarrow>
          (case se_migrate x of
             Some e \<Rightarrow> (Inl e, [PostgresPool])
           | None \<Rightarrow>
               (if mt_Enabled (cf_Meter c)
                then (Inr (CachingPostgres (30 * Second),
                        Some \<lparr>mo_BufferSize = mt_BufferSize (cf_Meter c), mo_BatchSize = mt_BatchSize (cf_Meter c),
                              mo_FlushInterval = mt_FlushInterval (cf_Meter c)\<rparr>), [PostgresPool, UsageMeter])
                else (Inr (CachingPostgres (30 * Second), None), [PostgresPool]))))"

definition choose_limiter :: "bool \<Rightarrow> config \<Rightarrow> limiter_choice option" where
  "choose_limiter rdb c =
     (if \<not> rl_Enabled (cf_RateLimit c) then None
      else if rdb then Some (RedisLimit (NewRedisLimiter (rl_DefaultRPM (cf_RateLimit c)) (rl_Burst (cf_RateLimit c))))
      else Some (LocalLimit (NewLocalLimiter (rl_DefaultRPM (cf_RateLimit c)) (rl_Burst (cf_RateLimit c)))))"

definition build_components :: "start_env \<Rightarrow> config \<Rightarrow> go_error + application" where
  "build_components x c =
     (case se_tracing x (cf_Obs c) of
        Some e \<Rightarrow> Inl (wrapf ''tracing'' e)
      | None \<Rightarrow>
     (case Build (cf_Providers c) of
        Inl e \<Rightarrow> Inl (errorf e)
      | Inr reg \<Rightarrow>
     (case router_New (cf_Router c) reg of
        Inl e \<Rightarrow> Inl (errorf e)
      | Inr rt \<Rightarrow>
     (case (if wants_redis c then se_redis x (st_RedisURL (cf_Stores c)) else None) of
        Some e \<Rightarrow> Inl e
      | None \<Rightarrow>
     (case build_cache x (wants_redis c) c of
        Inl e \<Rightarrow> Inl e
      | Inr (ca, emb) \<Rightarrow>
     (case build_postgres x c of
        (Inl e, opened) \<Rightarrow> Inl e
      | (Inr (auth, m), opened) \<Rightarrow> Inr
          \<lparr>app_router = rt, app_breaker = choose_breaker (wants_redis c) c,
           app_breaker_on = br_Enabled (re_Breaker (cf_Resilience c)), app_exec = exec_config_of c,
           app_cache = ca, app_embedder = emb, app_auth = auth, app_meter = m,
           app_limiter = choose_limiter (wants_redis c) c, app_inline = MetricsInline (cf_Obs c),
           app_resources = Tracing # (if wants_redis c then [RedisClient] else []) @ opened\<rparr>))))))"

text \<open>
  \<open>NewServer\<close> registers the routes, and the metrics page beside them where it is served on the API port; a pattern the mux refuses
  panics, \<open>None\<close>.
\<close>

definition server_patterns :: "string option \<Rightarrow> string list" where
  "server_patterns metrics_path =
     [''POST /v1/chat/completions'', ''POST /v1/embeddings'', ''GET /v1/models'', ''GET /healthz'', ''GET /readyz''] @
     (case metrics_path of None \<Rightarrow> [] | Some path \<Rightarrow> [''GET '' @ path])"

definition build_application :: "start_env \<Rightarrow> config \<Rightarrow> (go_error + application) option" where
  "build_application x c =
     (case build_components x c of
        Inl e \<Rightarrow> Some (Inl e)
      | Inr a \<Rightarrow>
          map_option (\<lambda>m. Inr a) (mux_register (map (\<lambda>p. (p, ()))
            (server_patterns (if app_inline a then Some (ob_MetricsPath (cf_Obs c)) else None))) []))"

text \<open>The mux of \<open>serveMetrics\<close>, where the metrics have a listener of their own.\<close>

definition serveMetrics_mux :: "config \<Rightarrow> (pattern \<times> unit) list option" where
  "serveMetrics_mux c = mux_Handle (ob_MetricsPath (cf_Obs c)) () []"

section \<open>Taking down\<close>

definition close_order :: "application \<Rightarrow> resource list" where
  "close_order a =
     (if app_meter a \<noteq> None then [UsageMeter] else []) @
     (if PostgresPool \<in> set (app_resources a) then [PostgresPool] else []) @
     (if RedisClient \<in> set (app_resources a) then [RedisClient] else []) @
     (if Tracing \<in> set (app_resources a) then [Tracing] else [])"

text \<open>
  \<open>run\<close>: load, build, serve, then close. \<open>serve\<close> is what \<open>ListenAndServe\<close> returns for the application. \<open>serveMetrics\<close> runs in a goroutine
  of its own, where nothing recovers: a panic of it ends the process, like one of \<open>build\<close>, and nothing is closed, \<open>None\<close>. \<open>main\<close>
  turns an error into exit status 1; that of a panic is 2.
\<close>

definition gateway_run ::
  "bool \<Rightarrow> load_error + config \<Rightarrow> start_env \<Rightarrow> (application \<Rightarrow> go_error option)
    \<Rightarrow> ((load_error + go_error) option \<times> resource list) option" where
  "gateway_run showVersion loaded x serve =
     (if showVersion then Some (None, [])
      else case loaded of
        Inl e \<Rightarrow> Some (Some (Inl e), [])
      | Inr c \<Rightarrow>
          (case build_application x c of
             None \<Rightarrow> None
           | Some (Inl e) \<Rightarrow> Some (Some (Inr e), [])
           | Some (Inr a) \<Rightarrow>
               (if \<not> app_inline a \<and> serveMetrics_mux c = None then None
                else Some (map_option Inr (serve a), close_order a))))"

definition gateway_main ::
  "bool \<Rightarrow> load_error + config \<Rightarrow> start_env \<Rightarrow> (application \<Rightarrow> go_error option) \<Rightarrow> int" where
  "gateway_main showVersion loaded x serve =
     (case gateway_run showVersion loaded x serve of
        None \<Rightarrow> 2
      | Some (None, rs) \<Rightarrow> 0
      | Some (Some e, rs) \<Rightarrow> 1)"

section \<open>What is built\<close>

lemma valid_stores:
  assumes "config_Validate c = []"
  shows "check_stores c = []" "check_semantic c = []"
  using assms by (auto simp: config_Validate_def Let_def split: prod.splits)

text \<open>Which branches of \<open>build\<close> a validated configuration can take.\<close>

lemma valid_needs_redis: "config_Validate c = [] \<Longrightarrow> cc_Enabled (cf_Cache c) \<or> rl_Enabled (cf_RateLimit c) \<Longrightarrow> wants_redis c"
  by (drule valid_stores(1)) (auto simp: check_stores_def wants_redis_def split: if_splits)

lemma valid_meter_postgres: "config_Validate c = [] \<Longrightarrow> mt_Enabled (cf_Meter c) \<Longrightarrow> st_PostgresURL (cf_Stores c) \<noteq> ''''"
  by (drule valid_stores(1)) (auto simp: check_stores_def split: if_splits)

lemma valid_embedder:
  assumes "config_Validate c = []" "sem_Enabled (cc_Semantic (cf_Cache c))"
  shows "\<exists>emb. embed_Build (cf_Embed c) (sem_VectorSize (cc_Semantic (cf_Cache c))) = Inr emb"
  using valid_stores(2)[OF assms(1)] assms(2)
  by (auto simp: check_semantic_def embed_Build_def NewAPI_def Let_def split: if_splits)

definition stores_answer :: "start_env \<Rightarrow> config \<Rightarrow> bool" where
  "stores_answer x c \<longleftrightarrow>
     se_tracing x (cf_Obs c) = None \<and> se_redis x (st_RedisURL (cf_Stores c)) = None \<and>
     se_postgres x (st_PostgresURL (cf_Stores c)) = None \<and> se_migrate x = None \<and>
     EnsureCollection (se_qdrant x) (se_size x) (NewQdrant (st_QdrantURL (cf_Stores c)) (st_QdrantAPIKey (cf_Stores c)))
       (sem_Collection (cc_Semantic (cf_Cache c))) (sem_VectorSize (cc_Semantic (cf_Cache c))) ''Cosine'' = None"

lemma valid_build_cache:
  assumes "config_Validate c = []" "stores_answer x c"
  shows "\<exists>ca emb. build_cache x (wants_redis c) c = Inr (ca, emb) \<and> (ca \<noteq> None \<longleftrightarrow> cc_Enabled (cf_Cache c)) \<and>
    (emb \<noteq> None \<longleftrightarrow> sem_Enabled (cc_Semantic (cf_Cache c)))"
proof (cases "sem_Enabled (cc_Semantic (cf_Cache c))")
  case True
  obtain emb where "embed_Build (cf_Embed c) (sem_VectorSize (cc_Semantic (cf_Cache c))) = Inr emb"
    using valid_embedder[OF assms(1) True] by blast
  moreover have "cc_Enabled (cf_Cache c)"
    using valid_stores(2)[OF assms(1)] True by (auto simp: check_semantic_def Let_def split: if_splits)
  ultimately show ?thesis
    using True assms(2) valid_needs_redis[OF assms(1)] by (auto simp: build_cache_def stores_answer_def)
next
  case False
  then show ?thesis using valid_needs_redis[OF assms(1)] by (auto simp: build_cache_def)
qed

lemma valid_build_postgres:
  assumes "config_Validate c = []" "stores_answer x c"
  shows "\<exists>auth m opened. build_postgres x c = (Inr (auth, m), opened) \<and> (m \<noteq> None \<longleftrightarrow> mt_Enabled (cf_Meter c)) \<and>
    (auth = AllowAll \<longleftrightarrow> st_PostgresURL (cf_Stores c) = '''')"
  using assms(2) valid_meter_postgres[OF assms(1)] by (auto simp: build_postgres_def stores_answer_def)

text \<open>Which metrics paths the muxes take.\<close>

definition metrics_path_ok :: "config \<Rightarrow> bool" where
  "metrics_path_ok c =
     (if MetricsInline (cf_Obs c)
      then (case parsePattern (''GET '' @ ob_MetricsPath (cf_Obs c)) of None \<Rightarrow> False | Some p \<Rightarrow> \<not> clashes p)
      else parsePattern (ob_MetricsPath (cf_Obs c)) \<noteq> None)"

lemma register_patterns:
  "mux_register (map (\<lambda>p. (p, ())) (server_patterns mp)) [] \<noteq> None \<longleftrightarrow>
     (case mp of
        None \<Rightarrow> True
      | Some path \<Rightarrow> (case parsePattern (''GET '' @ path) of None \<Rightarrow> False | Some p \<Rightarrow> \<not> clashes p))"
proof -
  define d :: "(unit, unit) deps" where "d = demo_gateway\<lparr>dp_metrics_page := map_option (\<lambda>p. (p, '''')) mp\<rparr>"
  have "map (\<lambda>(s, h). (s, ())) (routes d) = map (\<lambda>p. (p, ())) (server_patterns mp)"
    by (cases mp) (simp_all add: routes_def api_routes_def server_patterns_def d_def)
  then have "mux_register (map (\<lambda>p. (p, ())) (server_patterns mp)) [] = map_option (map (\<lambda>(p, h). (p, ()))) (NewServer d)"
    using mux_register_map[of "\<lambda>h. ()" "routes d" "[]"] by (simp add: NewServer_def)
  moreover have "dp_metrics_page d = map_option (\<lambda>p. (p, '''')) mp" by (simp add: d_def)
  ultimately show ?thesis by (auto simp: NewServer_eq split: option.split)
qed

lemma build_application_components: "build_application x c = Some (Inr a) \<Longrightarrow> build_components x c = Inr a"
  by (auto simp: build_application_def split: sum.splits option.splits)

text \<open>The components of an application are those its configuration enables, and its router is well formed.\<close>

definition as_configured :: "config \<Rightarrow> application \<Rightarrow> bool" where
  "as_configured c a \<longleftrightarrow> router_wf (app_router a) \<and>
    (app_cache a \<noteq> None \<longleftrightarrow> cc_Enabled (cf_Cache c)) \<and> (app_embedder a \<noteq> None \<longleftrightarrow> sem_Enabled (cc_Semantic (cf_Cache c))) \<and>
    (app_meter a \<noteq> None \<longleftrightarrow> mt_Enabled (cf_Meter c)) \<and> (app_auth a = AllowAll \<longleftrightarrow> st_PostgresURL (cf_Stores c) = '''') \<and>
    (if rl_Enabled (cf_RateLimit c) then \<exists>l. app_limiter a = Some (RedisLimit l) else app_limiter a = None)"

lemma valid_components:
  assumes "config_Validate c = []" "Build (cf_Providers c) = Inr reg" "stores_answer x c"
  shows "\<exists>a. build_components x c = Inr a \<and> app_inline a = MetricsInline (cf_Obs c) \<and> as_configured c a"
proof -
  obtain rt where rt: "router_New (cf_Router c) reg = Inr rt" "router_wf rt" using router_New_wf[OF assms(1,2)] by blast
  obtain ca emb where ca: "build_cache x (wants_redis c) c = Inr (ca, emb)" "ca \<noteq> None \<longleftrightarrow> cc_Enabled (cf_Cache c)"
    "emb \<noteq> None \<longleftrightarrow> sem_Enabled (cc_Semantic (cf_Cache c))" using valid_build_cache[OF assms(1,3)] by blast
  obtain auth m opened where pg: "build_postgres x c = (Inr (auth, m), opened)" "m \<noteq> None \<longleftrightarrow> mt_Enabled (cf_Meter c)"
    "auth = AllowAll \<longleftrightarrow> st_PostgresURL (cf_Stores c) = ''''" using valid_build_postgres[OF assms(1,3)] by blast
  have "se_tracing x (cf_Obs c) = None" "se_redis x (st_RedisURL (cf_Stores c)) = None" using assms(3) by (simp_all add: stores_answer_def)
  then show ?thesis
    using rt ca pg assms(2) valid_needs_redis[OF assms(1)]
    by (cases "wants_redis c") (auto simp: build_components_def choose_limiter_def as_configured_def)
qed



text \<open>
  Without a Postgres URL nobody's key is checked, but a key is still asked for: the gateway runs without key store and meter, the guard lets
  every token that is not empty through as tenant \<open>local\<close>, and still refuses a request that carries none with 401.
\<close>

theorem disabled_auth_needs_token:
  assumes "st_PostgresURL (cf_Stores c) = ''''" "build_application x c = Some (Inr a)"
  shows "app_auth a = AllowAll \<and> app_meter a = None \<and>
    (case gate (\<lambda>k w. (allow_all_Authenticate k, w)) None token () of
       (Inl code, w) \<Rightarrow> token = '''' \<and> code = 401
     | (Inr (t, hs), w) \<Rightarrow> token \<noteq> '''' \<and> tn_ID t = ''local'')"
proof -
  have "app_auth a = AllowAll \<and> app_meter a = None"
    using assms(1) build_application_components[OF assms(2)] by (auto simp: build_components_def build_postgres_def split: option.splits sum.splits prod.splits)
  then show ?thesis by (simp add: gate_def allow_all_Authenticate_def)
qed

section \<open>Starts on the small configuration\<close>

definition demo_start :: start_env where
  "demo_start =
     \<lparr>se_tracing = (\<lambda>c. None), se_redis = (\<lambda>u. None), se_qdrant = embed_demo_env, se_size = (\<lambda>r. Inr 384),
      se_postgres = (\<lambda>u. None), se_migrate = None\<rparr>"

lemma demo_config: "config_Validate mock_config = []" "\<exists>reg. Build (cf_Providers mock_config) = Inr reg"
  by (simp_all add: mock_config_def zero_config_def applyDefaults_def default_defs config_Validate_def Build_def IsEnabled_def
      new_provider_def check_alias_def check_target_def check_stores_def check_semantic_def Let_def duration_defs)

lemma demo_stores: "stores_answer demo_start mock_config"
  by (simp add: stores_answer_def demo_start_def mock_config_def zero_config_def applyDefaults_def default_defs
      EnsureCollection_def qdrant_do_def embed_demo_env_def demo_response_def)

text \<open>Validation does not look at the settings of metrics and tracing.\<close>

lemma validate_ignores_obs: "config_Validate (c\<lparr>cf_Obs := obs\<rparr>) = config_Validate c"
  by (simp add: config_Validate_def check_stores_def check_semantic_def)

lemma demo_path: "metrics_path_ok mock_config"
  by (simp add: metrics_path_ok_def mock_config_def zero_config_def applyDefaults_def default_defs MetricsInline_def pattern_defs)

text \<open>A metrics path without a slash passes validation; the process does not survive its start.\<close>

definition slashless :: config where
  "slashless = mock_config\<lparr>cf_Obs := (cf_Obs mock_config)\<lparr>ob_MetricsPath := ''metrics''\<rparr>\<rparr>"


lemma demo_built: "\<exists>a. build_application demo_start mock_config = Some (Inr a)"
proof -
  obtain reg where "Build (cf_Providers mock_config) = Inr reg" using demo_config(2) ..
  from valid_components[OF demo_config(1) this demo_stores] obtain a where a: "build_components demo_start mock_config = Inr a"
    "app_inline a = MetricsInline (cf_Obs mock_config)" by blast
  have "\<not> app_inline a"
    by (simp add: a(2) mock_config_def zero_config_def applyDefaults_def default_defs MetricsInline_def)
  then show ?thesis
    using register_patterns[of None] by (auto simp: build_application_def a(1))
qed


theorem disabled_auth_needs_token_witness:
  "gate (\<lambda>k w. (allow_all_Authenticate k, w)) None '''' () = (Inl 401, ()) \<and>
   (\<exists>a. build_application demo_start mock_config = Some (Inr a) \<and> app_auth a = AllowAll)"
proof -
  have "st_PostgresURL (cf_Stores mock_config) = ''''"
    by (simp add: mock_config_def zero_config_def applyDefaults_def default_defs)
  then show ?thesis
    using demo_built disabled_auth_needs_token[of mock_config demo_start] by (auto simp: gate_def)
qed

end
