(* ===== verification/Concurrent.thy ===== *)
theory Concurrent
  imports Failover
begin

text \<open>
  Requests that run at the same time share the circuits. A run of several workers is the list of their events in the order
  in which they happened, with the time of each; the events of one worker are those of the failovers it ran one after
  the other, and the breaker answers and counts in the order of the whole list, since each of its
  operations holds the mutex of the store. The property is the bound of \<open>Failover\<close> for any number of workers.
\<close>

section \<open>Interleaved runs\<close>

type_synonym stamped = "instant \<times> nat \<times> exec_event"

definition of_worker :: "nat \<Rightarrow> stamped list \<Rightarrow> exec_event list" where
  "of_worker i evs = map (\<lambda>(t, j, ev). ev) (filter (\<lambda>(t, j, ev). j = i) evs)"

definition events :: "stamped list \<Rightarrow> exec_event list" where
  "events evs = map (\<lambda>(t, j, ev). ev) evs"

text \<open>The answers of the breaker in the list are those of the store, started with the circuits \<open>s\<close>.\<close>

fun replays :: "(instant \<Rightarrow> string \<Rightarrow> 's \<Rightarrow> (go_error + breaker_state) \<times> 's)
    \<Rightarrow> (instant \<Rightarrow> string \<Rightarrow> 's \<Rightarrow> (go_error + breaker_state) \<times> 's)
    \<Rightarrow> (instant \<Rightarrow> string \<Rightarrow> 's \<Rightarrow> (go_error + breaker_state) \<times> 's) \<Rightarrow> 's \<Rightarrow> stamped list \<Rightarrow> bool" where
  "replays snapshot success failure s [] = True"
| "replays snapshot success failure s ((t, i, EAllow p ok st) # evs) =
     (let (a, s') = Allow True snapshot t p s in a = (ok, st) \<and> replays snapshot success failure s' evs)"
| "replays snapshot success failure s ((t, i, ERecord p ok) # evs) =
     replays snapshot success failure (breaker_Record True success failure t p ok s) evs"
| "replays snapshot success failure s (_ # evs) = replays snapshot success failure s evs"

text \<open>
  What one worker does: failovers, one after the other, over non-empty target lists; the last one may
  still be under way.
\<close>

inductive worker_trace :: "exec_config \<Rightarrow> exec_event list \<Rightarrow> bool" for cfg where
  wt_idle: "worker_trace cfg []"
| wt_running: "failover_trace cfg req [] ts (es @ rest) res \<Longrightarrow> worker_trace cfg es"
| wt_done: "failover_trace cfg req [] ts es res \<Longrightarrow> worker_trace cfg l \<Longrightarrow> worker_trace cfg (es @ l)"

text \<open>Every run of \<open>serve_all\<close> over targets is one.\<close>

lemma serve_all_worker:
  assumes "\<forall>r\<in>set rs. snd r \<noteq> []" "serve_all env cfg call com rs (w, l) = (w', l')"
  shows "\<exists>es. l' = l @ es \<and> worker_trace cfg es"
  using assms
proof (induction rs arbitrary: w l)
  case Nil
  then show ?case by (auto intro: wt_idle)
next
  case (Cons r rs)
  obtain req ts where r: "r = (req, ts)" by (cases r)
  obtain res w1 l1 where run: "exec_do (traced env) cfg (traced_call call) (\<lambda>(w, l). com w) req ts (w, l) = (res, (w1, l1))"
    by (metis surj_pair)
  then have "do_loop (traced env) cfg (traced_call call) (\<lambda>(w, l). com w) req ts [] (w, l) = (res, (w1, l1))"
    using Cons.prems(1) r by (simp add: exec_do_def)
  from do_loop_traced[OF this] obtain es where es: "l1 = l @ es" "failover_trace cfg req [] ts es res" by auto
  moreover obtain es' where "l' = l1 @ es'" "worker_trace cfg es'"
    using Cons.IH[of w1 l1] Cons.prems run r by auto
  ultimately show ?case using wt_done by fastforce
qed

section \<open>What a worker can do once the provider is refused\<close>

fun refused :: "string \<Rightarrow> exec_event \<Rightarrow> bool" where
  "refused p (EAllow q ok st) = (q = p \<longrightarrow> \<not> ok)"
| "refused p _ = True"

text \<open>A record tells the outcome of the call before it.\<close>

fun honest :: "(string \<times> go_error option) option \<Rightarrow> exec_event list \<Rightarrow> bool" where
  "honest c [] = True"
| "honest c (ECall t r e # es) = honest (Some (provider_Name (tg_Provider t), e)) es"
| "honest c (ERecord q ok # es) = ((\<exists>e. c = Some (q, e) \<and> (ok \<longleftrightarrow> e = None)) \<and> honest None es)"
| "honest c (_ # es) = honest c es"

lemma calls_nonneg [simp]: "0 \<le> calls_to p l"
  by (induction p l rule: calls_to.induct) auto

lemma admitted_append: "admitted c (xs @ ys) \<Longrightarrow> admitted c xs"
  by (induction c xs rule: admitted.induct) auto

lemma admitted_join: "admitted c xs \<Longrightarrow> (\<And>c. admitted c ys) \<Longrightarrow> admitted c (xs @ ys)"
  by (induction c xs rule: admitted.induct) auto

lemma admitted_refused: "admitted c l \<Longrightarrow> list_all (refused p) l \<Longrightarrow> c \<noteq> Some p \<Longrightarrow> calls_to p l = 0"
  by (induction c l rule: admitted.induct) auto

lemma honest_append: "honest c (xs @ ys) \<Longrightarrow> honest c xs"
  by (induction c xs rule: honest.induct) auto

lemma honest_any: "honest None l \<Longrightarrow> honest c l"
proof (induction l)
  case (Cons ev l)
  then show ?case by (cases ev) auto
qed simp

lemma accounted_honest: "accounted c xs \<Longrightarrow> honest None ys \<Longrightarrow> honest c (xs @ ys)"
  by (induction c xs rule: accounted.induct) (auto simp: honest_any owed_def split: option.splits)

lemma honest_unsuccessful:
  "honest c l \<Longrightarrow> list_all (faulty p) l \<Longrightarrow> (\<And>e. c = Some (p, e) \<Longrightarrow> e \<noteq> None) \<Longrightarrow> unsuccessful p l"
  by (induction c l rule: honest.induct) (auto simp: is_fault_def)

lemma worker_monitors:
  assumes "worker_trace cfg l"
  shows "admitted c l" "honest None l"
  using assms
proof (induction arbitrary: c rule: worker_trace.induct)
  case (wt_running req ts es rest res)
  { case 1 show ?case using failover_trace_monitors(2)[OF wt_running] admitted_append by blast }
  { case 2 show ?case
      using accounted_honest[OF failover_trace_monitors(3)[OF wt_running], of "[]"] honest_append by fastforce }
next
  case (wt_done req ts es res l)
  { case 1 show ?case using failover_trace_monitors(2)[OF wt_done(1)] wt_done(3) by (intro admitted_join) }
  { case 2 show ?case using accounted_honest[OF failover_trace_monitors(3)[OF wt_done(1)]] wt_done(4) by blast }
qed simp_all

lemma attempt_trace_other:
  "attempt_trace cfg t r st a es res \<Longrightarrow> provider_Name (tg_Provider t) \<noteq> p \<Longrightarrow> calls_to p es = 0"
  by (induction rule: attempt_trace.induct)
     (auto simp: report_of_def failed_call_def fault_events_def split: option.splits)

lemma attempt_trace_calls: "attempt_trace cfg t r st 1 es res \<Longrightarrow> calls_to p es \<le> max_attempts cfg"
  using attempt_trace_log(1)[of cfg t r st 1 es res] calls_to_le[of p es] by simp

text \<open>
  The calls of a stretch after which the provider stays refused: those that were recorded as faults
  before, and the attempts of one target.
\<close>

definition slack :: "string \<Rightarrow> int \<Rightarrow> exec_event list \<Rightarrow> bool" where
  "slack p m l \<longleftrightarrow> (\<forall>pre suf rest. l = pre @ suf @ rest \<longrightarrow> list_all (refused p) suf \<longrightarrow>
     list_all (faulty p) (pre @ suf) \<longrightarrow> calls_to p (pre @ suf) \<le> faults p pre + m)"

lemma slackI_calls:
  assumes "calls_to p l \<le> m"
  shows "slack p m l"
  unfolding slack_def
proof (intro allI impI)
  fix pre suf rest
  assume "l = pre @ suf @ rest"
  with assms have "calls_to p pre + calls_to p suf + calls_to p rest \<le> m" by (simp add: add.assoc)
  then show "calls_to p (pre @ suf) \<le> faults p pre + m"
    using calls_nonneg[of p rest] faults_nonneg[of p pre] unfolding calls_to_append by linarith
qed

lemma slackD:
  "slack p m (pre @ suf @ rest) \<Longrightarrow> list_all (refused p) suf \<Longrightarrow> list_all (faulty p) (pre @ suf) \<Longrightarrow>
     calls_to p pre + calls_to p suf \<le> faults p pre + m"
  unfolding slack_def calls_to_append by blast

lemma slack_join:
  assumes "slack p m es" "slack p m l" "\<And>c. admitted c l"
    and "list_all (faulty p) es \<Longrightarrow> calls_to p es = faults p es"
  shows "slack p m (es @ l)"
  unfolding slack_def
proof (intro allI impI)
  fix pre suf rest
  assume split: "es @ l = pre @ suf @ rest" and refuse: "list_all (refused p) suf"
    and fault: "list_all (faulty p) (pre @ suf)"
  from split consider (after) us where "pre = es @ us" "us @ suf @ rest = l"
    | (within) us where "es = pre @ us" "us @ l = suf @ rest"
    unfolding append_eq_append_conv2 by blast
  then show "calls_to p (pre @ suf) \<le> faults p pre + m"
  proof cases
    case after
    then show ?thesis using slackD[of p m us suf rest] assms(2,4) refuse fault by simp
  next
    case within
    from within(2) consider (short) vs where "us = suf @ vs" | (long) vs where "suf = us @ vs" "l = vs @ rest"
      unfolding append_eq_append_conv2 by blast
    then show ?thesis
    proof cases
      case short
      then show ?thesis using slackD[of p m pre suf vs] assms(1) within(1) refuse fault by simp
    next
      case long
      have "calls_to p vs = 0"
        using admitted_refused[of None vs p] admitted_append[of None vs rest] assms(3)[of None] long refuse by simp
      then show ?thesis using slackD[of p m pre us "[]"] assms(1) within(1) long refuse fault by simp
    qed
  qed
qed

lemma slack_block:
  assumes "attempt_trace cfg t r st 1 es res"
  shows "slack p (max_attempts cfg) (EAllow q ok st' # es)"
  using attempt_trace_calls[OF assms] by (intro slackI_calls) simp

lemma slack_Nil: "slack p (max_attempts cfg) []"
  by (rule slackI_calls) (simp add: max_attempts_def)

lemma failover_slack:
  "failover_trace cfg req errs ts es res \<Longrightarrow> slack p (max_attempts cfg) es"
proof (induction rule: failover_trace.induct)
  case (ft_skip errs t ts es res st)
  have "slack p (max_attempts cfg) ([EAllow (provider_Name (tg_Provider t)) False st, report_of t st 0 None True] @ es)"
    by (rule slack_join[OF slackI_calls ft_skip.IH failover_trace_monitors(2)[OF ft_skip.hyps]])
       (simp_all add: report_of_def max_attempts_def)
  then show ?case by simp
next
  case (ft_next t st es e errs ts es' res)
  have "slack p (max_attempts cfg) ((EAllow (provider_Name (tg_Provider t)) True st # es) @ es')"
    by (rule slack_join[OF slack_block[OF ft_next.hyps(1)] ft_next.IH failover_trace_monitors(2)[OF ft_next.hyps(3)]])
       (simp add: attempt_trace_counts[OF ft_next.hyps(1)])
  then show ?case by simp
qed (auto intro: slack_block slack_Nil)

lemma slack_prefix: "slack p m (es @ rest) \<Longrightarrow> slack p m es"
  unfolding slack_def by (metis append.assoc)

lemma worker_slack: "worker_trace cfg l \<Longrightarrow> slack p (max_attempts cfg) l"
proof (induction rule: worker_trace.induct)
  case (wt_done req ts es res l)
  then show ?case
    by (intro slack_join[OF failover_slack wt_done.IH worker_monitors(1)])
       (auto dest: failover_trace_counts)
qed (auto intro: slack_Nil slack_prefix failover_slack)

section \<open>All workers together\<close>

lemma of_worker_append [simp]: "of_worker i (xs @ ys) = of_worker i xs @ of_worker i ys"
  by (simp add: of_worker_def)

lemma events_append [simp]: "events (xs @ ys) = events xs @ events ys"
  by (simp add: events_def)

lemma of_worker_Cons: "of_worker i ((t, j, ev) # evs) = (if j = i then [ev] else []) @ of_worker i evs"
  by (simp add: of_worker_def)

lemma events_Cons: "events ((t, j, ev) # evs) = [ev] @ events evs"
  by (simp add: events_def)

text \<open>A count over the whole list is the sum of the counts of the workers.\<close>

lemma sum_workers:
  fixes f :: "exec_event list \<Rightarrow> int"
  assumes add: "\<And>xs ys. f (xs @ ys) = f xs + f ys" and nil: "f [] = 0"
    and ids: "\<forall>(t, i, ev)\<in>set evs. i < c"
  shows "f (events evs) = (\<Sum>i<c. f (of_worker i evs))"
  using ids
proof (induction evs)
  case Nil
  then show ?case by (simp add: events_def of_worker_def nil)
next
  case (Cons x evs)
  obtain t j ev where x: "x = (t, j, ev)" by (cases x)
  have "(\<Sum>i<c. f (of_worker i (x # evs))) = (\<Sum>i<c. (if i = j then f [ev] else 0) + f (of_worker i evs))"
    unfolding x of_worker_Cons add by (intro sum.cong) (auto simp: nil)
  also have "\<dots> = f [ev] + f (events evs)"
    using Cons x by (simp add: sum.distrib sum.delta)
  finally show ?case unfolding x events_Cons add by simp
qed

lemma events_set: "ev \<in> set (events evs) \<longleftrightarrow> (\<exists>i. ev \<in> set (of_worker i evs))"
  by (force simp: events_def of_worker_def)

lemma unsuccessful_iff: "unsuccessful p l \<longleftrightarrow> ERecord p True \<notin> set l"
  by (induction p l rule: unsuccessful.induct) auto

lemma rationed_refused: "rationed p k n l \<Longrightarrow> k \<le> n \<Longrightarrow> list_all (refused p) l"
  by (induction p k n l rule: rationed.induct) (auto split: if_splits)

text \<open>Where the limit is reached, the list splits: the faults before are below it, and after it the provider is refused.\<close>

lemma rationed_split:
  "rationed p k n (events evs) \<Longrightarrow> n < k \<Longrightarrow>
     \<exists>A B. evs = A @ B \<and> n + faults p (events A) < k \<and> list_all (refused p) (events B)"
proof (induction evs arbitrary: n)
  case Nil
  then show ?case by (intro exI[of _ "[]"]) (simp add: events_def)
next
  case (Cons x evs)
  obtain t j ev where x: "x = (t, j, ev)" by (cases x)
  have n: "rationed p k (n + faults p [ev]) (events evs)" using Cons.prems(1) unfolding x events_Cons rationed_append by simp
  show ?case
  proof (cases "n + faults p [ev] < k")
    case True
    from Cons.IH[OF n this] obtain A B where "evs = A @ B" "n + faults p [ev] + faults p (events A) < k"
      "list_all (refused p) (events B)" by blast
    then show ?thesis by (intro exI[of _ "x # A"] exI[of _ B]) (simp add: x events_Cons del: append_Cons append_Nil)
  next
    case False
    then have "refused p ev" using Cons.prems(2) by (cases ev) auto
    with False n Cons.prems(2) show ?thesis
      by (intro exI[of _ "[]"] exI[of _ "x # evs"]) (simp add: x events_Cons rationed_refused events_def)
  qed
qed

lemma workers_calls:
  assumes "\<forall>(t, i, ev)\<in>set evs. i < c" "\<And>i. i < c \<Longrightarrow> worker_trace cfg (of_worker i evs)"
    and "list_all (faulty p) (events evs)" "rationed p k 0 (events evs)" "1 \<le> k"
  shows "calls_to p (events evs) \<le> k - 1 + int c * max_attempts cfg"
proof -
  obtain A B where split: "evs = A @ B" "faults p (events A) < k" "list_all (refused p) (events B)"
    using rationed_split[OF assms(4)] assms(5) by auto
  have all: "list_all P (of_worker i l)" if "list_all P (events l)" for P i l
    using that events_set[of _ l] by (auto simp: list_all_iff)
  have one: "calls_to p (of_worker i evs) \<le> faults p (of_worker i A) + max_attempts cfg" if "i < c" for i
    using slackD[of p "max_attempts cfg" "of_worker i A" "of_worker i B" "[]"] worker_slack[OF assms(2)[OF that], of p]
      all[OF assms(3)] all[OF split(3)] split(1) by simp
  have "calls_to p (events evs) = (\<Sum>i<c. calls_to p (of_worker i evs))"
    by (rule sum_workers[OF calls_to_append _ assms(1)]) simp
  also have "\<dots> \<le> (\<Sum>i<c. faults p (of_worker i A) + max_attempts cfg)" by (intro sum_mono one) simp
  also have "\<dots> = faults p (events A) + int c * max_attempts cfg"
    using sum_workers[of "faults p" A c, OF faults_append] assms(1) split(1) by (simp add: sum.distrib)
  finally show ?thesis using split(2) by simp
qed

section \<open>The bound\<close>

context breaker_store
begin

lemma replays_ledger:
  "under_ledger up view cfg (\<lambda>x. x) t0 p ((s, x), l) \<Longrightarrow> replays snapshot success failure s evs \<Longrightarrow>
     sorted (x # map fst evs) \<Longrightarrow>
     \<exists>s'. under_ledger up view cfg (\<lambda>x. x) t0 p ((s', last (x # map fst evs)), l @ events evs)"
proof (induction evs arbitrary: s x l)
  case Nil
  then show ?case by (auto simp: events_def)
next
  case (Cons e evs)
  obtain t i ev where e: "e = (t, i, ev)" by (cases e)
  have now: "under_ledger up view cfg (\<lambda>x. x) t0 p ((s, t), l)"
    using under_ledger_step[OF Cons.prems(1), of t "[]"] Cons.prems(3) e by simp
  have "\<exists>s'. under_ledger up view cfg (\<lambda>x. x) t0 p ((s', t), l @ [ev]) \<and> replays snapshot success failure s' evs"
  proof (cases ev)
    case (EAllow q ok st)
    then show ?thesis using Allow_ledger[OF now] Cons.prems(2) e by (fastforce split: prod.splits)
  next
    case (ERecord q ok)
    then show ?thesis using Record_ledger[OF now] Cons.prems(2) e by fastforce
  qed (use Cons.prems(2) e in \<open>auto intro!: exI[of _ s] under_ledger_step[OF now]\<close>)
  then obtain s' where s': "under_ledger up view cfg (\<lambda>x. x) t0 p ((s', t), l @ [ev])"
    "replays snapshot success failure s' evs" by blast
  from Cons.IH[OF this] Cons.prems(3) e show ?case by (simp add: events_def)
qed

lemma workers_contained:
  assumes "up s" "view s p = new_entry" "1 \<le> bc_FailureThreshold cfg"
    and "sorted (x # map fst evs)" "last (x # map fst evs) < x + bc_OpenDuration cfg"
    and "replays snapshot success failure s evs"
    and "\<forall>(t, i, ev)\<in>set evs. i < c" "\<And>i. i < c \<Longrightarrow> worker_trace ecfg (of_worker i evs)"
    and fault: "list_all (faulty p) (events evs)"
  shows "calls_to p (events evs) \<le> bc_FailureThreshold cfg - 1 + int c * max_attempts ecfg"
proof -
  have start: "under_ledger up view cfg (\<lambda>x. x) x p ((s, x), [])"
    using assms(1-3) by (simp add: under_ledger_def ledger_start)
  from replays_ledger[OF start assms(6,4)] obtain s' where
    led: "under_ledger up view cfg (\<lambda>x. x) x p ((s', last (x # map fst evs)), events evs)" by auto
  have "unsuccessful p (events evs)"
    unfolding unsuccessful_iff events_set
  proof (rule notI, elim exE)
    fix i assume i: "ERecord p True \<in> set (of_worker i evs)"
    then have "i < c" using assms(7) by (auto simp: of_worker_def)
    moreover have "list_all (faulty p) (of_worker i evs)"
      using fault events_set[of _ evs] by (auto simp: list_all_iff)
    ultimately show False
      using honest_unsuccessful[OF worker_monitors(2)[OF assms(8)]] i by (auto simp: unsuccessful_iff)
  qed
  with led assms(5) have "rationed p (bc_FailureThreshold cfg) 0 (events evs)"
    by (simp add: under_ledger_def ledger_def)
  from workers_calls[OF assms(7,8) fault this assms(3)] show ?thesis by blast
qed

end


text \<open>
  Two workers that were both admitted before the first failure was recorded: with a threshold of one
  and one attempt per target each calls once, which is the bound; the next request is refused.
\<close>

definition race_breaker :: breaker_config where
  "race_breaker = \<lparr>bc_FailureThreshold = 1, bc_OpenDuration = 30 * Second, bc_HalfOpenProbes = 1\<rparr>"

definition race_exec :: exec_config where
  "race_exec = default_exec\<lparr>ec_MaxAttempts := 1\<rparr>"

definition race_call :: "exec_event list" where
  "race_call = failed_call (demo_target ''groq'') (call_request demo_request (demo_target ''groq'')) StateClosed 1
     (fault KindUnavailable)"

definition race_log :: "stamped list" where
  "race_log =
     [(0, 0, EAllow ''groq'' True StateClosed), (1, 1, EAllow ''groq'' True StateClosed),
      (2, 0, race_call ! 0), (3, 1, race_call ! 0), (4, 0, race_call ! 1), (5, 0, race_call ! 2),
      (6, 0, EAllow ''groq'' False StateOpen), (7, 0, report_of (demo_target ''groq'') StateOpen 0 None True),
      (8, 1, race_call ! 1), (9, 1, race_call ! 2)]"

lemma race_call_eq:
  "race_call = [ECall (demo_target ''groq'') (call_request demo_request (demo_target ''groq'')) (Some (fault KindUnavailable)),
     report_of (demo_target ''groq'') StateClosed 1 (Some (fault KindUnavailable)) False, ERecord ''groq'' False]"
  by (simp add: race_call_def failed_call_def fault_events_def fault_def Errorf_def demo_target_def mock_of_def)

lemma race_workers:
  "of_worker 0 race_log = (EAllow ''groq'' True StateClosed # race_call) @
     [EAllow ''groq'' False StateOpen, report_of (demo_target ''groq'') StateOpen 0 None True]"
  "of_worker 1 race_log = EAllow ''groq'' True StateClosed # race_call"
  by (simp_all add: of_worker_def race_log_def race_call_eq)

lemma race_traces: "i < 2 \<Longrightarrow> worker_trace race_exec (of_worker i race_log)"
proof -
  let ?t = "demo_target ''groq''"
  have n: "provider_Name (tg_Provider ?t) = ''groq''" by (simp add: demo_target_def mock_of_def)
  have at: "attempt_trace race_exec ?t (call_request demo_request ?t) StateClosed 1 race_call
      (Ret (Some (fault KindUnavailable)))"
    unfolding race_call_def by (rule at_final) (simp add: max_attempts_def)
  have called: "failover_trace race_exec demo_request [] [?t] (EAllow ''groq'' True StateClosed # race_call)
      (Ret (Some ?t, Some (fault KindUnavailable)))"
    using ft_stop[OF at, of "[]" "[]"] by (simp add: n)
  have skipped: "failover_trace race_exec demo_request [] [?t]
      [EAllow ''groq'' False StateOpen, report_of ?t StateOpen 0 None True]
      (Ret (None, Some (joinErrors ([] @ [circuit_open ?t]))))"
    using ft_skip[OF ft_exhausted, of race_exec demo_request "[]" ?t StateOpen] by (simp add: n)
  assume "i < 2"
  then consider "i = 0" | "i = 1" by linarith
  then show ?thesis
  proof cases
    case 1
    have "worker_trace race_exec ((EAllow ''groq'' True StateClosed # race_call) @
        [EAllow ''groq'' False StateOpen, report_of ?t StateOpen 0 None True])"
      using wt_done[OF called wt_running[of race_exec demo_request _ _ "[]"]] skipped by simp
    then show ?thesis by (simp only: 1 race_workers)
  next
    case 2
    have "worker_trace race_exec (EAllow ''groq'' True StateClosed # race_call)"
      using wt_running[of race_exec demo_request _ _ "[]"] called by simp
    then show ?thesis by (simp only: 2 race_workers)
  qed
qed


end
