(* ===== verification/Lifecycle.thy ===== *)
theory Lifecycle
  imports Wiring Concurrent
begin

text \<open>
  The process from its first request to its exit: \<open>ListenAndServe\<close> of \<open>internal/api/server.go\<close>, the signal context and the
  deferred \<open>close\<close> of \<open>run\<close> in \<open>cmd/gateway/main.go\<close>, as a step relation over the phase of the server, the requests being
  handled and the meter with its callers. Of \<open>net/http\<close> the model has what \<open>Server.Shutdown\<close> documents: it
  stops accepting, returns nil once no request is being handled, and the error of its context when the timeout
  is up, without interrupting the handlers.
\<close>

section \<open>The process\<close>

datatype phase = Serving | Draining | Returned "go_error option"

text \<open>\<open>pr_errCh\<close> is the content of \<open>errCh\<close>, \<open>pr_signal\<close> whether the context of \<open>NotifyContext\<close> is done.\<close>

record process =
  pr_phase :: phase
  pr_signal :: bool
  pr_errCh :: "go_error option"
  pr_active :: "nat list"
  pr_meter :: meter_sys

datatype life_event =
    Accept nat
  | Finish nat
  | Signal
  | ListenFails go_error
  | SelectErr
  | SelectDone
  | Drained
  | Expired
  | MeterDo meter_step

text \<open>
  Who takes a step of the meter: \<open>Check\<close> and \<open>Send\<close> are the two steps of a handler's \<open>Record\<close>, so a row between
  them belongs to a request that is still being handled; \<open>Close\<close> is called once \<open>ListenAndServe\<close> has returned.
\<close>

definition may_take :: "process \<Rightarrow> meter_step \<Rightarrow> bool" where
  "may_take s ev =
     (case ev of
        Check r \<Rightarrow> length (sy_pending (pr_meter s)) < length (pr_active s)
      | CloseFlag \<Rightarrow> (case pr_phase s of Returned e \<Rightarrow> True | _ \<Rightarrow> False)
      | CloseChan \<Rightarrow> (case pr_phase s of Returned e \<Rightarrow> True | _ \<Rightarrow> False)
      | _ \<Rightarrow> True)"

definition ListenAndServe_step :: "(usage_row list \<Rightarrow> bool) \<Rightarrow> life_event \<Rightarrow> process \<Rightarrow> process option" where
  "ListenAndServe_step fails ev s =
     (case ev of
        Accept r \<Rightarrow>
          if pr_phase s = Serving \<and> pr_errCh s = None \<and> r \<notin> set (pr_active s)
          then Some (s\<lparr>pr_active := pr_active s @ [r]\<rparr>) else None
      | Finish r \<Rightarrow>
          if r \<in> set (pr_active s) \<and> length (sy_pending (pr_meter s)) < length (pr_active s)
          then Some (s\<lparr>pr_active := remove1 r (pr_active s)\<rparr>) else None
      | Signal \<Rightarrow> Some (s\<lparr>pr_signal := True\<rparr>)
      | ListenFails e \<Rightarrow>
          if pr_phase s = Serving \<and> pr_errCh s = None then Some (s\<lparr>pr_errCh := Some e\<rparr>) else None
      | SelectErr \<Rightarrow>
          (case pr_errCh s of
             Some e \<Rightarrow> if pr_phase s = Serving then Some (s\<lparr>pr_phase := Returned (Some e)\<rparr>) else None
           | None \<Rightarrow> None)
      | SelectDone \<Rightarrow> if pr_phase s = Serving \<and> pr_signal s then Some (s\<lparr>pr_phase := Draining\<rparr>) else None
      | Drained \<Rightarrow>
          if pr_phase s = Draining \<and> pr_active s = [] then Some (s\<lparr>pr_phase := Returned None\<rparr>) else None
      | Expired \<Rightarrow>
          if pr_phase s = Draining
          then Some (s\<lparr>pr_phase := Returned (Some (Sentinel ContextDeadlineExceeded))\<rparr>) else None
      | MeterDo st \<Rightarrow>
          if may_take s st
          then map_option (\<lambda>m. s\<lparr>pr_meter := m\<rparr>) (sys_step fails st (pr_meter s)) else None)"

definition started :: "meter_options \<Rightarrow> process" where
  "started o' = \<lparr>pr_phase = Serving, pr_signal = False, pr_errCh = None, pr_active = [], pr_meter = sys_init o'\<rparr>"

inductive life_reachable :: "meter_options \<Rightarrow> (usage_row list \<Rightarrow> bool) \<Rightarrow> process \<Rightarrow> bool" for o' fails where
  life_start: "life_reachable o' fails (started o')"
| life_step: "life_reachable o' fails s \<Longrightarrow> ListenAndServe_step fails ev s = Some s' \<Longrightarrow> life_reachable o' fails s'"

fun life_run :: "(usage_row list \<Rightarrow> bool) \<Rightarrow> life_event list \<Rightarrow> process \<Rightarrow> process option" where
  "life_run fails [] s = Some s"
| "life_run fails (ev # evs) s =
     (case ListenAndServe_step fails ev s of None \<Rightarrow> None | Some s' \<Rightarrow> life_run fails evs s')"

lemma life_run_reachable:
  "life_reachable o' fails s \<Longrightarrow> life_run fails evs s = Some s' \<Longrightarrow> life_reachable o' fails s'"
  by (induction evs arbitrary: s) (auto split: option.splits intro: life_step)

text \<open>
  \<open>BaseContext\<close> makes the signal context the parent of every request's, so a request is cancelled by the
  signal as well as by its client.
\<close>

definition request_done :: "process \<Rightarrow> bool \<Rightarrow> bool" where
  "request_done s client_gone \<longleftrightarrow> pr_signal s \<or> client_gone"

section \<open>The meter inside the process\<close>

lemma flush_frame [simp]:
  "mr_closing (fst (flush_buf sink s)) = mr_closing (fst s)" "mr_closed (fst (flush_buf sink s)) = mr_closed (fst s)"
  by (cases s; simp add: flush_buf_def writeBatch_def Let_def split: prod.split option.split)+

lemma writer_frame [simp]:
  "mr_closing (fst (writer_recv sink r s)) = mr_closing (fst s)" "mr_closed (fst (writer_recv sink r s)) = mr_closed (fst s)"
  "mr_closing (fst (writer_tick sink s)) = mr_closing (fst s)" "mr_closed (fst (writer_tick sink s)) = mr_closed (fst s)"
  "mr_closing (fst (writer_end sink s)) = mr_closing (fst s)" "mr_closed (fst (writer_end sink s)) = mr_closed (fst s)"
  by (cases s; simp add: writer_recv_def writer_tick_def writer_end_def Let_def split_beta)+

lemma record_send_frame:
  "record_send r m = Some m' \<Longrightarrow> mr_closing m' = mr_closing m \<and> mr_closed m' = mr_closed m \<and> \<not> mr_closed m"
  by (auto simp: record_send_def Let_def split: if_splits)

lemma run_writer_frame [simp]:
  "sy_pending (run_writer fails f s) = sy_pending s" "sy_panic (run_writer fails f s) = sy_panic s"
  "sy_meter (run_writer fails f s) = fst (f (log_sink fails) (sy_meter s, sy_batches s))"
  by (simp_all add: run_writer_def split_beta)

text \<open>What a step of the meter does to the fields the process depends on.\<close>

definition meter_frame :: "meter_step \<Rightarrow> meter_sys \<Rightarrow> meter_sys \<Rightarrow> bool" where
  "meter_frame ev s s' \<longleftrightarrow>
     length (sy_pending s') \<le> length (sy_pending s) + (case ev of Check r \<Rightarrow> 1 | _ \<Rightarrow> 0) \<and>
     (mr_closing (sy_meter s') \<longleftrightarrow> mr_closing (sy_meter s) \<or> ev = CloseFlag) \<and>
     (mr_closed (sy_meter s') \<longleftrightarrow> mr_closed (sy_meter s) \<or> ev = CloseChan) \<and>
     (sy_panic s' \<longrightarrow> sy_panic s \<or> (mr_closed (sy_meter s) \<and> sy_pending s \<noteq> []))"

lemma sys_step_frame: "sys_step fails ev s = Some s' \<Longrightarrow> meter_frame ev s s'"
proof (cases ev)
  case (Send i)
  assume "sys_step fails ev s = Some s'"
  with Send show ?thesis
    by (auto simp: meter_frame_def sys_step_def Let_def remove_at_def record_send_def split: if_splits option.splits)
qed (auto simp: meter_frame_def sys_step_def Let_def split: if_splits list.splits)

section \<open>What holds at every moment\<close>

definition life_inv :: "process \<Rightarrow> bool" where
  "life_inv s \<longleftrightarrow>
     length (sy_pending (pr_meter s)) \<le> length (pr_active s) \<and>
     (mr_closing (sy_meter (pr_meter s)) \<longrightarrow> (\<exists>e. pr_phase s = Returned e)) \<and>
     (mr_closed (sy_meter (pr_meter s)) \<longrightarrow> mr_closing (sy_meter (pr_meter s))) \<and>
     (pr_phase s = Draining \<or> pr_phase s = Returned None \<longrightarrow> pr_signal s) \<and>
     (pr_phase s = Returned None \<longrightarrow> pr_active s = []) \<and>
     (sy_panic (pr_meter s) \<longrightarrow> (\<exists>e. pr_phase s = Returned (Some e)))"

lemma life_inv_meter:
  assumes "life_inv s" "may_take s ev" "sys_step fails ev (pr_meter s) = Some m"
  shows "life_inv (s\<lparr>pr_meter := m\<rparr>)"
proof -
  note f = sys_step_frame[OF assms(3), unfolded meter_frame_def]
  have "mr_closed (sy_meter m) \<longrightarrow> mr_closing (sy_meter m)"
    using f assms(1,3) by (cases ev) (auto simp: life_inv_def sys_step_def Let_def split: if_splits)
  moreover have "length (sy_pending m) \<le> length (pr_active s)"
    using f assms(1,2) by (cases ev) (auto simp: life_inv_def may_take_def)
  moreover have "mr_closing (sy_meter m) \<longrightarrow> (\<exists>e. pr_phase s = Returned e)"
    using f assms(1,2) by (auto simp: life_inv_def may_take_def split: phase.splits)
  moreover have "\<exists>e. pr_phase s = Returned (Some e)" if p: "sy_panic m"
  proof (cases "sy_panic (pr_meter s)")
    case False
    then have "mr_closed (sy_meter (pr_meter s))" "sy_pending (pr_meter s) \<noteq> []" using f p by auto
    then have "\<exists>e. pr_phase s = Returned e" "pr_active s \<noteq> []" using assms(1) by (auto simp: life_inv_def)
    then show ?thesis using assms(1) by (auto simp: life_inv_def)
  qed (use assms(1) in \<open>simp add: life_inv_def\<close>)
  ultimately show ?thesis using assms(1) by (simp add: life_inv_def)
qed

lemma life_inv_step:
  assumes "life_inv s" "ListenAndServe_step fails ev s = Some s'"
  shows "life_inv s'"
proof -
  note step = assms(2)[unfolded ListenAndServe_step_def]
  note old = assms(1)[unfolded life_inv_def]
  show ?thesis
  proof (cases ev)
    case (MeterDo st)
    then show ?thesis using step life_inv_meter[OF assms(1)] by (auto split: if_splits)
  next
    case (Finish r)
    with step have s': "s' = s\<lparr>pr_active := remove1 r (pr_active s)\<rparr>" "r \<in> set (pr_active s)"
      "length (sy_pending (pr_meter s)) < length (pr_active s)" by (simp_all split: if_splits)
    then show ?thesis using old by (auto simp: life_inv_def length_remove1)
  next
    case (Accept r)
    with step have "s' = s\<lparr>pr_active := pr_active s @ [r]\<rparr>" "pr_phase s = Serving" by (simp_all split: if_splits)
    then show ?thesis using old by (auto simp: life_inv_def)
  next
    case SelectErr
    with step obtain e where "s' = s\<lparr>pr_phase := Returned (Some e)\<rparr>" "pr_phase s = Serving"
      by (auto split: if_splits option.splits)
    then show ?thesis using old by (auto simp: life_inv_def)
  next
    case Expired
    with step have "s' = s\<lparr>pr_phase := Returned (Some (Sentinel ContextDeadlineExceeded))\<rparr>" "pr_phase s = Draining"
      by (simp_all split: if_splits)
    then show ?thesis using old by (auto simp: life_inv_def)
  next
    case SelectDone
    with step have "s' = s\<lparr>pr_phase := Draining\<rparr>" "pr_phase s = Serving" "pr_signal s" by (simp_all split: if_splits)
    then show ?thesis using old by (auto simp: life_inv_def)
  next
    case Drained
    with step have "s' = s\<lparr>pr_phase := Returned None\<rparr>" "pr_phase s = Draining" "pr_active s = []"
      by (simp_all split: if_splits)
    then show ?thesis using old by (auto simp: life_inv_def)
  next
    case Signal
    with step have "s' = s\<lparr>pr_signal := True\<rparr>" by simp
    then show ?thesis using old by (auto simp: life_inv_def)
  next
    case (ListenFails e)
    with step have "s' = s\<lparr>pr_errCh := Some e\<rparr>" by (simp split: if_splits)
    then show ?thesis using old by (auto simp: life_inv_def)
  qed
qed

lemma life_reachable_inv: "life_reachable o' fails s \<Longrightarrow> life_inv s \<and> meter_reachable o' fails (pr_meter s)"
proof (induction rule: life_reachable.induct)
  case life_start
  then show ?case by (simp add: started_def life_inv_def sys_init_def meter_New_def meter_reachable.init[unfolded sys_init_def meter_New_def])
next
  case (life_step s ev s')
  have "meter_reachable o' fails (pr_meter s')"
  proof (cases ev)
    case (MeterDo st)
    then show ?thesis using life_step by (auto simp: ListenAndServe_step_def split: if_splits intro: meter_reachable.step)
  qed (use life_step in \<open>auto simp: ListenAndServe_step_def split: if_splits option.splits\<close>)
  then show ?case using life_step life_inv_step by blast
qed

section \<open>Requests under a context that is done\<close>

text \<open>
  When the context is done and no provider call can succeed under it, a failover makes one call at most and
  ends in an error.
\<close>

lemma cancelled_attempt:
  assumes "\<And>w. ee_ctx_err env w" "\<And>t r w. fst (call t r w) \<noteq> None"
  shows "\<exists>e w' es. attemptWithRetries (traced env) cfg (traced_call call) com t req st (w, l) = (Ret (Some e), (w', l @ es)) \<and>
    n_calls es = 1"
proof -
  let ?r = "call_request req t"
  obtain e w1 where c: "call t ?r w = (Some e, w1)" using assms(2)[of t ?r w] by (metis eq_fst_iff option.exhaust)
  have n: "(1 :: int) \<le> max_attempts cfg" by (simp add: max_attempts_def)
  have tc: "traced_call call t ?r (w, l) = (Some e, (w1, l @ [ECall t ?r (Some e)]))" using c by (simp add: frame_simps)
  let ?w3 = "record_fault env t (AsError e) (report_attempt env t 1 (Some e) st False w1)"
  have w3: "record_fault (traced env) t (AsError e) (report_attempt (traced env) t 1 (Some e) st False (w1, l @ [ECall t ?r (Some e)]))
      = (?w3, l @ failed_call t ?r st 1 e)" by (simp add: frame_simps failed_call_def)
  have "attemptWithRetries (traced env) cfg (traced_call call) com t req st (w, l)
      = (Ret (Some e), (?w3, l @ failed_call t ?r st 1 e))"
    using attempt_loop_failed[where call = "traced_call call" and t = t and r = ?r and w = "(w, l)", OF n tc w3[symmetric]]
    by (simp add: attemptWithRetries_def call_request_def[symmetric] assms(1) frame_simps)
  then show ?thesis by auto
qed

lemma cancelled_do_loop:
  assumes "\<And>w. ee_ctx_err env w" "\<And>t r w. fst (call t r w) \<noteq> None"
  shows "\<exists>t e w' es. do_loop (traced env) cfg (traced_call call) com req ts errs (w, l) = (Ret (t, Some e), (w', l @ es)) \<and>
    n_calls es \<le> 1"
proof (induction ts arbitrary: errs w l)
  case (Cons t ts)
  obtain ok st w1 where a: "ee_allow env (provider_Name (tg_Provider t)) w = ((ok, st), w1)" by (metis surj_pair)
  show ?case
  proof (cases ok)
    case True
    obtain e w2 es where "attemptWithRetries (traced env) cfg (traced_call call) com t req st
        (w1, l @ [EAllow (provider_Name (tg_Provider t)) True st]) = (Ret (Some e), (w2, (l @ [EAllow (provider_Name (tg_Provider t)) True st]) @ es))"
      "n_calls es = 1"
      using cancelled_attempt[of env call cfg com t req st w1] assms by blast
    then show ?thesis using a True assms(1) by (simp add: frame_simps Let_def)
  next
    case False
    obtain t' e w' es where "do_loop (traced env) cfg (traced_call call) com req ts (errs @ [circuit_open t])
        (report_attempt env t 0 None st True w1, l @ [EAllow (provider_Name (tg_Provider t)) False st, report_of t st 0 None True])
        = (Ret (t', Some e), (w', (l @ [EAllow (provider_Name (tg_Provider t)) False st, report_of t st 0 None True]) @ es))"
      "n_calls es \<le> 1"
      using Cons.IH by blast
    then show ?thesis using a False by (simp add: frame_simps Let_def circuit_open_def report_of_def)
  qed
qed (simp add: n_calls_def)

section \<open>Properties\<close>

text \<open>
  C14. A shutdown that drains is clean: once \<open>ListenAndServe\<close> has returned nil, in every interleaving of requests,
  signal, listener and meter, no request is being handled and no \<open>Record\<close> is under way, no \<open>Record\<close> has met
  the closed channel, and when the deferred \<open>Close\<close> of the meter has let its writer return, every row of every
  request was handed to the sink, in order, but those counted as dropped.
\<close>

theorem clean_shutdown:
  assumes "life_reachable o' fails s" "pr_phase s = Returned None"
  shows "pr_active s = [] \<and> sy_pending (pr_meter s) = [] \<and> \<not> sy_panic (pr_meter s) \<and>
    (mr_done (sy_meter (pr_meter s)) \<longrightarrow> concat (sy_batches (pr_meter s)) = sy_accepted (pr_meter s))"
proof -
  have "life_inv s" "meter_reachable o' fails (pr_meter s)" using life_reachable_inv[OF assms(1)] by simp_all
  then show ?thesis using assms(2) meter_reachable_ok[of o' fails "pr_meter s"]
    by (auto simp: life_inv_def meter_ok_def)
qed

text \<open>
  A shutdown whose timeout expires is not: requests are still being handled while the meter is closed, and a
  \<open>Record\<close> that had passed its check sends on the closed channel.
\<close>

theorem expired_shutdown_loses_rows:
  "\<exists>s. life_reachable o' fails s \<and> pr_phase s = Returned (Some (Sentinel ContextDeadlineExceeded)) \<and>
     pr_active s \<noteq> [] \<and> sy_panic (pr_meter s)"
proof -
  let ?evs = "[Accept 0, Signal, SelectDone, MeterDo (Check (demo_row ''a'')), Expired, MeterDo CloseFlag,
    MeterDo CloseChan, MeterDo (Send 0)]"
  obtain s where s: "life_run fails ?evs (started o') = Some s"
      "pr_phase s = Returned (Some (Sentinel ContextDeadlineExceeded))" "pr_active s \<noteq> []" "sy_panic (pr_meter s)"
    by (simp add: started_def ListenAndServe_step_def may_take_def sys_run_defs)
  then show ?thesis using life_run_reachable[OF life_start s(1)] by blast
qed

text \<open>
  C15. The drain cancels what it waits for: from the moment the server drains, every request's context is done, since
  \<open>BaseContext\<close> is the signal context; so, as no provider call succeeds under a context that is done, a request
  that still needs a provider makes one call at most and ends in an error, whatever its targets and its client,
  although \<open>ShutdownTimeout\<close> has not expired.
\<close>

theorem drain_cancels_requests:
  assumes "life_reachable o' fails s" "pr_phase s = Draining"
    and "\<forall>w. ee_ctx_err env w = request_done s (gone w)"
    and "\<forall>t r w. request_done s (gone w) \<longrightarrow> fst (call t r w) \<noteq> None"
  shows "(\<forall>client. request_done s client) \<and>
    (\<exists>t e. fst (do_traced env cfg call com req targets w) = Ret (t, Some e)) \<and>
    n_calls (snd (snd (do_traced env cfg call com req targets w))) \<le> 1"
proof -
  have sig: "pr_signal s" using life_reachable_inv[OF assms(1)] assms(2) by (simp add: life_inv_def)
  then have "ee_ctx_err env w'" "fst (call t r w') \<noteq> None" for t r w' using assms(3,4) by (simp_all add: request_done_def)
  then show ?thesis
    using cancelled_do_loop[of env call cfg "\<lambda>(w, l). com w" req targets "[]" w "[]"] sig
    by (auto simp: do_traced_def exec_do_def request_done_def)
qed

section \<open>A run\<close>

definition demo_shutdown :: "life_event list" where
  "demo_shutdown =
     [Accept 0, MeterDo (Check (demo_row ''a'')), Signal, SelectDone, MeterDo (Send 0), Finish 0, Drained,
      MeterDo CloseFlag, MeterDo CloseChan, MeterDo Recv, MeterDo End]"

theorem clean_shutdown_witness:
  "\<exists>s. life_run (\<lambda>b. False) demo_shutdown (started demo_options) = Some s \<and>
     concat (sy_batches (pr_meter s)) = [demo_row ''a'']"
proof -
  obtain s where s: "life_run (\<lambda>b. False) demo_shutdown (started demo_options) = Some s" "pr_phase s = Returned None"
      "mr_done (sy_meter (pr_meter s))" "sy_accepted (pr_meter s) = [demo_row ''a'']"
    by (simp add: demo_shutdown_def started_def ListenAndServe_step_def may_take_def sys_run_defs)
  have "life_reachable demo_options (\<lambda>b. False) s" using life_run_reachable[OF life_start s(1)] .
  from clean_shutdown[OF this s(2)] s show ?thesis by auto
qed

theorem drain_cancels_requests_witness:
  "\<exists>s. life_reachable demo_options (\<lambda>b. False) s \<and> pr_active s = [0] \<and> request_done s False \<and>
     (\<exists>t e. fst (do_traced (script_env\<lparr>ee_ctx_err := \<lambda>w. request_done s False\<rparr>) default_exec
        (\<lambda>t r w. (if request_done s False then Some (Sentinel ContextCanceled) else None, w)) (\<lambda>_. False) demo_request
        [demo_target ''a'', demo_target ''b''] []) = Ret (t, Some e))"
proof -
  obtain s where s: "life_run (\<lambda>b. False) [Accept 0, Signal, SelectDone] (started demo_options) = Some s"
      "pr_phase s = Draining" "pr_active s = [0]"
    by (simp add: started_def ListenAndServe_step_def)
  have r: "life_reachable demo_options (\<lambda>b. False) s" using life_run_reachable[OF life_start s(1)] .
  from drain_cancels_requests[OF r s(2), of "script_env\<lparr>ee_ctx_err := \<lambda>w. request_done s False\<rparr>" "\<lambda>w. False"
      "\<lambda>t r w. (if request_done s False then Some (Sentinel ContextCanceled) else None, w)"]
  show ?thesis using r s(3) by auto
qed

end
