(* ===== verification/Idents.thy ===== *)
theory Idents
  imports GoStrings
begin

text \<open>
  Random identifiers: \<open>generateKey\<close> and \<open>shortID\<close> of \<open>cmd/glmctl/main.go\<close> and \<open>NewID\<close> of \<open>internal/provider/id.go\<close>, with the
  encodings of the standard library they use, base64 for URLs without padding and hexadecimal. The bytes
  that \<open>crypto/rand\<close> delivers are an argument, \<open>None\<close> where it fails.
\<close>

type_synonym byte = "8 word"

section \<open>Base64\<close>

text \<open>\<open>RawURLEncoding.EncodeToString\<close>: three bytes make four digits; what is left makes two or three.\<close>

fun sextets :: "byte list \<Rightarrow> nat list" where
  "sextets [] = []"
| "sextets [a] = [unat a div 4, unat a mod 4 * 16]"
| "sextets [a, b] = [unat a div 4, unat a mod 4 * 16 + unat b div 16, unat b mod 16 * 4]"
| "sextets (a # b # c # bs) =
     [unat a div 4, unat a mod 4 * 16 + unat b div 16, unat b mod 16 * 4 + unat c div 64, unat c mod 64] @ sextets bs"

definition url_alphabet :: string where
  "url_alphabet = ''ABCDEFGHIJKLMNOPQRSTUVWXYZabcdefghijklmnopqrstuvwxyz0123456789-_''"

definition RawURLEncode :: "byte list \<Rightarrow> string" where
  "RawURLEncode bs = map (\<lambda>n. url_alphabet ! n) (sextets bs)"

text \<open>The inverse, on the values of the digits.\<close>

fun from_sextets :: "nat list \<Rightarrow> byte list" where
  "from_sextets (a # b # c # d # ns) =
     [of_nat (a * 4 + b div 16), of_nat (b mod 16 * 16 + c div 4), of_nat (c mod 4 * 64 + d)] @ from_sextets ns"
| "from_sextets [a, b, c] = [of_nat (a * 4 + b div 16), of_nat (b mod 16 * 16 + c div 4)]"
| "from_sextets [a, b] = [of_nat (a * 4 + b div 16)]"
| "from_sextets _ = []"

lemma byte_bound [simp]: "unat (b :: byte) < 256"
proof -
  have "unat b < 2 ^ LENGTH(8)" by (rule unsigned_less)
  then show ?thesis by simp
qed

lemma byte_parts:
  fixes a :: byte
  shows "unat a div 4 < 64" "unat a div 16 < 16" "unat a div 64 < 4"
  using byte_bound[of a] by linarith+

lemma sextet_bounds:
  fixes a b :: byte
  shows "unat a mod 4 * 16 + unat b div 16 < 64" "unat a mod 16 * 4 + unat b div 64 < 64"
  using byte_parts[of b] by simp_all

lemma byte_joins [simp]:
  fixes a b c :: byte
  shows "unat a div 4 * 4 + (unat a mod 4 * 16 + unat b div 16) div 16 = unat a"
    "(unat a mod 4 * 16 + unat b div 16) mod 16 * 16 + (unat b mod 16 * 4 + unat c div 64) div 4 = unat b"
    "(unat a mod 4 * 16 + unat b div 16) mod 16 * 16 + unat b mod 16 * 4 div 4 = unat b"
    "(unat b mod 16 * 4 + unat c div 64) mod 4 * 64 + unat c mod 64 = unat c"
    "unat a div 4 * 4 + unat a mod 4 * 16 div 16 = unat a"
  using byte_parts[of b] byte_parts[of c] by simp_all

lemma of_nat_byte [simp]: "of_nat (unat b) = (b :: byte)"
  unfolding of_nat_unat by (rule ucast_id)

lemma from_sextets_sextets: "from_sextets (sextets bs) = bs"
  by (induction bs rule: sextets.induct)
     (simp_all only: sextets.simps append_Cons append_Nil from_sextets.simps byte_joins of_nat_byte)

lemma sextets_bound: "n \<in> set (sextets bs) \<Longrightarrow> n < 64"
  by (induction bs rule: sextets.induct) (auto simp: byte_parts sextet_bounds)

lemma sextets_length: "length (sextets bs) = (4 * length bs + 2) div 3"
  by (induction bs rule: sextets.induct) auto

lemma alphabet: "length url_alphabet = 64" "distinct url_alphabet"
  by (simp_all add: url_alphabet_def)

text \<open>So an encoding determines its bytes.\<close>

lemma RawURLEncode_inject [simp]: "RawURLEncode bs = RawURLEncode cs \<longleftrightarrow> bs = cs"
proof
  assume eq: "RawURLEncode bs = RawURLEncode cs"
  have "inj_on (\<lambda>n. url_alphabet ! n) (set (sextets bs) \<union> set (sextets cs))"
    using alphabet sextets_bound[of _ bs] sextets_bound[of _ cs]
    by (auto intro!: inj_onI simp: nth_eq_iff_index_eq)
  with eq have "sextets bs = sextets cs" unfolding RawURLEncode_def by (rule map_inj_on)
  then show "bs = cs" by (metis from_sextets_sextets)
qed simp

lemma RawURLEncode_length [simp]: "length (RawURLEncode bs) = (4 * length bs + 2) div 3"
  by (simp add: RawURLEncode_def sextets_length)

section \<open>Hexadecimal\<close>

definition hex_table :: string where
  "hex_table = ''0123456789abcdef''"

definition hex_encode :: "byte list \<Rightarrow> string" where
  "hex_encode bs = concat (map (\<lambda>b. [hex_table ! (unat b div 16), hex_table ! (unat b mod 16)]) bs)"

lemma hex_length [simp]: "length (hex_encode bs) = 2 * length bs"
  by (induction bs) (simp_all add: hex_encode_def)

lemma hex_encode_inject [simp]: "hex_encode bs = hex_encode cs \<longleftrightarrow> bs = cs"
proof
  assume "hex_encode bs = hex_encode cs"
  then show "bs = cs"
  proof (induction bs arbitrary: cs)
    case (Cons b bs)
    then obtain c cs' where cs: "cs = c # cs'" by (cases cs) (auto simp: hex_encode_def)
    have t: "length hex_table = 16" "distinct hex_table" by (simp_all add: hex_table_def)
    have "hex_table ! (unat b div 16) = hex_table ! (unat c div 16)" "hex_table ! (unat b mod 16) = hex_table ! (unat c mod 16)"
      using Cons.prems cs by (simp_all add: hex_encode_def)
    then have "unat b div 16 = unat c div 16" "unat b mod 16 = unat c mod 16"
      using t byte_parts(2) by (simp_all add: nth_eq_iff_index_eq)
    then have "unat b = unat c" by (metis div_mult_mod_eq)
    then have "b = c" by (metis of_nat_byte)
    then show ?case using Cons cs by (simp add: hex_encode_def)
  qed (auto simp: hex_encode_def)
qed simp

section \<open>Identifiers\<close>

definition generateKey :: "byte list option \<Rightarrow> string + string" where
  "generateKey rand =
     (case rand of None \<Rightarrow> Inl ''generate key'' | Some b \<Rightarrow> Inr (''glm_live_'' @ RawURLEncode b))"

text \<open>\<open>shortID\<close> ignores the error; the bytes are zero where nothing was read.\<close>

definition shortID :: "byte list option \<Rightarrow> string" where
  "shortID rand = RawURLEncode (case rand of None \<Rightarrow> replicate 6 0 | Some b \<Rightarrow> b)"

definition NewID :: "byte list option \<Rightarrow> string" where
  "NewID rand = (case rand of None \<Rightarrow> ''0000000000000000000000'' | Some b \<Rightarrow> hex_encode b)"

definition key_prefix :: "string \<Rightarrow> string" where
  "key_prefix raw = (if length raw \<le> 16 then raw else take 16 raw)"

text \<open>No identifier of random bytes is the one for a failed source, since that has another length.\<close>

lemma NewID_distinct: "length b = 12 \<Longrightarrow> NewID (Some b) \<noteq> NewID None"
proof
  assume "length b = 12" "NewID (Some b) = NewID None"
  then have "length (hex_encode b) = length ''0000000000000000000000''" unfolding NewID_def by simp
  with \<open>length b = 12\<close> show False by simp
qed

text \<open>
  A minted key stands for its 32 random bytes: it has 52 characters, no other bytes give it, and what the table keeps of
  it in the clear, the prefix, is the fixed mark and seven digits of the secret, 42 of its 256 bits.
\<close>

theorem minted_key:
  assumes "generateKey (Some b) = Inr k" "length b = 32"
  shows "length k = 52 \<and> key_prefix k = ''glm_live_'' @ take 7 (RawURLEncode b) \<and>
    (\<forall>b'. generateKey (Some b') = Inr k \<longrightarrow> b' = b)"
  using assms by (auto simp: generateKey_def key_prefix_def)

theorem minted_key_witness:
  "\<exists>k. generateKey (Some ([255, 255, 255, 255, 255, 255] @ replicate 26 7)) = Inr k \<and>
     key_prefix k = ''glm_live________''"
proof -
  let ?b = "[255, 255, 255, 255, 255, 255] @ replicate 26 7"
  obtain k where k: "generateKey (Some ?b) = Inr k" by (simp add: generateKey_def)
  have "sextets ?b = [63, 63, 63, 63, 63, 63, 63, 63] @ sextets (replicate 26 7)" by simp
  moreover have "url_alphabet ! 63 = CHR ''_''" by (simp add: url_alphabet_def)
  ultimately have "take 7 (RawURLEncode ?b) = ''_______''" by (simp only: RawURLEncode_def) simp
  moreover have "key_prefix k = ''glm_live_'' @ take 7 (RawURLEncode ?b)"
    by (rule minted_key[OF k, THEN conjunct2, THEN conjunct1]) simp
  ultimately have "key_prefix k = ''glm_live________''" by (simp only:) simp
  with k show ?thesis by blast
qed

end
