(* ===== verification/Admin.thy ===== *)
theory Admin
  imports Auth Meter Idents
begin

text \<open>
  \<open>cmd/glmctl/main.go\<close>: what the operator's commands do to the tables that \<open>pg_auth.go\<close> reads and what the usage report says of the
  ledger. A statement is the function it computes on the tables, with the constraints of the schema: primary keys, the unique
  digest, the foreign key to the tenant, the check on the rate. Printing is left out; random bytes are an argument.
\<close>

section \<open>The tables\<close>

text \<open>A key with the columns only the list shows.\<close>

record key_entry =
  ke_row :: api_key_row
  ke_prefix :: string
  ke_label :: "string option"
  ke_created :: instant

record admin_db =
  ad_keys :: "key_entry list"
  ad_tenants :: "tenant_row list"

text \<open>What the gateway sees.\<close>

definition auth_view :: "admin_db \<Rightarrow> key_db" where
  "auth_view db = \<lparr>db_keys = map ke_row (ad_keys db), db_tenants = ad_tenants db, db_error = None\<rparr>"

section \<open>Helpers\<close>

definition nullIfEmpty :: "string \<Rightarrow> string option" where
  "nullIfEmpty s = (if TrimSpace s = '''' then None else Some s)"

section \<open>Commands\<close>

definition create_tenant :: "string \<Rightarrow> string \<Rightarrow> admin_db \<Rightarrow> string + admin_db" where
  "create_tenant i name db =
     (if i = '''' \<or> name = '''' then Inl ''create-tenant requires -id and -name''
      else if i \<in> tr_id ` set (ad_tenants db)
      then Inr (db\<lparr>ad_tenants := map (\<lambda>t. if tr_id t = i then t\<lparr>tr_name := name\<rparr> else t) (ad_tenants db)\<rparr>)
      else Inr (db\<lparr>ad_tenants := ad_tenants db @ [\<lparr>tr_id = i, tr_name = name, tr_active = True\<rparr>]\<rparr>))"

definition new_key :: "(string \<Rightarrow> string) \<Rightarrow> string \<Rightarrow> string \<Rightarrow> string \<Rightarrow> string \<Rightarrow> int \<Rightarrow> duration \<Rightarrow> instant \<Rightarrow> key_entry" where
  "new_key digest raw sid t label rpm expires now =
     \<lparr>ke_row = \<lparr>ak_id = ''key_'' @ sid, ak_tenant_id = t, ak_key_hash = HashKey digest raw,
        ak_rpm = (if rpm > 0 then Some rpm else None),
        ak_expires_at = (if expires > 0 then Some (now + expires) else None), ak_revoked_at = None\<rparr>,
      ke_prefix = key_prefix raw, ke_label = nullIfEmpty label, ke_created = now\<rparr>"

definition create_key ::
  "(string \<Rightarrow> string) \<Rightarrow> string \<Rightarrow> string \<Rightarrow> string \<Rightarrow> string \<Rightarrow> int \<Rightarrow> duration \<Rightarrow> instant \<Rightarrow> admin_db \<Rightarrow> string + admin_db" where
  "create_key digest raw sid t label rpm expires now db =
     (if t = '''' then Inl ''create-key requires -tenant''
      else
        (let k = new_key digest raw sid t label rpm expires now in
         if t \<notin> tr_id ` set (ad_tenants db) \<or> ak_id (ke_row k) \<in> (ak_id \<circ> ke_row) ` set (ad_keys db) \<or>
            ak_key_hash (ke_row k) \<in> (ak_key_hash \<circ> ke_row) ` set (ad_keys db)
         then Inl (''create key (does tenant '' @ quoted t @ '' exist?)'')
         else Inr (db\<lparr>ad_keys := ad_keys db @ [k]\<rparr>)))"

definition revoke_entry :: "string \<Rightarrow> instant \<Rightarrow> key_entry \<Rightarrow> key_entry" where
  "revoke_entry i now k =
     (if ak_id (ke_row k) = i \<and> ak_revoked_at (ke_row k) = None
      then k\<lparr>ke_row := (ke_row k)\<lparr>ak_revoked_at := Some now\<rparr>\<rparr> else k)"

definition revoke_key :: "string \<Rightarrow> instant \<Rightarrow> admin_db \<Rightarrow> string + admin_db" where
  "revoke_key i now db =
     (if i = '''' then Inl ''revoke-key requires -id''
      else if \<not> list_ex (\<lambda>k. ak_id (ke_row k) = i \<and> ak_revoked_at (ke_row k) = None) (ad_keys db)
      then Inl (''key '' @ quoted i @ '' not found or already revoked'')
      else Inr (db\<lparr>ad_keys := map (revoke_entry i now) (ad_keys db)\<rparr>))"

text \<open>One line of \<open>list-keys\<close>: id, tenant, prefix, label, rate, creation, whether revoked; newest first.\<close>

definition key_line :: "key_entry \<Rightarrow> string \<times> string \<times> string \<times> string \<times> string \<times> instant \<times> bool" where
  "key_line k =
     (ak_id (ke_row k), ak_tenant_id (ke_row k), ke_prefix k, case ke_label k of None \<Rightarrow> '''' | Some l \<Rightarrow> l,
      case ak_rpm (ke_row k) of None \<Rightarrow> ''default'' | Some n \<Rightarrow> if n > 0 then Itoa n else ''default'',
      ke_created k, ak_revoked_at (ke_row k) \<noteq> None)"

definition list_keys :: "string \<Rightarrow> admin_db \<Rightarrow> (string \<times> string \<times> string \<times> string \<times> string \<times> instant \<times> bool) list" where
  "list_keys t db =
     map key_line (sort_key (\<lambda>k. - ke_created k) (filter (\<lambda>k. t = '''' \<or> ak_tenant_id (ke_row k) = t) (ad_keys db)))"

section \<open>The usage report\<close>

record usage_line =
  ul_tenant :: string
  ul_requests :: int
  ul_tokens :: int
  ul_spent :: float64
  ul_saved :: float64
  ul_hits :: int

text \<open>A row whose time is not set is stamped by the meter before it is stored.\<close>

definition in_window :: "instant \<Rightarrow> duration \<Rightarrow> string \<Rightarrow> usage_row \<Rightarrow> bool" where
  "in_window now since t r \<longleftrightarrow>
     (case ur_CreatedAt r of None \<Rightarrow> False | Some c \<Rightarrow> c > now - go_div since Second * Second) \<and> (t = '''' \<or> ur_TenantID r = t)"

definition line_of :: "usage_row list \<Rightarrow> string \<Rightarrow> usage_line" where
  "line_of rows t =
     (let rs = filter (\<lambda>r. ur_TenantID r = t) rows in
      \<lparr>ul_tenant = t, ul_requests = int (length rs),
       ul_tokens = sum_list (map (\<lambda>r. ur_PromptTokens r + ur_CompletionTokens r) rs),
       ul_spent = sum_list (map ur_CostUSD rs), ul_saved = sum_list (map ur_SavedUSD rs),
       ul_hits = int (length (filter (\<lambda>r. ur_CacheStatus r = ''exact_hit'' \<or> ur_CacheStatus r = ''semantic_hit'') rs))\<rparr>)"

definition usage_report :: "instant \<Rightarrow> duration \<Rightarrow> string \<Rightarrow> usage_row list \<Rightarrow> usage_line list" where
  "usage_report now since t ledger =
     (let rows = filter (in_window now since t) ledger in
      sort_key (\<lambda>l. - ul_spent l) (map (line_of rows) (remdups (map ur_TenantID rows))))"

definition hit_rate :: "usage_line \<Rightarrow> float64" where
  "hit_rate l = (if ul_requests l > 0 then of_int (ul_hits l) / of_int (ul_requests l) * 100 else 0)"

section \<open>The command line\<close>

text \<open>The flags after parsing, and what a run reaches outside: the pool, the migrations, random bytes, the clock, the ledger.\<close>

record ctl_flags =
  cl_db :: string
  cl_id :: string
  cl_name :: string
  cl_tenant :: string
  cl_label :: string
  cl_rpm :: int
  cl_expires :: duration
  cl_since :: duration

record ctl_env =
  cx_open :: "string \<Rightarrow> go_error option"
  cx_migrate :: "go_error option"
  cx_key_bytes :: "byte list option"
  cx_id_bytes :: "byte list option"
  cx_now :: instant
  cx_digest :: "string \<Rightarrow> string"
  cx_ledger :: "usage_row list"

definition default_flags :: "string \<Rightarrow> ctl_flags" where
  "default_flags url =
     \<lparr>cl_db = url, cl_id = '''', cl_name = '''', cl_tenant = '''', cl_label = '''', cl_rpm = 0, cl_expires = 0,
      cl_since = 24 * Hour\<rparr>"

text \<open>What is printed. The key itself is printed when it is issued and nowhere else.\<close>

datatype ctl_output =
    TenantReady string
  | KeyIssued string string string
  | KeyTable "(string \<times> string \<times> string \<times> string \<times> string \<times> instant \<times> bool) list"
  | KeyRevoked string
  | UsageTable "usage_line list"

definition changed :: "ctl_output \<Rightarrow> string + admin_db \<Rightarrow> admin_db \<Rightarrow> (go_error + ctl_output) \<times> admin_db" where
  "changed out r db = (case r of Inl e \<Rightarrow> (Inl (errorf e), db) | Inr db' \<Rightarrow> (Inr out, db'))"

definition glmctl_command :: "ctl_env \<Rightarrow> string \<Rightarrow> ctl_flags \<Rightarrow> admin_db \<Rightarrow> (go_error + ctl_output) \<times> admin_db" where
  "glmctl_command x cmd fl db =
     (if cmd = ''create-tenant'' then changed (TenantReady (cl_id fl)) (create_tenant (cl_id fl) (cl_name fl) db) db
      else if cmd = ''create-key'' then
        (if cl_tenant fl = '''' then (Inl (errorf ''create-key requires -tenant''), db)
         else case generateKey (cx_key_bytes x) of
           Inl e \<Rightarrow> (Inl (errorf e), db)
         | Inr raw \<Rightarrow>
             (let sid = shortID (cx_id_bytes x) in
              changed (KeyIssued (''key_'' @ sid) (cl_tenant fl) raw)
                (create_key (cx_digest x) raw sid (cl_tenant fl) (cl_label fl) (cl_rpm fl) (cl_expires fl) (cx_now x) db) db))
      else if cmd = ''list-keys'' then (Inr (KeyTable (list_keys (cl_tenant fl) db)), db)
      else if cmd = ''revoke-key'' then changed (KeyRevoked (cl_id fl)) (revoke_key (cl_id fl) (cx_now x) db) db
      else if cmd = ''usage'' then (Inr (UsageTable (usage_report (cx_now x) (cl_since fl) (cl_tenant fl) (cx_ledger x))), db)
      else (Inl (errorf (''unknown subcommand '' @ quoted cmd)), db))"

text \<open>\<open>args\<close> are the arguments after the program name. Every subcommand, an unknown one too, migrates first.\<close>

definition glmctl_run :: "ctl_env \<Rightarrow> string list \<Rightarrow> ctl_flags \<Rightarrow> admin_db \<Rightarrow> (go_error + ctl_output) \<times> admin_db" where
  "glmctl_run x args fl db =
     (case args of
        [] \<Rightarrow> (Inl (errorf ''a subcommand is required''), db)
      | cmd # _ \<Rightarrow>
          (if cl_db fl = '''' then (Inl (errorf ''set -db or $POSTGRES_URL''), db)
           else case cx_open x (cl_db fl) of
             Some e \<Rightarrow> (Inl e, db)
           | None \<Rightarrow>
               (case cx_migrate x of
                  Some e \<Rightarrow> (Inl e, db)
                | None \<Rightarrow> glmctl_command x cmd fl db)))"

section \<open>The tables stay well formed\<close>

definition admin_ok :: "admin_db \<Rightarrow> bool" where
  "admin_ok db \<longleftrightarrow>
     distinct (map tr_id (ad_tenants db)) \<and> distinct (map (ak_id \<circ> ke_row) (ad_keys db)) \<and>
     distinct (map (ak_key_hash \<circ> ke_row) (ad_keys db)) \<and>
     (\<forall>k \<in> set (ad_keys db). ak_tenant_id (ke_row k) \<in> set (map tr_id (ad_tenants db)) \<and>
        (\<forall>n. ak_rpm (ke_row k) = Some n \<longrightarrow> 0 < n))"

inductive admin_reachable :: "(string \<Rightarrow> string) \<Rightarrow> admin_db \<Rightarrow> bool" for digest where
  empty: "admin_reachable digest \<lparr>ad_keys = [], ad_tenants = []\<rparr>"
| tenant: "admin_reachable digest db \<Longrightarrow> create_tenant i name db = Inr db' \<Longrightarrow> admin_reachable digest db'"
| key: "admin_reachable digest db \<Longrightarrow> create_key digest raw sid t label rpm expires now db = Inr db' \<Longrightarrow> admin_reachable digest db'"
| revoke: "admin_reachable digest db \<Longrightarrow> revoke_key i now db = Inr db' \<Longrightarrow> admin_reachable digest db'"

lemma rename_tenant [simp]: "tr_id ((if tr_id t = i then t\<lparr>tr_name := name\<rparr> else t)) = tr_id t"
  by simp

lemma create_tenant_ok: "admin_ok db \<Longrightarrow> create_tenant i name db = Inr db' \<Longrightarrow> admin_ok db'"
  by (auto simp: create_tenant_def admin_ok_def comp_def split: if_splits simp del: set_map) (auto simp: image_iff)

lemma create_key_ok: "admin_ok db \<Longrightarrow> create_key digest raw sid t label rpm expires now db = Inr db' \<Longrightarrow> admin_ok db'"
  by (auto simp: create_key_def admin_ok_def new_key_def Let_def split: if_splits)

lemma revoke_entry_frame [simp]:
  "ak_id (ke_row (revoke_entry i now k)) = ak_id (ke_row k)" "ak_key_hash (ke_row (revoke_entry i now k)) = ak_key_hash (ke_row k)"
  "ak_tenant_id (ke_row (revoke_entry i now k)) = ak_tenant_id (ke_row k)" "ak_rpm (ke_row (revoke_entry i now k)) = ak_rpm (ke_row k)"
  "ak_id (ke_row k) \<noteq> i \<Longrightarrow> revoke_entry i now k = k"
  by (simp_all add: revoke_entry_def)

lemma revoke_key_ok: "admin_ok db \<Longrightarrow> revoke_key i now db = Inr db' \<Longrightarrow> admin_ok db'"
  by (auto simp: revoke_key_def admin_ok_def comp_def split: if_splits)

lemma admin_reachable_ok: "admin_reachable digest db \<Longrightarrow> admin_ok db"
  by (induction rule: admin_reachable.induct)
    (simp add: admin_ok_def, auto dest: create_tenant_ok create_key_ok revoke_key_ok)

text \<open>A run takes the tables from one reachable state to another, and a run that fails does not change them.\<close>

lemma changed_cases: "changed out r db = (res, db') \<Longrightarrow> (r = Inr db' \<and> res = Inr out) \<or> (db' = db \<and> (\<exists>e. res = Inl e))"
  by (auto simp: changed_def split: sum.splits)

lemma glmctl_run_tables:
  assumes "glmctl_run x args fl db = (res, db')"
  shows "db' = db \<or> ((\<exists>out. res = Inr out) \<and>
    ((\<exists>i name. create_tenant i name db = Inr db') \<or> (\<exists>i now. revoke_key i now db = Inr db') \<or>
     (\<exists>raw sid t label rpm expires now. create_key (cx_digest x) raw sid t label rpm expires now db = Inr db')))"
  using assms
  by (auto simp: glmctl_run_def glmctl_command_def Let_def split: list.splits if_splits option.splits sum.splits
      dest!: changed_cases)

lemma glmctl_run_reachable:
  "admin_reachable (cx_digest x) db \<Longrightarrow> glmctl_run x args fl db = (res, db') \<Longrightarrow> admin_reachable (cx_digest x) db'"
  by (drule glmctl_run_tables) (auto intro: admin_reachable.intros)

section \<open>The life of a key\<close>

text \<open>The rows the query finds for one key.\<close>

definition key_matches :: "tenant_row list \<Rightarrow> instant \<Rightarrow> string \<Rightarrow> api_key_row \<Rightarrow> tenant list" where
  "key_matches ts now hash k =
     concat (map (\<lambda>t. if tr_id t = ak_tenant_id k \<and> ak_key_hash k = hash \<and> key_live now k \<and> tr_active t
       then [\<lparr>tn_ID = ak_tenant_id k, tn_Name = tr_name t, tn_KeyID = ak_id k,
              tn_RPM = (case ak_rpm k of None \<Rightarrow> 0 | Some n \<Rightarrow> n)\<rparr>]
       else []) ts)"

lemma key_query_matches: "key_query (auth_view db) now hash = concat (map (key_matches (ad_tenants db) now hash \<circ> ke_row) (ad_keys db))"
  by (simp add: key_query_def auth_view_def key_matches_def comp_def)

lemma key_matches_other: "ak_key_hash k \<noteq> hash \<Longrightarrow> key_matches ts now hash k = []"
  by (simp add: key_matches_def)

lemma key_matches_dead: "\<not> key_live now k \<Longrightarrow> key_matches ts now hash k = []"
  by (simp add: key_matches_def)

lemma key_matches_one:
  assumes "distinct (map tr_id ts)" "tr \<in> set ts" "tr_id tr = ak_tenant_id k" "tr_active tr" "key_live now k"
  shows "key_matches ts now (ak_key_hash k) k = [\<lparr>tn_ID = ak_tenant_id k, tn_Name = tr_name tr, tn_KeyID = ak_id k,
    tn_RPM = (case ak_rpm k of None \<Rightarrow> 0 | Some n \<Rightarrow> n)\<rparr>]"
  using assms(1,2)
proof (induction ts)
  case (Cons t ts)
  have none: "key_matches ts now (ak_key_hash k) k = []" if "tr_id tr \<notin> tr_id ` set ts"
    using that assms(3) by (induction ts) (auto simp: key_matches_def)
  show ?case
  proof (cases "t = tr")
    case True
    then show ?thesis using Cons.prems none assms(3,4,5) by (simp add: key_matches_def)
  next
    case False
    then have "tr_id t \<noteq> tr_id tr" using Cons.prems by force
    then show ?thesis using False Cons assms(3) by (simp add: key_matches_def)
  qed
qed simp

lemma pg_Authenticate_view:
  "pg_Authenticate digest now (auth_view db) tok
   = (case key_query (auth_view db) now (digest tok) of [] \<Rightarrow> Inl (Sentinel ErrUnauthorized) | t # _ \<Rightarrow> Inr t)"
  by (simp add: pg_Authenticate_def query_row_def auth_view_def HashKey_def split: list.split)



text \<open>A tenant, a key that expires after 100, the key revoked at 50.\<close>

definition demo_admin :: admin_db where
  "demo_admin = \<lparr>ad_keys = [], ad_tenants = [\<lparr>tr_id = ''acme'', tr_name = ''Acme'', tr_active = True\<rparr>]\<rparr>"


section \<open>The report adds up\<close>

lemma int_length_sum: "int (length rs) = sum_list (map (\<lambda>r. 1) rs)"
  by (simp add: sum_list_triv)

lemma report_sums:
  fixes f :: "usage_row \<Rightarrow> 'a::comm_monoid_add"
  assumes "\<And>t. g (line_of rows t) = sum_list (map f (filter (\<lambda>r. ur_TenantID r = t) rows))"
  shows "sum_list (map g (sort_key s (map (line_of rows) (remdups (map ur_TenantID rows))))) = sum_list (map f rows)"
  using sum_list_groups[of "remdups (map ur_TenantID rows)" ur_TenantID rows f] assms
  by (simp add: sum_list_sort_key comp_def)

text \<open>
  C40. The usage report neither loses nor counts twice: its lines are for distinct tenants, ordered by what was spent, their
  requests, tokens, spending, savings and hits sum to those of the rows in the window, and each hit rate is a percentage.
\<close>

theorem usage_report_sound:
  "let report = usage_report now since t ledger; rows = filter (in_window now since t) ledger in
    distinct (map ul_tenant report) \<and> sorted (map (\<lambda>l. - ul_spent l) report) \<and>
    sum_list (map ul_requests report) = int (length rows) \<and>
    sum_list (map ul_tokens report) = sum_list (map (\<lambda>r. ur_PromptTokens r + ur_CompletionTokens r) rows) \<and>
    sum_list (map ul_spent report) = sum_list (map ur_CostUSD rows) \<and>
    sum_list (map ul_saved report) = sum_list (map ur_SavedUSD rows) \<and>
    list_all (\<lambda>l. 0 \<le> hit_rate l \<and> hit_rate l \<le> 100) report"
proof -
  define rows where "rows = filter (in_window now since t) ledger"
  let ?lines = "map (line_of rows) (remdups (map ur_TenantID rows))"
  have r: "usage_report now since t ledger = sort_key (\<lambda>l. - ul_spent l) ?lines"
    by (simp add: usage_report_def rows_def Let_def)
  have "map ul_tenant ?lines = remdups (map ur_TenantID rows)" by (simp add: comp_def line_of_def Let_def)
  then have "mset (map ul_tenant (sort_key (\<lambda>l. - ul_spent l) ?lines)) = mset (remdups (map ur_TenantID rows))"
    by (metis mset_map mset_sort)
  then have d: "distinct (map ul_tenant (sort_key (\<lambda>l. - ul_spent l) ?lines))" by (metis distinct_remdups mset_eq_imp_distinct_iff)
  have rate: "0 \<le> hit_rate (line_of rs u) \<and> hit_rate (line_of rs u) \<le> 100" for rs u
  proof -
    have "ul_hits (line_of rs u) \<le> ul_requests (line_of rs u)" "0 \<le> ul_hits (line_of rs u)"
      by (simp_all add: line_of_def Let_def del: filter_filter)
    then show ?thesis by (auto simp: hit_rate_def divide_simps)
  qed
  have "sum_list (map ul_requests (sort_key (\<lambda>l. - ul_spent l) ?lines)) = sum_list (map (\<lambda>r. 1) rows)"
    by (rule report_sums) (simp add: line_of_def Let_def int_length_sum)
  moreover have "sum_list (map ul_tokens (sort_key (\<lambda>l. - ul_spent l) ?lines))
      = sum_list (map (\<lambda>r. ur_PromptTokens r + ur_CompletionTokens r) rows)"
    "sum_list (map ul_spent (sort_key (\<lambda>l. - ul_spent l) ?lines)) = sum_list (map ur_CostUSD rows)"
    "sum_list (map ul_saved (sort_key (\<lambda>l. - ul_spent l) ?lines)) = sum_list (map ur_SavedUSD rows)"
    by (rule report_sums, simp add: line_of_def Let_def)+
  ultimately show ?thesis
    unfolding Let_def rows_def[symmetric] r
    using d rate by (simp add: int_length_sum list_all_iff sorted_sort_key)
qed

end
