(* ===== verification/Bench.thy ===== *)
theory Bench
  imports Cache Auth
begin

text \<open>
  \<open>cmd/glmbench/main.go\<close>: the prompts it sends and the requests it makes of them, how it classifies an answer and what it
  reports of the measurements. The round trip is a parameter; a body is the chat request the gateway decodes from it. The
  printing is left out. Durations are nanoseconds.
\<close>

record bench_flags =
  bf_url :: string
  bf_key :: string
  bf_model :: string
  bf_prompts :: string
  bf_rounds :: int
  bf_conc :: int
  bf_missDelay :: duration
  bf_maxTokens :: int

definition default_bench_flags :: bench_flags where
  "default_bench_flags =
     \<lparr>bf_url = ''http://localhost:8099'', bf_key = '''', bf_model = ''fast'', bf_prompts = ''bench/prompts.txt'',
      bf_rounds = 3, bf_conc = 8, bf_missDelay = 2100 * Millisecond, bf_maxTokens = 60\<rparr>"

record bench_result =
  bn_status :: string
  bn_code :: int
  bn_dur :: duration

text \<open>\<open>readPrompts\<close> on the lines of the file.\<close>

definition readPrompts :: "string list \<Rightarrow> string list option" where
  "readPrompts ls =
     (let out = filter (\<lambda>l. l \<noteq> '''' \<and> \<not> HasPrefix l ''#'') (map TrimSpace ls)
      in if out = [] then None else Some out)"

text \<open>An answer: \<open>None\<close> where the request failed, else the status code and the \<open>X-Cache\<close> header.\<close>

definition bench_classify :: "(int \<times> string) option \<Rightarrow> duration \<Rightarrow> bench_result" where
  "bench_classify answer dur =
     (case answer of
        None \<Rightarrow> \<lparr>bn_status = ''error'', bn_code = 0, bn_dur = dur\<rparr>
      | Some (code, xcache) \<Rightarrow>
          \<lparr>bn_status = (if code \<noteq> 200 then ''http_'' @ Itoa code else xcache), bn_code = code, bn_dur = dur\<rparr>)"

section \<open>One call\<close>

definition bench_body :: "bench_flags \<Rightarrow> string \<Rightarrow> chat_request" where
  "bench_body f prompt =
     \<lparr>cr_Model = bf_model f, cr_Messages = [\<lparr>msg_Role = ''user'', msg_Content = prompt, msg_Name = ''''\<rparr>], cr_Temperature = Some 0,
      cr_TopP = None, cr_MaxTokens = Some (bf_maxTokens f), cr_Stream = False, cr_Stop = [], cr_User = '''', cr_N = None,
      cr_ResolvedModel = ''''\<rparr>"

definition bench_header :: "bench_flags \<Rightarrow> string \<Rightarrow> string" where
  "bench_header f h =
     (if h = ''Content-Type'' then ''application/json''
      else if h = ''Authorization'' then ''Bearer '' @ bf_key f else '''')"

definition bench_call ::
  "(string \<Rightarrow> (string \<Rightarrow> string) \<Rightarrow> chat_request \<Rightarrow> 'w \<Rightarrow> (int \<times> string) option \<times> 'w) \<Rightarrow> ('w \<Rightarrow> instant) \<Rightarrow> bench_flags \<Rightarrow> string
    \<Rightarrow> 'w \<Rightarrow> bench_result \<times> 'w" where
  "bench_call post now f prompt w =
     (let (answer, w') = post (bf_url f @ ''/v1/chat/completions'') (bench_header f) (bench_body f prompt) w
      in (bench_classify answer (now w' - now w), w'))"

text \<open>The prime phase: one call after the other, with a pause between them.\<close>

fun bench_prime ::
  "(string \<Rightarrow> (string \<Rightarrow> string) \<Rightarrow> chat_request \<Rightarrow> 'w \<Rightarrow> (int \<times> string) option \<times> 'w) \<Rightarrow> ('w \<Rightarrow> instant) \<Rightarrow> (duration \<Rightarrow> 'w \<Rightarrow> 'w)
    \<Rightarrow> bench_flags \<Rightarrow> string list \<Rightarrow> 'w \<Rightarrow> bench_result list \<times> 'w" where
  "bench_prime post now sleep f [] w = ([], w)"
| "bench_prime post now sleep f (p # ps) w =
     (let (r, w1) = bench_call post now f p w;
          (rs, w2) = bench_prime post now sleep f ps (if ps = [] then w1 else sleep (bf_missDelay f) w1)
      in (r # rs, w2))"

section \<open>Percentiles of what was measured\<close>

text \<open>The percentile, \<open>None\<close> where the index is out of range.\<close>

definition pct :: "duration list \<Rightarrow> int \<Rightarrow> duration option" where
  "pct ds p =
     (if ds = [] then Some 0
      else
        (let idx = go_div (int (length ds) * p + 99) 100; idx' = (if idx < 1 then 1 else idx)
         in if nat (idx' - 1) < length ds then Some (ds ! nat (idx' - 1)) else None))"

record bench_line =
  bl_status :: string
  bl_count :: nat
  bl_min :: duration
  bl_p50 :: "duration option"
  bl_p95 :: "duration option"
  bl_max :: duration

definition bench_line_of :: "bench_result list \<Rightarrow> string \<Rightarrow> bench_line" where
  "bench_line_of all_results s =
     (let d = sort (map bn_dur (filter (\<lambda>r. bn_status r = s) all_results)) in
      \<lparr>bl_status = s, bl_count = length d, bl_min = hd d, bl_p50 = pct d 50, bl_p95 = pct d 95, bl_max = last d\<rparr>)"

definition count_status :: "bench_result list \<Rightarrow> string \<Rightarrow> int" where
  "count_status all_results s = int (length (filter (\<lambda>r. bn_status r = s) all_results))"

definition bench_hit_rate :: "bench_result list \<Rightarrow> float64 option" where
  "bench_hit_rate all_results =
     (let hits = count_status all_results ''exact_hit'' + count_status all_results ''semantic_hit'';
          misses = count_status all_results ''miss''
      in if hits + misses > 0 then Some (of_int hits / of_int (hits + misses) * 100) else None)"

section \<open>The run\<close>

text \<open>
  The prompts sent in the replay. The sends block until a worker takes them, so without a worker the replay does not return,
  \<open>None\<close>.
\<close>

definition replay_jobs :: "int \<Rightarrow> int \<Rightarrow> string list \<Rightarrow> string list option" where
  "replay_jobs conc rounds prompts =
     (let jobs = concat (replicate (nat rounds) prompts) in if conc \<le> 0 \<and> jobs \<noteq> [] then None else Some jobs)"

record bench_report =
  br_lines :: "bench_line list"
  br_hit_rate :: "float64 option"
  br_throughput :: "float64 option"
  br_errors :: int

text \<open>The summary of the results in the order in which the workers recorded them; \<open>wall\<close> is the time of the replay.\<close>

definition bench_summary :: "bench_result list \<Rightarrow> nat \<Rightarrow> duration \<Rightarrow> bench_report" where
  "bench_summary all_results n wall =
     \<lparr>br_lines = map (bench_line_of all_results) (sort (remdups (map bn_status all_results))),
      br_hit_rate = bench_hit_rate all_results,
      br_throughput = (if n > 0 \<and> wall > 0 then Some (of_nat n / (of_int wall / of_int Second)) else None),
      br_errors = count_status all_results ''error''\<rparr>"

text \<open>
  The whole run: every prompt once, in order, then the replay by workers. \<open>replayed\<close> are the results of the replay, in the order in
  which they came in.
\<close>

definition bench_run ::
  "(string \<Rightarrow> (string \<Rightarrow> string) \<Rightarrow> chat_request \<Rightarrow> 'w \<Rightarrow> (int \<times> string) option \<times> 'w) \<Rightarrow> ('w \<Rightarrow> instant) \<Rightarrow> (duration \<Rightarrow> 'w \<Rightarrow> 'w)
    \<Rightarrow> bench_flags \<Rightarrow> string list \<Rightarrow> 'w \<Rightarrow> bench_result list \<Rightarrow> duration \<Rightarrow> bench_report option" where
  "bench_run post now sleep f prompts w replayed wall =
     (case replay_jobs (bf_conc f) (bf_rounds f) prompts of
        None \<Rightarrow> None
      | Some jobs \<Rightarrow> Some (bench_summary (fst (bench_prime post now sleep f prompts w) @ replayed) (length jobs) wall))"

section \<open>Percentiles\<close>

lemma rank_aux:
  fixes m N :: int
  assumes "1 \<le> m" "m \<le> N * 100"
  shows "1 \<le> (m + 99) div 100 \<and> (m + 99) div 100 \<le> N \<and> m \<le> 100 * ((m + 99) div 100) \<and> 100 * ((m + 99) div 100) < m + 100"
proof -
  have "100 * ((m + 99) div 100) + (m + 99) mod 100 = m + 99" by simp
  moreover have "0 \<le> (m + 99) mod 100" "(m + 99) mod 100 < 100" by simp_all
  ultimately have "1 \<le> (m + 99) div 100" "(m + 99) div 100 \<le> N" "m \<le> 100 * ((m + 99) div 100)"
    "100 * ((m + 99) div 100) < m + 100"
    using assms by linarith+
  then show ?thesis by blast
qed

lemma rank_bounds:
  fixes n :: nat and p :: int
  assumes "0 < n" "0 < p" "p \<le> 100"
  defines "idx \<equiv> (int n * p + 99) div 100"
  shows "1 \<le> idx" "idx \<le> int n" "int n * p \<le> 100 * idx" "100 * idx < int n * p + 100"
proof -
  have np: "1 \<le> int n * p" using assms(1,2) by (simp add: int_one_le_iff_zero_less)
  have up: "int n * p \<le> int n * 100" using assms(3) by (intro mult_left_mono) simp_all
  show "1 \<le> idx" "idx \<le> int n" "int n * p \<le> 100 * idx" "100 * idx < int n * p + 100"
    unfolding idx_def using rank_aux[OF np up] by blast+
qed

text \<open>
  The percentile is the nearest-rank one: a measured value that at least \<open>p\<close> percent of the values do not exceed, and the
  least such.
\<close>

theorem pct_nearest_rank:
  assumes "sorted ds" "ds \<noteq> []" "0 < p" "p \<le> 100"
  shows "\<exists>v. pct ds p = Some v \<and> v \<in> set ds \<and>
    int (length ds) * p \<le> 100 * int (length (filter (\<lambda>d. d \<le> v) ds)) \<and>
    (\<forall>u. u < v \<longrightarrow> 100 * int (length (filter (\<lambda>d. d \<le> u) ds)) < int (length ds) * p)"
proof -
  define idx where "idx = (int (length ds) * p + 99) div 100"
  have n: "0 < length ds" using assms(2) by simp
  note b = rank_bounds[OF n assms(3,4), folded idx_def]
  define i where "i = nat (idx - 1)"
  have i: "i < length ds" "idx = int i + 1" using b(1,2) by (simp_all add: i_def)
  have "go_div (int (length ds) * p + 99) 100 = idx" using assms(3) by (simp add: idx_def)
  then have v: "pct ds p = Some (ds ! i)" using assms(2) b(1) i(1) by (simp add: pct_def Let_def i_def[symmetric])
  have below: "filter (\<lambda>d. d \<le> ds ! i) (take (Suc i) ds) = take (Suc i) ds"
    using assms(1) i(1) by (auto simp: filter_id_conv in_set_conv_nth sorted_iff_nth_mono)
  have "length (filter (\<lambda>d. d \<le> ds ! i) ds)
      = length (filter (\<lambda>d. d \<le> ds ! i) (take (Suc i) ds @ drop (Suc i) ds))" by simp
  also have "\<dots> \<ge> Suc i" unfolding filter_append below using i(1) by simp
  finally have up: "Suc i \<le> length (filter (\<lambda>d. d \<le> ds ! i) ds)" .
  have least: "length (filter (\<lambda>d. d \<le> u) ds) \<le> i" if "u < ds ! i" for u
  proof -
    have "ds ! i \<le> x" if x: "x \<in> set (drop i ds)" for x
    proof -
      obtain j where "j < length (drop i ds)" "x = drop i ds ! j" using x by (metis in_set_conv_nth)
      then show ?thesis using sorted_nth_mono[OF assms(1), of i "i + j"] by simp
    qed
    then have "filter (\<lambda>d. d \<le> u) (drop i ds) = []" using that by (force simp: filter_empty_conv)
    moreover have "filter (\<lambda>d. d \<le> u) ds = filter (\<lambda>d. d \<le> u) (take i ds) @ filter (\<lambda>d. d \<le> u) (drop i ds)"
      by (metis append_take_drop_id filter_append)
    ultimately have "filter (\<lambda>d. d \<le> u) ds = filter (\<lambda>d. d \<le> u) (take i ds)" by simp
    then show ?thesis by (metis length_filter_le length_take min.bounded_iff)
  qed
  have "ds ! i \<in> set ds" using i(1) by simp
  moreover have "int (length ds) * p \<le> 100 * int (length (filter (\<lambda>d. d \<le> ds ! i) ds))" using b(3) up i(2) by linarith
  moreover have "100 * int (length (filter (\<lambda>d. d \<le> u) ds)) < int (length ds) * p" if "u < ds ! i" for u
  proof -
    have "int (length (filter (\<lambda>d. d \<le> u) ds)) \<le> idx - 1" using least[OF that] i(2) by simp
    then show ?thesis using b(4) by (simp add: algebra_simps)
  qed
  ultimately show ?thesis using v by blast
qed

theorem pct_nearest_rank_witness: "\<exists>v. pct [10, 20, 30, 40] 50 = Some v \<and> v \<in> {10, 20, 30, 40}"
  using pct_nearest_rank[of "[10, 20, 30, 40]" 50] by auto

section \<open>The order of the workers\<close>

lemma bench_counts_mset:
  assumes "mset rs = mset rs'"
  shows "bench_line_of rs = bench_line_of rs'" "count_status rs = count_status rs'" "bench_hit_rate rs = bench_hit_rate rs'"
proof -
  have f: "mset (filter P rs) = mset (filter P rs')" for P using assms by simp
  have l: "length (filter P rs) = length (filter P rs')" for P using f by (metis size_mset)
  have s: "sort (map bn_dur (filter P rs)) = sort (map bn_dur (filter P rs'))" for P
    using f by (intro properties_for_sort) simp_all
  show c: "count_status rs = count_status rs'" by (simp add: count_status_def fun_eq_iff l)
  show "bench_line_of rs = bench_line_of rs'" unfolding bench_line_of_def s ..
  show "bench_hit_rate rs = bench_hit_rate rs'" by (simp add: bench_hit_rate_def c)
qed

text \<open>
  The report does not depend on how the workers interleave: results that came in in another order give the same lines, the
  same hit rate and the same number of errors.
\<close>

theorem report_order_free:
  assumes "mset replayed = mset replayed'"
  shows "bench_run post now sleep f prompts w replayed wall = bench_run post now sleep f prompts w replayed' wall"
proof -
  let ?p = "fst (bench_prime post now sleep f prompts w)"
  have m: "mset (?p @ replayed) = mset (?p @ replayed')" using assms by simp
  then have "set (?p @ replayed) = set (?p @ replayed')" by (metis set_mset_mset)
  then have "sort (remdups (map bn_status (?p @ replayed))) = sort (remdups (map bn_status (?p @ replayed')))"
    by (metis list.set_map sorted_list_of_set_sort_remdups)
  then show ?thesis
    unfolding bench_run_def bench_summary_def bench_counts_mset[OF m] by (simp split: option.split)
qed

theorem report_order_free_witness:
  "bench_run (\<lambda>url h b w. (Some (200, ''miss''), w + 90)) (\<lambda>w. w) (\<lambda>d w. w + d) default_bench_flags [''hi''] 0
     [bench_classify (Some (200, ''exact_hit'')) 7, bench_classify None 5] 10
   = bench_run (\<lambda>url h b w. (Some (200, ''miss''), w + 90)) (\<lambda>w. w) (\<lambda>d w. w + d) default_bench_flags [''hi''] 0
     [bench_classify None 5, bench_classify (Some (200, ''exact_hit'')) 7] 10"
  by (rule report_order_free) simp

section \<open>Against the gateway\<close>

text \<open>The token the gateway reads from a call; with the default key, which is empty, there is none, and the guard answers 401.\<close>

lemma bench_token: "bearerToken (bench_header f) = TrimSpace (bf_key f)"
  by (simp add: bearerToken_def bench_header_def EqualFold_def ToLower_def Let_def)

lemma bench_default_unauthenticated: "bearerToken (bench_header default_bench_flags) = ''''"
  by (simp add: bench_token default_bench_flags_def TrimSpace_def)

text \<open>What the prime phase leaves in the exact tier for a prompt is the answer to one with the same key.\<close>

lemma primed_entry:
  fixes f digest embed_fn search upsert now metric c t
  defines "x \<equiv> map_env digest embed_fn search upsert now metric" and "key \<equiv> \<lambda>q. key_Redis (ExactKey digest t (bench_body f q))"
  assumes "p \<in> set ps"
  shows "\<exists>q \<in> set ps. key q = key p \<and>
    (\<exists>ts. fst (foldl (\<lambda>w q. cache_Store x c t (bench_body f q) (answer q) None w) w ps) (key p) = Some ((answer q)\<lparr>ce_CreatedAt := ts\<rparr>))"
  using assms(3)
proof (induction ps rule: rev_induct)
  case (snoc q ps)
  let ?w = "foldl (\<lambda>w q. cache_Store x c t (bench_body f q) (answer q) None w) w ps"
  have s: "fst (cache_Store x c t (bench_body f q) (answer q) None ?w) =
      (fst ?w)(key q \<mapsto> (answer q)\<lparr>ce_CreatedAt := unix_seconds (xe_now x ?w)\<rparr>)"
    unfolding x_def key_def by (rule map_env_store)
  show ?case
  proof (cases "key q = key p")
    case True
    then show ?thesis using s by auto
  next
    case False
    then have "p \<in> set ps" using snoc.prems by auto
    from snoc.IH[OF this] show ?thesis using s False by auto
  qed
qed simp

text \<open>
  The replay measures exact hits, as the tool announces. The request it makes of a prompt from its file is valid, and cacheable
  under any enabled cache whatever its temperature bound; once the answers of the prime phase are stored, each replayed prompt is
  an exact hit, with the answer that was stored for a prompt that is the same up to white space.
\<close>

theorem replay_hits:
  fixes f digest embed_fn search upsert now metric
  defines "x \<equiv> map_env digest embed_fn search upsert now metric"
  assumes "inj digest" "readPrompts ls = Some ps" "p \<in> set ps" "bf_model f \<noteq> ''''" "1 \<le> bf_maxTokens f"
    and "cc_Enabled (ca_cfg c)" "0 \<le> cc_MaxTemperature (ca_cfg c)"
  shows "Validate (bench_body f p) = None \<and> Cacheable (ca_cfg c) (bench_body f p) False = None \<and>
    (\<exists>q \<in> set ps. \<exists>ts. normalizeContent q = normalizeContent p \<and>
      fst (Lookup x c t (bench_body f p) (foldl (\<lambda>w q. cache_Store x c t (bench_body f q) (answer q) None w) w ps))
        = result_of StatusExactHit (Some ((answer q)\<lparr>ce_CreatedAt := ts\<rparr>)) 0 None)"
proof -
  let ?w = "foldl (\<lambda>w q. cache_Store x c t (bench_body f q) (answer q) None w) w ps"
  obtain q ts where q: "q \<in> set ps" "key_Redis (ExactKey digest t (bench_body f q)) = key_Redis (ExactKey digest t (bench_body f p))"
    "fst ?w (key_Redis (ExactKey digest t (bench_body f p))) = Some ((answer q)\<lparr>ce_CreatedAt := ts\<rparr>)"
    using primed_entry[OF assms(4)] unfolding x_def by blast
  have "fst (exact_Get x (ExactKey digest t (bench_body f p)) ?w) = Inr (Some ((answer q)\<lparr>ce_CreatedAt := ts\<rparr>))"
    using q(3) unfolding x_def map_env_get by simp
  then have "fst (Lookup x c t (bench_body f p) ?w) = result_of StatusExactHit (Some ((answer q)\<lparr>ce_CreatedAt := ts\<rparr>)) 0 None"
    by (simp add: Lookup_def x_def split_beta Let_def)
  moreover have "same_key_fields t (bench_body f q) t (bench_body f p)"
    using q(2) assms(2) by (simp add: key_Redis_def ExactKey_def inj_eq flip: exact_key_separates)
  then have "normalizeContent q = normalizeContent p" by (simp add: same_key_fields_def bench_body_def)
  moreover have "Validate (bench_body f p) = None" using assms(5,6) by (simp add: Validate_None_iff bench_body_def)
  moreover have "Cacheable (ca_cfg c) (bench_body f p) False = None"
    using assms(7,8) by (simp add: Cacheable_def Temp_def bench_body_def)
  ultimately show ?thesis using q(1) by blast
qed

theorem replay_hits_witness:
  "\<exists>e. fst (Lookup demo_cache_env demo_cache ''t'' (bench_body default_bench_flags ''hi'')
     (foldl (\<lambda>w q. cache_Store demo_cache_env demo_cache ''t'' (bench_body default_bench_flags q) demo_entry None w) (Map.empty, ()) [''hi'']))
   = result_of StatusExactHit (Some e) 0 None"
proof -
  have "readPrompts [''# corpus'', '' hi ''] = Some [''hi'']"
    by (simp add: readPrompts_def TrimSpace_def is_space_def HasPrefix_def)
  moreover have "cc_Enabled (ca_cfg demo_cache)" "0 \<le> cc_MaxTemperature (ca_cfg demo_cache)" "bf_model default_bench_flags \<noteq> ''''"
    "1 \<le> bf_maxTokens default_bench_flags"
    by (simp_all add: demo_cache_def mock_config_def zero_config_def applyDefaults_def default_defs default_bench_flags_def)
  ultimately show ?thesis
    unfolding demo_cache_env_def using replay_hits[where digest = "\<lambda>s. s" and p = "''hi''" and ps = "[''hi'']"] by fastforce
qed

end
